theory Spec2Isabelle
  imports Complex_Main "HOL-Library.Sublist"
begin

section \<open>JavaScript strings\<close>

text \<open>
  A JavaScript string is a sequence of UTF-16 code units; a code unit is modelled as a
  natural number. \<open>str\<close> turns an ASCII literal into its code units.
\<close>

type_synonym jsstring = "nat list"

definition str :: "string \<Rightarrow> jsstring" where
  "str s = map of_char s"

text \<open>
  The character class \<^verbatim>\<open>\s\<close> of a JavaScript regular expression (which is also the set
  of code units removed by \<^verbatim>\<open>trim()\<close>): tab, line feed, vertical tab, form feed, carriage
  return, space, U+00A0, U+1680, U+2000 to U+200A, U+2028, U+2029, U+202F, U+205F, U+3000
  and U+FEFF.
\<close>

definition isWhiteSpace :: "nat \<Rightarrow> bool" where
  "isWhiteSpace c =
     (c = 9 \<or> c = 10 \<or> c = 11 \<or> c = 12 \<or> c = 13 \<or> c = 32 \<or> c = 160 \<or> c = 5760
      \<or> (8192 \<le> c \<and> c \<le> 8202) \<or> c = 8232 \<or> c = 8233 \<or> c = 8239 \<or> c = 8287
      \<or> c = 12288 \<or> c = 65279)"

text \<open>The character class \<^verbatim>\<open>\w\<close>: the ASCII letters, the digits and the underscore.\<close>

definition isWordChar :: "nat \<Rightarrow> bool" where
  "isWordChar c = ((48 \<le> c \<and> c \<le> 57) \<or> (65 \<le> c \<and> c \<le> 90) \<or> c = 95 \<or> (97 \<le> c \<and> c \<le> 122))"

text \<open>
  \<^verbatim>\<open>toLowerCase()\<close>. The ASCII capitals are mapped to their small letters. Of the other
  code units, exactly two have a lower-case form that contains an ASCII letter: U+0130
  (to \<open>i\<close> followed by U+0307) and the Kelvin sign U+212A (to \<open>k\<close>); both are modelled.
  The remaining cased letters of Unicode are left as they are: their lower-case forms are
  outside ASCII, so this cannot change whether an ASCII or a CJK pattern occurs in the
  result, and \<open>normalizeQuestionText\<close> below only lowers text that is already ASCII.
\<close>

definition lowerUnit :: "nat \<Rightarrow> jsstring" where
  "lowerUnit c =
     (if 65 \<le> c \<and> c \<le> 90 then [c + 32]
      else if c = 304 then [105, 775]
      else if c = 8490 then [107]
      else [c])"

definition toLowerCase :: "jsstring \<Rightarrow> jsstring" where
  "toLowerCase s = concat (map lowerUnit s)"

text \<open>\<^verbatim>\<open>trim()\<close>: white space is removed at both ends.\<close>

definition trim :: "jsstring \<Rightarrow> jsstring" where
  "trim s = rev (dropWhile isWhiteSpace (rev (dropWhile isWhiteSpace s)))"

text \<open>\<^verbatim>\<open>text.replace(/\s+/g, ' ')\<close>: every maximal run of white space becomes one space.\<close>

function collapseWhitespace :: "jsstring \<Rightarrow> jsstring" where
  "collapseWhitespace [] = []"
| "collapseWhitespace (c # cs) =
     (if isWhiteSpace c then 32 # collapseWhitespace (dropWhile isWhiteSpace cs)
      else c # collapseWhitespace cs)"
  by pat_completeness auto
termination
  by (relation "measure length") (auto simp: length_dropWhile_le less_Suc_eq_le)

text \<open>\<^verbatim>\<open>text.replace(/[^\w\s]/g, '')\<close>: only word characters and white space are kept.\<close>

definition stripPunctuation :: "jsstring \<Rightarrow> jsstring" where
  "stripPunctuation s = filter (\<lambda>c. isWordChar c \<or> isWhiteSpace c) s"

text \<open>\<^verbatim>\<open>s.split(' ')\<close>: the pieces between single spaces, empty pieces included.\<close>

fun splitSpace :: "jsstring \<Rightarrow> jsstring list" where
  "splitSpace [] = [[]]"
| "splitSpace (c # cs) =
     (if c = 32 then [] # splitSpace cs
      else (case splitSpace cs of [] \<Rightarrow> [[c]] | w # ws \<Rightarrow> (c # w) # ws))"

text \<open>\<^verbatim>\<open>s.includes(p)\<close>: \<open>p\<close> occurs in \<open>s\<close> as a contiguous piece.\<close>

fun startsWith :: "jsstring \<Rightarrow> jsstring \<Rightarrow> bool" where
  "startsWith s [] = True"
| "startsWith [] (p # ps) = False"
| "startsWith (c # cs) (p # ps) = (c = p \<and> startsWith cs ps)"

fun includesStr :: "jsstring \<Rightarrow> jsstring \<Rightarrow> bool" where
  "includesStr [] p = (p = [])"
| "includesStr (c # cs) p = (startsWith (c # cs) p \<or> includesStr cs p)"

section \<open>JavaScript numbers\<close>

text \<open>
  A JavaScript number is an IEEE 754 binary64 value. A finite one is modelled by the
  rational number it denotes. \<open>double x\<close> is the binary64 value nearest to the rational
  \<open>x\<close>, a tie going to the even significand: the magnitude of \<open>x\<close> is scaled by a power
  of two until it lies between \<open>2^52\<close> and \<open>2^53\<close> (the exponent stops at \<open>-1074\<close>, where
  the subnormal values are), rounded to an integer, and scaled back. A sum, a product and a
  quotient of the source are the exact result rounded by \<open>double\<close>; a decimal literal of
  the source is the double nearest to it. Counters and lengths are integers below \<open>2^53\<close>,
  on which the arithmetic of the source is exact. No value here reaches \<open>2^1024\<close>, and
  every division of the source has a divisor different from zero, so infinities and
  \<open>NaN\<close> do not occur.
\<close>

definition roundHalfEven :: "rat \<Rightarrow> int" where
  "roundHalfEven y =
     (let f = \<lfloor>y\<rfloor>; r = y - of_int f
      in if r < 1 / 2 then f else if 1 / 2 < r then f + 1 else if even f then f else f + 1)"

function scaleDown :: "rat \<Rightarrow> int \<Rightarrow> rat \<times> int" where
  "scaleDown y e = (if y < 2 ^ 52 \<and> - 1074 < e then scaleDown (2 * y) (e - 1) else (y, e))"
  by pat_completeness auto
termination
  by (relation "measure (\<lambda>(y, e). nat (e + 1074))") auto

function scaleUp :: "rat \<Rightarrow> int \<Rightarrow> rat \<times> int" where
  "scaleUp y e = (if 2 ^ 53 \<le> y \<and> e < 971 then scaleUp (y / 2) (e + 1) else (y, e))"
  by pat_completeness auto
termination
  by (relation "measure (\<lambda>(y, e). nat (971 - e))") auto

declare scaleDown.simps [simp del] scaleUp.simps [simp del]

definition double :: "rat \<Rightarrow> rat" where
  "double x =
     (if x = 0 then 0
      else (let (y, e) = (if \<bar>x\<bar> < 2 ^ 52 then scaleDown \<bar>x\<bar> 0 else scaleUp \<bar>x\<bar> 0)
            in sgn x * of_int (roundHalfEven y) * 2 powi e))"

text \<open>The operators \<^verbatim>\<open>+\<close>, \<^verbatim>\<open>*\<close> and \<^verbatim>\<open>/\<close> on numbers.\<close>

definition fadd :: "rat \<Rightarrow> rat \<Rightarrow> rat" where
  "fadd x y = double (x + y)"

definition fmul :: "rat \<Rightarrow> rat \<Rightarrow> rat" where
  "fmul x y = double (x * y)"

definition fdiv :: "rat \<Rightarrow> rat \<Rightarrow> rat" where
  "fdiv x y = double (x / y)"

section \<open>Answer consistency memory (DigitalPersonMemoryManager.ts)\<close>

record QuestionRecord =
  questionId :: jsstring
  questionText :: jsstring
  questionType :: jsstring
  options :: "jsstring list"
  answer :: jsstring
  answerText :: jsstring
  pageUrl :: jsstring
  timestamp :: nat
  attempts :: nat
  confidence :: rat

text \<open>
  \<open>questions\<close> is a JavaScript object used as a dictionary. Its keys are sixteen
  hexadecimal digits, never array indices, so the object enumerates its entries in
  insertion order: it is modelled as an association list in that order.
\<close>

record QuestionnaireMemory =
  questionnaireId :: jsstring
  digitalPersonId :: jsstring
  startTime :: nat
  questions :: "(jsstring \<times> QuestionRecord) list"
  questionOrder :: "jsstring list"
  currentPosition :: nat
  totalQuestions :: nat
  completedQuestions :: nat

record ProgressInfo =
  progressCurrentPosition :: nat
  progressTotalQuestions :: nat
  progressCompletedQuestions :: nat
  completionRate :: rat
  elapsedTime :: int
  progressDigitalPersonId :: jsstring
  progressQuestionnaireId :: jsstring

text \<open>\<^verbatim>\<open>key in obj\<close>, \<^verbatim>\<open>obj[key]\<close>, \<^verbatim>\<open>obj[key] = value\<close>, \<^verbatim>\<open>Object.values(obj)\<close> and
  \<^verbatim>\<open>Object.keys(obj)\<close>. An assignment to a key that is present keeps the position of the
  key; an assignment to a new key puts it last.\<close>

definition objHas :: "('k \<times> 'v) list \<Rightarrow> 'k \<Rightarrow> bool" where
  "objHas obj k = (k \<in> set (map fst obj))"

definition objGet :: "('k \<times> 'v) list \<Rightarrow> 'k \<Rightarrow> 'v option" where
  "objGet obj k = map_of obj k"

fun objSet :: "('k \<times> 'v) list \<Rightarrow> 'k \<Rightarrow> 'v \<Rightarrow> ('k \<times> 'v) list" where
  "objSet [] k v = [(k, v)]"
| "objSet (p # ps) k v = (if fst p = k then (k, v) # ps else p # objSet ps k v)"

definition objValues :: "('k \<times> 'v) list \<Rightarrow> 'v list" where
  "objValues obj = map snd obj"

definition objKeys :: "('k \<times> 'v) list \<Rightarrow> 'k list" where
  "objKeys obj = map fst obj"

text \<open>
  The constructor. The two identifiers are MD5 digests of the questionnaire URL and of the
  persona's name, age and gender; no property below depends on them, so they are taken as
  they are, like the clock value \<^verbatim>\<open>Date.now()\<close>.
\<close>

definition newMemory :: "jsstring \<Rightarrow> jsstring \<Rightarrow> nat \<Rightarrow> QuestionnaireMemory" where
  "newMemory qid pid now =
     \<lparr> questionnaireId = qid, digitalPersonId = pid, startTime = now, questions = [],
       questionOrder = [], currentPosition = 0, totalQuestions = 0, completedQuestions = 0 \<rparr>"

definition normalizeQuestionText :: "jsstring \<Rightarrow> jsstring" where
  "normalizeQuestionText text =
     toLowerCase (stripPunctuation (trim (collapseWhitespace text)))"

text \<open>
  Notions used to state how the normalization treats letter case and punctuation: the
  lower-case form of an ASCII letter, and a punctuation character (one that is neither a
  word character nor white space).
\<close>

definition asciiLower :: "nat \<Rightarrow> nat" where
  "asciiLower c = (if 65 \<le> c \<and> c \<le> 90 then c + 32 else c)"

definition isPunctuation :: "nat \<Rightarrow> bool" where
  "isPunctuation c = (\<not> isWordChar c \<and> \<not> isWhiteSpace c)"

text \<open>
  \<^verbatim>\<open>createHash('md5').update(combined).digest('hex')\<close> is Node's library, not code of this
  repository: the digest function is the parameter \<open>md5hex\<close>.
\<close>

definition generateQuestionId :: "(jsstring \<Rightarrow> jsstring) \<Rightarrow> jsstring \<Rightarrow> jsstring \<Rightarrow> jsstring" where
  "generateQuestionId md5hex text url =
     take 16 (md5hex (url @ str ''|'' @ normalizeQuestionText text))"

text \<open>The arguments of one call of \<open>recordQuestionAnswer\<close>, with the clock value read
  by the call.\<close>

record RecordCall =
  callText :: jsstring
  callType :: jsstring
  callOptions :: "jsstring list"
  callAnswer :: jsstring
  callAnswerText :: jsstring
  callPageUrl :: jsstring
  callAttempts :: nat
  callConfidence :: rat
  callNow :: nat

definition callQuestionId :: "(jsstring \<Rightarrow> jsstring) \<Rightarrow> RecordCall \<Rightarrow> jsstring" where
  "callQuestionId md5hex c = generateQuestionId md5hex (callText c) (callPageUrl c)"

definition callRecord :: "(jsstring \<Rightarrow> jsstring) \<Rightarrow> RecordCall \<Rightarrow> QuestionRecord" where
  "callRecord md5hex c =
     \<lparr> questionId = callQuestionId md5hex c, questionText = callText c,
       questionType = callType c, options = callOptions c, answer = callAnswer c,
       answerText = callAnswerText c, pageUrl = callPageUrl c, timestamp = callNow c,
       attempts = callAttempts c, confidence = callConfidence c \<rparr>"

definition recordQuestionAnswer ::
  "(jsstring \<Rightarrow> jsstring) \<Rightarrow> QuestionnaireMemory \<Rightarrow> RecordCall \<Rightarrow> QuestionnaireMemory \<times> jsstring" where
  "recordQuestionAnswer md5hex m c =
     (let qid = callQuestionId md5hex c;
          questionRecord = callRecord md5hex c
      in if \<not> objHas (questions m) qid then
           (let qs = objSet (questions m) qid questionRecord
            in (m\<lparr> questions := qs,
                    questionOrder := questionOrder m @ [qid],
                    totalQuestions := length (objKeys qs),
                    completedQuestions := completedQuestions m + 1 \<rparr>, qid))
         else (m\<lparr> questions := objSet (questions m) qid questionRecord \<rparr>, qid))"

text \<open>
  \<open>getProgressInfo\<close>. The two identifiers of the report are fields of the manager, which
  the constructor also writes into the memory; the model reads them from the memory.
\<close>

definition getProgressInfo :: "QuestionnaireMemory \<Rightarrow> nat \<Rightarrow> ProgressInfo" where
  "getProgressInfo m now =
     \<lparr> progressCurrentPosition = currentPosition m,
       progressTotalQuestions = totalQuestions m,
       progressCompletedQuestions = completedQuestions m,
       completionRate =
         (if totalQuestions m > 0
          then fmul (fdiv (of_nat (completedQuestions m)) (of_nat (totalQuestions m))) 100
          else 0),
       elapsedTime = int now - int (startTime m),
       progressDigitalPersonId = digitalPersonId m,
       progressQuestionnaireId = questionnaireId m \<rparr>"

text \<open>A sequence of \<open>recordQuestionAnswer\<close> calls on one memory.\<close>

definition recordAll ::
  "(jsstring \<Rightarrow> jsstring) \<Rightarrow> QuestionnaireMemory \<Rightarrow> RecordCall list \<Rightarrow> QuestionnaireMemory" where
  "recordAll md5hex m cs = foldl (\<lambda>m c. fst (recordQuestionAnswer md5hex m c)) m cs"

subsection \<open>Similarity search\<close>

text \<open>
  A JavaScript \<open>Set\<close> is modelled as a finite set, its \<open>size\<close> as the cardinality. The
  similarities are numbers: each quotient, product and sum below is a rounded one.
\<close>

record QuestionFeatures =
  normalizedText :: jsstring
  normalizedOptions :: "jsstring list"
  keywordSet :: "jsstring set"
  optionKeywords :: "jsstring set"
  textLength :: nat
  optionCount :: nat

definition extractQuestionFeatures :: "jsstring \<Rightarrow> jsstring list \<Rightarrow> QuestionFeatures" where
  "extractQuestionFeatures text opts =
     (let nt = normalizeQuestionText text;
          nos = map normalizeQuestionText opts
      in \<lparr> normalizedText = nt,
           normalizedOptions = nos,
           keywordSet = set (filter (\<lambda>word. length word > 2) (splitSpace nt)),
           optionKeywords =
             set (concat (map (\<lambda>opt. filter (\<lambda>word. length word > 2) (splitSpace opt)) nos)),
           textLength = length nt,
           optionCount = length opts \<rparr>)"

text \<open>
  \<open>calculateStringSimilarity\<close> fills a matrix of \<open>len1 + 1\<close> rows and \<open>len2 + 1\<close>
  columns. The matrix is a list of rows; the loops are folds over the index ranges.
\<close>

definition setCell :: "nat list list \<Rightarrow> nat \<Rightarrow> nat \<Rightarrow> nat \<Rightarrow> nat list list" where
  "setCell matrix i j v = matrix[i := (matrix ! i)[j := v]]"

definition initMatrix :: "nat \<Rightarrow> nat \<Rightarrow> nat list list" where
  "initMatrix len1 len2 =
     foldl (\<lambda>matrix j. setCell matrix 0 j j)
       (foldl (\<lambda>matrix i. setCell matrix i 0 i)
          (replicate (len1 + 1) (replicate (len2 + 1) 0)) [0..<len1 + 1])
       [0..<len2 + 1]"

definition fillCell :: "jsstring \<Rightarrow> jsstring \<Rightarrow> nat \<Rightarrow> nat list list \<Rightarrow> nat \<Rightarrow> nat list list" where
  "fillCell str1 str2 i matrix j =
     (let cost = (if str1 ! (i - 1) = str2 ! (j - 1) then 0 else 1)
      in setCell matrix i j
           (min (min (matrix ! (i - 1) ! j + 1) (matrix ! i ! (j - 1) + 1))
                (matrix ! (i - 1) ! (j - 1) + cost)))"

definition fillMatrix :: "jsstring \<Rightarrow> jsstring \<Rightarrow> nat list list" where
  "fillMatrix str1 str2 =
     foldl (\<lambda>matrix i. foldl (fillCell str1 str2 i) matrix [1..<length str2 + 1])
       (initMatrix (length str1) (length str2)) [1..<length str1 + 1]"

definition calculateStringSimilarity :: "jsstring \<Rightarrow> jsstring \<Rightarrow> rat" where
  "calculateStringSimilarity str1 str2 =
     (let len1 = length str1; len2 = length str2
      in if len1 = 0 then (if len2 = 0 then 1 else 0)
         else if len2 = 0 then 0
         else (let matrix = fillMatrix str1 str2; maxLen = max len1 len2
               in fdiv (of_nat maxLen - of_nat (matrix ! len1 ! len2)) (of_nat maxLen)))"

definition keywordSimilarity :: "QuestionFeatures \<Rightarrow> QuestionFeatures \<Rightarrow> rat" where
  "keywordSimilarity features1 features2 =
     (let commonKeywords = Set.filter (\<lambda>k. k \<in> keywordSet features2) (keywordSet features1);
          totalKeywords = keywordSet features1 \<union> keywordSet features2
      in if card totalKeywords > 0
         then fdiv (of_nat (card commonKeywords)) (of_nat (card totalKeywords)) else 0)"

definition optionSimilarity :: "QuestionFeatures \<Rightarrow> QuestionFeatures \<Rightarrow> rat" where
  "optionSimilarity features1 features2 =
     (let options1 = set (normalizedOptions features1);
          options2 = set (normalizedOptions features2);
          commonOptions = Set.filter (\<lambda>opt. opt \<in> options2) options1;
          totalOptions = options1 \<union> options2
      in if card totalOptions > 0
         then fdiv (of_nat (card commonOptions)) (of_nat (card totalOptions)) else 0)"

definition optionCountSimilarity :: "QuestionFeatures \<Rightarrow> QuestionFeatures \<Rightarrow> rat" where
  "optionCountSimilarity features1 features2 =
     (if optionCount features1 = optionCount features2 then 1 else 1 / 2)"

definition calculateQuestionSimilarity :: "QuestionFeatures \<Rightarrow> QuestionFeatures \<Rightarrow> rat" where
  "calculateQuestionSimilarity features1 features2 =
     fadd (fadd (fadd
       (fmul (calculateStringSimilarity (normalizedText features1) (normalizedText features2))
          (double (4 / 10)))
       (fmul (keywordSimilarity features1 features2) (double (3 / 10))))
       (fmul (optionSimilarity features1 features2) (double (2 / 10))))
       (fmul (optionCountSimilarity features1 features2) (double (1 / 10)))"

text \<open>The similarity of a query to a stored record, as the loop of \<open>findSimilarQuestion\<close>
  computes it.\<close>

definition recordSimilarity :: "jsstring \<Rightarrow> jsstring list \<Rightarrow> QuestionRecord \<Rightarrow> rat" where
  "recordSimilarity text opts questionRecord =
     calculateQuestionSimilarity (extractQuestionFeatures text opts)
       (extractQuestionFeatures (questionText questionRecord) (options questionRecord))"

definition findStep ::
  "jsstring \<Rightarrow> jsstring list \<Rightarrow> rat \<Rightarrow> QuestionRecord option \<times> rat \<Rightarrow> QuestionRecord
     \<Rightarrow> QuestionRecord option \<times> rat" where
  "findStep text opts similarityThreshold best questionRecord =
     (let similarity = recordSimilarity text opts questionRecord
      in if similarity > similarityThreshold \<and> similarity > snd best
         then (Some questionRecord, similarity) else best)"

definition findSimilarQuestion ::
  "QuestionnaireMemory \<Rightarrow> jsstring \<Rightarrow> jsstring list \<Rightarrow> rat \<Rightarrow> QuestionRecord option" where
  "findSimilarQuestion m text opts similarityThreshold =
     fst (foldl (findStep text opts similarityThreshold) (None, 0) (objValues (questions m)))"

text \<open>\<^verbatim>\<open>array.indexOf(x)\<close>: the first position of \<open>x\<close>, or -1.\<close>

fun indexOf :: "'a list \<Rightarrow> 'a \<Rightarrow> int" where
  "indexOf [] x = - 1"
| "indexOf (y # ys) x = (if y = x then 0 else (if indexOf ys x < 0 then - 1 else indexOf ys x + 1))"

text \<open>The suggestion. The field \<open>similarityPosition\<close> is the number printed inside the
  text of \<open>similarityReason\<close>.\<close>

record ConsistentAnswerSuggestion =
  suggestedAnswer :: jsstring
  suggestedAnswerText :: jsstring
  referenceQuestionId :: jsstring
  referenceQuestionText :: jsstring
  similarityPosition :: int
  suggestionConfidence :: rat

definition getConsistentAnswerSuggestion ::
  "QuestionnaireMemory \<Rightarrow> jsstring \<Rightarrow> jsstring list \<Rightarrow> ConsistentAnswerSuggestion option" where
  "getConsistentAnswerSuggestion m text opts =
     (case findSimilarQuestion m text opts (double (8 / 10)) of
        None \<Rightarrow> None
      | Some similarQuestion \<Rightarrow>
          Some \<lparr> suggestedAnswer = answer similarQuestion,
                 suggestedAnswerText = answerText similarQuestion,
                 referenceQuestionId = questionId similarQuestion,
                 referenceQuestionText = questionText similarQuestion,
                 similarityPosition = indexOf (questionOrder m) (questionId similarQuestion) + 1,
                 suggestionConfidence = confidence similarQuestion \<rparr>)"

text \<open>
  The Levenshtein distance between the first \<open>i\<close> code units of \<open>s\<close> and the first \<open>j\<close>
  code units of \<open>t\<close>, by its defining recurrence; this is the notion the properties below
  compare the matrix with.
\<close>

fun prefixDistance :: "jsstring \<Rightarrow> jsstring \<Rightarrow> nat \<Rightarrow> nat \<Rightarrow> nat" where
  "prefixDistance s t 0 j = j"
| "prefixDistance s t (Suc i) 0 = Suc i"
| "prefixDistance s t (Suc i) (Suc j) =
     min (min (prefixDistance s t i (Suc j) + 1) (prefixDistance s t (Suc i) j + 1))
         (prefixDistance s t i j + (if s ! i = t ! j then 0 else 1))"

definition editDistance :: "jsstring \<Rightarrow> jsstring \<Rightarrow> nat" where
  "editDistance s t = prefixDistance s t (length s) (length t)"

subsection \<open>The search on records as they are at run time\<close>

text \<open>
  \<open>importMemory(memoryData: any)\<close> installs whatever object it is given, so at run time
  the two fields of a stored record that the search reads need not have their declared
  types. \<open>None\<close> stands for a \<open>questionText\<close> that is missing or not a string, and for
  \<open>options\<close> that are missing or not an array of strings. Calling \<^verbatim>\<open>text.replace\<close> or
  \<^verbatim>\<open>options.map\<close> on such a value throws a \<open>TypeError\<close>.
\<close>

datatype jsException = TypeError

record RawQuestionRecord =
  rawQuestionId :: jsstring
  rawQuestionText :: "jsstring option"
  rawOptions :: "jsstring list option"
  rawAnswerText :: jsstring

definition extractQuestionFeaturesRaw ::
  "jsstring option \<Rightarrow> jsstring list option \<Rightarrow> jsException + QuestionFeatures" where
  "extractQuestionFeaturesRaw text opts =
     (case text of
        None \<Rightarrow> Inl TypeError
      | Some t \<Rightarrow> (case opts of None \<Rightarrow> Inl TypeError
                              | Some os \<Rightarrow> Inr (extractQuestionFeatures t os)))"

text \<open>The loop of \<open>findSimilarQuestion\<close>; it has no \<^verbatim>\<open>try\<close>, so an error thrown while a
  stored record is processed ends the loop and the function.\<close>

fun findLoopRaw ::
  "QuestionFeatures \<Rightarrow> rat \<Rightarrow> RawQuestionRecord option \<times> rat \<Rightarrow> RawQuestionRecord list
     \<Rightarrow> jsException + RawQuestionRecord option" where
  "findLoopRaw currentFeatures similarityThreshold best [] = Inr (fst best)"
| "findLoopRaw currentFeatures similarityThreshold best (questionRecord # rest) =
     (case extractQuestionFeaturesRaw (rawQuestionText questionRecord) (rawOptions questionRecord) of
        Inl e \<Rightarrow> Inl e
      | Inr storedFeatures \<Rightarrow>
          (let similarity = calculateQuestionSimilarity currentFeatures storedFeatures
           in findLoopRaw currentFeatures similarityThreshold
                (if similarity > similarityThreshold \<and> similarity > snd best
                 then (Some questionRecord, similarity) else best) rest))"

definition findSimilarQuestionRaw ::
  "RawQuestionRecord list \<Rightarrow> jsstring \<Rightarrow> jsstring list \<Rightarrow> rat
     \<Rightarrow> jsException + RawQuestionRecord option" where
  "findSimilarQuestionRaw stored text opts similarityThreshold =
     findLoopRaw (extractQuestionFeatures text opts) similarityThreshold (None, 0) stored"

text \<open>\<open>getConsistentAnswerSuggestion\<close> has no \<^verbatim>\<open>try\<close> either. Of the suggestion, the
  answer text and the reference are kept.\<close>

definition getConsistentAnswerSuggestionRaw ::
  "RawQuestionRecord list \<Rightarrow> jsstring \<Rightarrow> jsstring list
     \<Rightarrow> jsException + (jsstring \<times> jsstring) option" where
  "getConsistentAnswerSuggestionRaw stored text opts =
     (case findSimilarQuestionRaw stored text opts (double (8 / 10)) of
        Inl e \<Rightarrow> Inl e
      | Inr None \<Rightarrow> Inr None
      | Inr (Some similarQuestion) \<Rightarrow>
          Inr (Some (rawAnswerText similarQuestion, rawQuestionId similarQuestion)))"

subsection \<open>The cache of MemoryManager.ts\<close>

text \<open>The records of the cache are read from a JSON file; \<open>memQuestionText\<close> is \<open>None\<close>
  when the field is missing or not a string.\<close>

record MemoryRecord =
  memDigitalPersonId :: jsstring
  memQuestionText :: "jsstring option"
  memAnswer :: jsstring

text \<open>\<^verbatim>\<open>text.split(/\s+/)\<close>: the pieces between runs of white space.\<close>

function splitWhitespace :: "jsstring \<Rightarrow> jsstring list" where
  "splitWhitespace [] = [[]]"
| "splitWhitespace (c # cs) =
     (if isWhiteSpace c then [] # splitWhitespace (dropWhile isWhiteSpace cs)
      else (case splitWhitespace cs of [] \<Rightarrow> [[c]] | w # ws \<Rightarrow> (c # w) # ws))"
  by pat_completeness auto
termination
  by (relation "measure length") (auto simp: length_dropWhile_le less_Suc_eq_le)

definition calculateTextSimilarity :: "jsstring \<Rightarrow> jsstring \<Rightarrow> rat" where
  "calculateTextSimilarity text1 text2 =
     (let words1 = set (splitWhitespace text1);
          words2 = set (splitWhitespace text2);
          intersection = Set.filter (\<lambda>word. word \<in> words2) words1;
          union = words1 \<union> words2
      in fdiv (of_nat (card intersection)) (of_nat (card union)))"

text \<open>The loop of \<open>findSimilarMemory\<close>, which returns at the first record above the
  threshold, and the function itself, whose \<^verbatim>\<open>catch\<close> turns any error into \<open>null\<close>.\<close>

fun similarMemoryLoop ::
  "jsstring \<Rightarrow> jsstring \<Rightarrow> MemoryRecord list \<Rightarrow> jsException + MemoryRecord option" where
  "similarMemoryLoop personId normalizedQuestion [] = Inr None"
| "similarMemoryLoop personId normalizedQuestion (memory # rest) =
     (if memDigitalPersonId memory = personId then
        (case memQuestionText memory of
           None \<Rightarrow> Inl TypeError
         | Some t \<Rightarrow>
             if calculateTextSimilarity normalizedQuestion (trim (toLowerCase t))
                  > double (8 / 10)
             then Inr (Some memory)
             else similarMemoryLoop personId normalizedQuestion rest)
      else similarMemoryLoop personId normalizedQuestion rest)"

definition findSimilarMemory ::
  "MemoryRecord list \<Rightarrow> jsstring \<Rightarrow> jsstring \<Rightarrow> MemoryRecord option" where
  "findSimilarMemory cache personId text =
     (case similarMemoryLoop personId (trim (toLowerCase text)) cache of
        Inl e \<Rightarrow> None
      | Inr found \<Rightarrow> found)"

text \<open>A record as a careless import leaves it: the array of options is missing.\<close>

definition importedRecord :: RawQuestionRecord where
  "importedRecord =
     \<lparr> rawQuestionId = str ''0123456789abcdef'',
       rawQuestionText = Some (str ''Do you like coffee?''), rawOptions = None,
       rawAnswerText = str ''Yes'' \<rparr>"

text \<open>The shape of the matrix: \<open>len1 + 1\<close> rows of \<open>len2 + 1\<close> cells.\<close>

definition shaped :: "nat \<Rightarrow> nat \<Rightarrow> nat list list \<Rightarrow> bool" where
  "shaped len1 len2 m = (length m = len1 + 1 \<and> (\<forall>r \<le> len1. length (m ! r) = len2 + 1))"

text \<open>The tokens of a normalized text that count as keywords.\<close>

definition keywordsOf :: "jsstring \<Rightarrow> jsstring set" where
  "keywordsOf text = {word \<in> set (splitSpace (normalizeQuestionText text)). length word > 2}"

text \<open>
  The score in the words of the specification, with exact arithmetic: 0.4 times the text
  similarity (one minus the edit distance over the greater length), 0.3 and 0.2 times the
  Jaccard similarities of the keyword sets and of the option sets, and 0.1 times 1 or 0.5
  for equal or different option counts. A quotient with denominator 0 is 0.
\<close>

definition exactSimilarity :: "jsstring \<Rightarrow> jsstring list \<Rightarrow> QuestionRecord \<Rightarrow> rat" where
  "exactSimilarity text opts r =
     4 / 10 * (1 - of_nat (editDistance (normalizeQuestionText text)
                              (normalizeQuestionText (questionText r)))
                 / of_nat (max (length (normalizeQuestionText text))
                               (length (normalizeQuestionText (questionText r)))))
     + 3 / 10 * (of_nat (card (keywordsOf text \<inter> keywordsOf (questionText r)))
                 / of_nat (card (keywordsOf text \<union> keywordsOf (questionText r))))
     + 2 / 10 * (of_nat (card (set (map normalizeQuestionText opts)
                               \<inter> set (map normalizeQuestionText (options r))))
                 / of_nat (card (set (map normalizeQuestionText opts)
                               \<union> set (map normalizeQuestionText (options r)))))
     + 1 / 10 * (if length opts = length (options r) then 1 else 1 / 2)"

text \<open>The counters of a memory agree with its stored records.\<close>

definition memoryConsistent :: "QuestionnaireMemory \<Rightarrow> bool" where
  "memoryConsistent m =
     (objKeys (questions m) = questionOrder m \<and> distinct (questionOrder m)
      \<and> totalQuestions m = length (questionOrder m)
      \<and> completedQuestions m = length (questionOrder m))"

section \<open>Completion detector (IntelligentCompletionManager.ts)\<close>

text \<open>
  The detector reads the page through the browser. Every such call either returns a value
  or throws: \<open>Inr\<close> is the value returned, \<open>Inl\<close> carries the message of the error thrown.
  \<open>readBodyText\<close> is \<^verbatim>\<open>page.locator('body').textContent()\<close>, which may also return
  \<^verbatim>\<open>null\<close>; \<open>locatorCount selector\<close> is \<^verbatim>\<open>page.locator(selector).count()\<close>.
\<close>

record Page =
  readUrl :: "jsstring + jsstring"
  readTitle :: "jsstring + jsstring"
  readBodyText :: "jsstring + jsstring option"
  locatorCount :: "jsstring \<Rightarrow> jsstring + nat"

record CompletionDetectionResult =
  isSuccess :: bool
  successType :: jsstring
  completionScore :: "rat option"
  shouldCleanup :: bool
  details :: jsstring
  detectionTime :: nat
  executionTime :: int

text \<open>The three fixed tables of the class. The Chinese literals are given by their code
  units.\<close>

definition completionSignals :: "jsstring list" where
  "completionSignals =
     [[38382, 21367, 24050, 23436, 25104], [35843, 26597, 32467, 26463],
      [35843, 30740, 24050, 32467, 26463], [24863, 35874, 24744, 30340, 21442, 19982],
      str ''survey completed'', str ''questionnaire finished'', str ''survey ended'',
      str ''thank you for participating'', str ''submission successful'']"

definition completionUrlPatterns :: "jsstring list" where
  "completionUrlPatterns =
     [str ''thank-you'', str ''completion'', str ''success-page'', str ''finished'',
      str ''submitted'', str ''complete'', str ''end-survey'']"

definition errorKeywords :: "jsstring list" where
  "errorKeywords =
     [[31995, 32479, 23849, 28291], str ''server error'', [26381, 21153, 22120, 25925, 38556],
      [32593, 31449, 32500, 25252, 20013], str ''system error'', str ''maintenance'',
      str ''service unavailable'']"

text \<open>The selectors \<^verbatim>\<open>text="..."\<close> of the completion elements; 34 is the double quote.\<close>

definition completionSelectors :: "jsstring list" where
  "completionSelectors =
     [str ''text='' @ [34] @ [38382, 21367, 24050, 23436, 25104] @ [34],
      str ''text='' @ [34] @ str ''survey completed'' @ [34],
      str ''text='' @ [34] @ str ''questionnaire finished'' @ [34],
      str ''text='' @ [34] @ str ''thank you'' @ [34],
      str ''text='' @ [34] @ str ''submission successful'' @ [34]]"

text \<open>A selector counts when its \<open>count()\<close> returns a positive number; a selector whose
  \<open>count()\<close> throws is skipped (the inner \<^verbatim>\<open>try\<close> of the loop).\<close>

definition selectorPresent :: "Page \<Rightarrow> jsstring \<Rightarrow> bool" where
  "selectorPresent page selector =
     (case locatorCount page selector of Inl e \<Rightarrow> False | Inr elementCount \<Rightarrow> elementCount > 0)"

text \<open>Each of the three loops returns \<open>true\<close> at the first hit.\<close>

definition detectStrictCompletionSignals :: "Page \<Rightarrow> jsstring \<Rightarrow> jsstring \<Rightarrow> bool" where
  "detectStrictCompletionSignals page currentUrl bodyText =
     (let urlLower = toLowerCase currentUrl
      in if list_ex (\<lambda>pattern. includesStr urlLower pattern) completionUrlPatterns then True
         else if list_ex (\<lambda>signal. includesStr bodyText (toLowerCase signal)) completionSignals
           then True
         else if list_ex (selectorPresent page) completionSelectors then True
         else False)"

definition detectErrorIndicators :: "jsstring \<Rightarrow> bool" where
  "detectErrorIndicators bodyText =
     list_ex (\<lambda>keyword. includesStr bodyText (toLowerCase keyword)) errorKeywords"

definition detectQuestionnaireContinuation :: "jsstring \<Rightarrow> bool" where
  "detectQuestionnaireContinuation bodyText = True"

text \<open>The page text as the detector obtains it: the empty string when the read throws or
  returns \<^verbatim>\<open>null\<close>.\<close>

definition bodyTextOf :: "Page \<Rightarrow> jsstring" where
  "bodyTextOf page =
     (case readBodyText page of Inl e \<Rightarrow> [] | Inr None \<Rightarrow> [] | Inr (Some t) \<Rightarrow> t)"

definition detailsComplete :: jsstring where
  "detailsComplete =
     [26816, 27979, 21040, 26126, 30830, 30340, 38382, 21367, 32467, 26463, 20449, 21495]"

definition detailsContinue :: jsstring where
  "detailsContinue =
     [32487, 32493, 26234, 33021, 20316, 31572, 27969, 31243, 65292, 30830, 20445, 25152,
      26377, 39064, 30446, 37117, 33021, 23436, 25104]"

definition detailsError :: "jsstring \<Rightarrow> jsstring" where
  "detailsError message = [26816, 27979, 36807, 31243, 24322, 24120, 58, 32] @ message"

definition errorResult :: "jsstring \<Rightarrow> int \<Rightarrow> nat \<Rightarrow> CompletionDetectionResult" where
  "errorResult message execTime now =
     \<lparr> isSuccess = False, successType = str ''detection_error'', completionScore = None,
       shouldCleanup = False, details = detailsError message, detectionTime = now,
       executionTime = execTime \<rparr>"

text \<open>
  \<open>intelligentCompletionDetection\<close>. An error thrown while the URL or the title is read
  reaches the outer \<^verbatim>\<open>catch\<close>. The results of the error and continuation detections are
  computed and not used. The check counter and the history ring of the class are only
  written, never read by the decision, and are left out.
\<close>

definition intelligentCompletionDetection ::
  "Page \<Rightarrow> int \<Rightarrow> nat \<Rightarrow> CompletionDetectionResult" where
  "intelligentCompletionDetection page execTime now =
     (case readUrl page of
        Inl message \<Rightarrow> errorResult message execTime now
      | Inr currentUrl \<Rightarrow>
          (case readTitle page of
             Inl message \<Rightarrow> errorResult message execTime now
           | Inr currentTitle \<Rightarrow>
               (let bodyTextLower = toLowerCase (bodyTextOf page);
                    hasStrictCompletion = detectStrictCompletionSignals page currentUrl bodyTextLower;
                    hasErrorIndicators = detectErrorIndicators bodyTextLower;
                    stillInQuestionnaire = detectQuestionnaireContinuation bodyTextLower
                in if hasStrictCompletion then
                     \<lparr> isSuccess = True, successType = str ''complete'',
                       completionScore = Some (double (95 / 100)), shouldCleanup = True,
                       details = detailsComplete, detectionTime = now,
                       executionTime = execTime \<rparr>
                   else
                     \<lparr> isSuccess = False, successType = str ''continue_answering'',
                       completionScore = None, shouldCleanup = False,
                       details = detailsContinue, detectionTime = now,
                       executionTime = execTime \<rparr>)))"

section \<open>Continuous answering loop (ContinuousAnsweringEnhancer.ts)\<close>

text \<open>Decimal rendering of a number inside a template literal.\<close>

function showNat :: "nat \<Rightarrow> jsstring" where
  "showNat n = (if n < 10 then [48 + n] else showNat (n div 10) @ [48 + n mod 10])"
  by pat_completeness auto
termination
  by (relation "measure id") auto

declare showNat.simps [simp del]






record EnhancerConfig =
  maxContinuousAttempts :: nat
  maxContinuousFailures :: nat







record LoopState =
  pagesProcessed :: nat
  totalQuestionsAnswered :: int
  continuousFailures :: nat

record LoopResult =
  totalPagesProcessed :: nat
  resultQuestionsAnswered :: int
  finalStatus :: jsstring
  completionReason :: jsstring

text \<open>How one round ends: with a \<^verbatim>\<open>return\<close>, with a \<^verbatim>\<open>break\<close>, or by going on
  to the next round (by \<^verbatim>\<open>continue\<close> or at the end of the body).\<close>

datatype RoundOutcome = RoundReturn LoopResult | RoundBreak LoopState | RoundNext LoopState

text \<open>A failed round, by a failed navigation or in the \<^verbatim>\<open>catch\<close> block.\<close>

definition countFailure :: "EnhancerConfig \<Rightarrow> LoopState \<Rightarrow> RoundOutcome" where
  "countFailure cfg st =
     (let st' = st\<lparr> continuousFailures := continuousFailures st + 1 \<rparr>
      in if continuousFailures st' \<ge> maxContinuousFailures cfg then RoundBreak st'
         else RoundNext st')"









section \<open>Resource cleanup (UnifiedResourceCleanupManager)\<close>

text \<open>
  The cleanup manager works on one \<open>SessionResourceData\<close> object, which it mutates, and
  through it on the objects the session refers to: the answering engine, the AdsPower
  browser manager, the proxy manager and the persona memory. The model keeps all of them
  in one record, the \<open>World\<close>, together with a log of the calls that leave the process
  (timer cancellations, the closing of the browser context, the HTTP requests of the
  browser manager). Console output is not modelled.

  A thrown value is kept as its message, the string that
  \<^verbatim>\<open>error instanceof Error ? error.message : String(error)\<close> yields.
\<close>

datatype failure = Failure jsstring

datatype CleanupPhase =
  INIT | STOP_MONITORING | CLEANUP_STAGEHAND | CLEANUP_MEMORY | CLEANUP_ADSPOWER
  | CLEANUP_PROXY | CLEANUP_THREADS | COMPLETED

text \<open>The string values of the enumeration.\<close>

fun phaseName :: "CleanupPhase \<Rightarrow> jsstring" where
  "phaseName INIT = [21021, 22987, 21270]"
| "phaseName STOP_MONITORING = [20572, 27490, 30417, 25511]"
| "phaseName CLEANUP_STAGEHAND = [28165, 29702] @ str ''Stagehand'' @ [26381, 21153]"
| "phaseName CLEANUP_MEMORY = [28165, 29702, 35760, 24518, 36164, 28304]"
| "phaseName CLEANUP_ADSPOWER = [28165, 29702] @ str ''AdsPower'' @ [27983, 35272, 22120]"
| "phaseName CLEANUP_PROXY = [28165, 29702, 20195, 29702, 36164, 28304]"
| "phaseName CLEANUP_THREADS = [28165, 29702, 32447, 31243, 20219, 21153]"
| "phaseName COMPLETED = [23436, 25104]"

text \<open>
  The Stagehand object comes from a library. What the cleanup reads from it is given by the
  object: the \<open>context\<close> getter yields a context, \<open>undefined\<close>, or throws; \<open>pages()\<close> yields
  the pages or throws; \<open>url()\<close> of a page yields a string or throws; \<open>close()\<close> returns or
  throws.
\<close>

record PageRef =
  urlResult :: "failure + jsstring"

record ContextRef =
  pagesResult :: "failure + PageRef list"
  closeResult :: "failure option"

record StagehandRef =
  contextResult :: "failure + ContextRef option"

record BrowserInfo =
  browserProfileId :: jsstring
  debugPort :: nat

text \<open>
  The session's resources. An optional field that is \<open>undefined\<close> (or holds a falsy value)
  is \<open>None\<close>; a reference to one of the managers or to the engine is a flag, the object
  itself being part of the world; \<open>additionalResources\<close> is the address of a \<open>Map\<close> object.
\<close>

record SessionResourceData =
  sessionId :: jsstring
  profileId :: "jsstring option"
  proxyInfo :: "jsstring option"
  stagehand :: "StagehandRef option"
  superEngine :: bool
  browserInfo :: "BrowserInfo option"
  adsPowerManager :: bool
  proxyManager :: bool
  memoryManager :: bool
  digitalPersonMemoryManager :: bool
  monitorInterval :: "nat option"
  monitorStopFlag :: "bool option"
  additionalResources :: "nat option"

datatype Effect =
  ClearInterval nat | ContextClose | BrowserStopRequest jsstring | BrowserDeleteRequest jsstring

record PhaseReport =
  reportPhase :: jsstring
  reportSuccess :: bool
  reportCleanupCount :: "nat option"
  reportDetails :: "jsstring option"
  reportError :: "jsstring option"

record CleanupResult =
  success :: bool
  cleanupTime :: int
  phasesCompleted :: nat
  resultDetails :: "(jsstring \<times> PhaseReport) list"
  errors :: "jsstring list"

record World =
  sessionData :: SessionResourceData
  enginePaused :: bool
  activeBrowsers :: "(jsstring \<times> BrowserInfo) list"
  allocatedProxies :: "(jsstring \<times> jsstring) list"
  proxyUsageStats :: "(jsstring \<times> nat) list"
  personMemory :: "QuestionnaireMemory option"
  resourceMaps :: "(nat \<times> (jsstring \<times> jsstring) list) list"
  effects :: "Effect list"
  currentPhase :: CleanupPhase
  cleanupStartTime :: nat
  cleanupResults :: "(jsstring \<times> PhaseReport) list"

text \<open>A string is truthy when it is present and not empty.\<close>

definition truthy :: "jsstring option \<Rightarrow> bool" where
  "truthy s = (case s of None \<Rightarrow> False | Some t \<Rightarrow> t \<noteq> [])"

text \<open>\<^verbatim>\<open>map.delete(key)\<close>.\<close>

definition mapDelete :: "('k \<times> 'v) list \<Rightarrow> 'k \<Rightarrow> ('k \<times> 'v) list" where
  "mapDelete m k = filter (\<lambda>p. fst p \<noteq> k) m"

definition clearInterval :: "nat \<Rightarrow> World \<Rightarrow> World" where
  "clearInterval h w = w\<lparr>effects := effects w @ [ClearInterval h]\<rparr>"

text \<open>\<open>StagehandSuperIntelligentEngine.pause\<close> (ContinuousAnsweringEnhancer.ts).\<close>

definition pause :: "World \<Rightarrow> World" where
  "pause w = w\<lparr>enginePaused := True\<rparr>"

text \<open>
  \<open>AdsPowerManager.cleanupBrowser\<close> (index.ts). \<open>stopBrowser\<close> and \<open>deleteBrowserProfile\<close>
  send one request each and catch every error of it, so whatever the service answers, the
  entry is deleted afterwards and nothing is thrown.
\<close>

definition cleanupBrowser :: "jsstring \<Rightarrow> World \<Rightarrow> World" where
  "cleanupBrowser key w =
     (case objGet (activeBrowsers w) key of
        None \<Rightarrow> w
      | Some info \<Rightarrow>
          w\<lparr>effects := effects w @ [BrowserStopRequest (browserProfileId info),
                                     BrowserDeleteRequest (browserProfileId info)],
            activeBrowsers := mapDelete (activeBrowsers w) key\<rparr>)"

text \<open>\<open>QinguoProxyManager.releaseProxy\<close>.\<close>

definition releaseProxy :: "jsstring \<Rightarrow> World \<Rightarrow> bool \<times> World" where
  "releaseProxy sid w =
     (if objHas (allocatedProxies w) sid
      then (True, w\<lparr>allocatedProxies := mapDelete (allocatedProxies w) sid,
                     proxyUsageStats := mapDelete (proxyUsageStats w) sid\<rparr>)
      else (False, w))"

text \<open>
  \<open>DigitalPersonMemoryManager.saveMemoryToDisk\<close> only measures the exported data, inside a
  \<^verbatim>\<open>try\<close>; \<open>cleanupMemory\<close> empties the memory, if there is one.
\<close>

definition saveMemoryToDisk :: "World \<Rightarrow> World" where
  "saveMemoryToDisk w = w"

definition cleanupMemory :: "World \<Rightarrow> World" where
  "cleanupMemory w =
     (case personMemory w of
        None \<Rightarrow> w
      | Some m \<Rightarrow>
          w\<lparr>personMemory := Some (m\<lparr>questions := [], totalQuestions := 0, completedQuestions := 0,
                                     currentPosition := 0, questionOrder := []\<rparr>)\<rparr>)"

text \<open>
  A block of statements ends normally or by a throw; in both cases the changes it has made
  so far stay. \<open>andThen\<close> runs the next statement after a normal end.
\<close>

definition andThen ::
  "failure option \<times> World \<Rightarrow> (World \<Rightarrow> failure option \<times> World) \<Rightarrow> failure option \<times> World" where
  "andThen r f = (case fst r of None \<Rightarrow> f (snd r) | Some e \<Rightarrow> r)"

definition putReport :: "jsstring \<Rightarrow> PhaseReport \<Rightarrow> World \<Rightarrow> World" where
  "putReport key rep w = w\<lparr>cleanupResults := objSet (cleanupResults w) key rep\<rparr>"

definition succeeded :: "CleanupPhase \<Rightarrow> nat option \<Rightarrow> jsstring \<Rightarrow> PhaseReport" where
  "succeeded ph n d =
     \<lparr> reportPhase = phaseName ph, reportSuccess = True, reportCleanupCount = n,
       reportDetails = Some d, reportError = None \<rparr>"

text \<open>The \<^verbatim>\<open>catch\<close> block that every phase has around its body.\<close>

definition catchPhase ::
  "jsstring \<Rightarrow> CleanupPhase \<Rightarrow> failure option \<times> World \<Rightarrow> failure option \<times> World" where
  "catchPhase key ph r =
     (case fst r of
        None \<Rightarrow> r
      | Some (Failure msg) \<Rightarrow>
          (None, putReport key
             \<lparr> reportPhase = phaseName ph, reportSuccess = False, reportCleanupCount = None,
               reportDetails = None, reportError = Some msg \<rparr> (snd r)))"

definition phase1StopMonitoring :: "World \<Rightarrow> failure option \<times> World" where
  "phase1StopMonitoring w0 =
     (let w1 = w0\<lparr>currentPhase := STOP_MONITORING\<rparr>;
          w2 = (case monitorInterval (sessionData w1) of
                  None \<Rightarrow> w1
                | Some h \<Rightarrow>
                    (clearInterval h w1)
                      \<lparr>sessionData := (sessionData w1)\<lparr>monitorStopFlag := Some True\<rparr>\<rparr>);
          w3 = (if superEngine (sessionData w2) then pause w2 else w2)
      in catchPhase (str ''phase1'') STOP_MONITORING
           (None, putReport (str ''phase1'')
              (succeeded STOP_MONITORING None
                 [30417, 25511, 32447, 31243, 21644, 26234, 33021, 26381, 21153, 24050, 20572, 27490])
              w3))"

text \<open>
  The inner \<^verbatim>\<open>try\<close> block of phase 2: the context is closed only if its first page is a
  \<open>chrome://\<close> or \<open>about:\<close> page.
\<close>

definition closeOwnContext :: "StagehandRef \<Rightarrow> World \<Rightarrow> failure option \<times> World" where
  "closeOwnContext sh w =
     (case contextResult sh of
        Inl e \<Rightarrow> (Some e, w)
      | Inr None \<Rightarrow> (None, w)
      | Inr (Some ctx) \<Rightarrow>
          (case pagesResult ctx of
             Inl e \<Rightarrow> (Some e, w)
           | Inr [] \<Rightarrow> (None, w)
           | Inr (firstPage # others) \<Rightarrow>
               (case urlResult firstPage of
                  Inl e \<Rightarrow> (Some e, w)
                | Inr firstPageUrl \<Rightarrow>
                    if \<not> includesStr firstPageUrl (str ''chrome://'')
                       \<and> \<not> includesStr firstPageUrl (str ''about:'')
                    then (None, w)
                    else (closeResult ctx, w\<lparr>effects := effects w @ [ContextClose]\<rparr>))))"

definition phase2CleanupStagehand :: "World \<Rightarrow> failure option \<times> World" where
  "phase2CleanupStagehand w0 =
     (let w1 = w0\<lparr>currentPhase := CLEANUP_STAGEHAND\<rparr>;
          (n1, w2) =
            (case stagehand (sessionData w1) of
               None \<Rightarrow> (0, w1)
             | Some sh \<Rightarrow>
                 (let r = closeOwnContext sh w1
                  in (case fst r of None \<Rightarrow> 1 | Some e \<Rightarrow> 0,
                      (snd r)\<lparr>sessionData := (sessionData (snd r))\<lparr>stagehand := None\<rparr>\<rparr>)));
          (n2, w3) =
            (if superEngine (sessionData w2)
             then (n1 + 1, w2\<lparr>sessionData := (sessionData w2)\<lparr>superEngine := False\<rparr>\<rparr>)
             else (n1, w2))
      in catchPhase (str ''phase2'') CLEANUP_STAGEHAND
           (None, putReport (str ''phase2'')
              (succeeded CLEANUP_STAGEHAND (Some n2)
                 (str ''Stagehand'' @ [30456, 20851, 36164, 28304, 24050, 28165, 29702]))
              w3))"

definition phase3CleanupMemory :: "World \<Rightarrow> failure option \<times> World" where
  "phase3CleanupMemory w0 =
     (let w1 = w0\<lparr>currentPhase := CLEANUP_MEMORY\<rparr>;
          (n1, w2) =
            (if memoryManager (sessionData w1)
             then (1, w1\<lparr>sessionData := (sessionData w1)\<lparr>memoryManager := False\<rparr>\<rparr>)
             else (0, w1));
          (n2, w3) =
            (if digitalPersonMemoryManager (sessionData w2)
             then (let w = cleanupMemory (saveMemoryToDisk w2)
                   in (n1 + 1,
                       w\<lparr>sessionData := (sessionData w)\<lparr>digitalPersonMemoryManager := False\<rparr>\<rparr>))
             else (n1, w2))
      in catchPhase (str ''phase3'') CLEANUP_MEMORY
           (None, putReport (str ''phase3'')
              (succeeded CLEANUP_MEMORY (Some n2)
                 [35760, 24518, 31649, 29702, 22120, 24050, 28165, 29702])
              w3))"

definition phase4CleanupAdsPower :: "World \<Rightarrow> failure option \<times> World" where
  "phase4CleanupAdsPower w0 =
     (let w1 = w0\<lparr>currentPhase := CLEANUP_ADSPOWER\<rparr>;
          (n1, w2) =
            (if adsPowerManager (sessionData w1) \<and> truthy (profileId (sessionData w1))
             then (1, cleanupBrowser (the (profileId (sessionData w1))) w1)
             else (0, w1));
          (n2, w3) =
            (case browserInfo (sessionData w2) of
               None \<Rightarrow> (n1, w2)
             | Some info \<Rightarrow> (n1 + 1, w2\<lparr>sessionData := (sessionData w2)\<lparr>browserInfo := None\<rparr>\<rparr>))
      in catchPhase (str ''phase4'') CLEANUP_ADSPOWER
           (None, putReport (str ''phase4'')
              (succeeded CLEANUP_ADSPOWER (Some n2)
                 (str ''AdsPower'' @ [27983, 35272, 22120, 36164, 28304, 24050, 28165, 29702]))
              w3))"

definition phase5CleanupProxy :: "World \<Rightarrow> failure option \<times> World" where
  "phase5CleanupProxy w0 =
     (let w1 = w0\<lparr>currentPhase := CLEANUP_PROXY\<rparr>;
          (n1, w2) =
            (if proxyManager (sessionData w1) \<and> sessionId (sessionData w1) \<noteq> []
             then (1, snd (releaseProxy (sessionId (sessionData w1)) w1))
             else (0, w1));
          (n2, w3) =
            (case proxyInfo (sessionData w2) of
               None \<Rightarrow> (n1, w2)
             | Some info \<Rightarrow> (n1 + 1, w2\<lparr>sessionData := (sessionData w2)\<lparr>proxyInfo := None\<rparr>\<rparr>))
      in catchPhase (str ''phase5'') CLEANUP_PROXY
           (None, putReport (str ''phase5'')
              (succeeded CLEANUP_PROXY (Some n2) [20195, 29702, 36164, 28304, 24050, 28165, 29702])
              w3))"

definition phase6CleanupThreads :: "World \<Rightarrow> failure option \<times> World" where
  "phase6CleanupThreads w0 =
     (let w1 = w0\<lparr>currentPhase := CLEANUP_THREADS\<rparr>;
          (n1, w2) =
            (case monitorInterval (sessionData w1) of
               None \<Rightarrow> (0, w1)
             | Some h \<Rightarrow>
                 (1, (clearInterval h w1)
                       \<lparr>sessionData := (sessionData w1)\<lparr>monitorInterval := None\<rparr>\<rparr>));
          (n2, w3) =
            (case additionalResources (sessionData w2) of
               None \<Rightarrow> (n1, w2)
             | Some a \<Rightarrow>
                 (n1 + 1,
                  w2\<lparr>resourceMaps := objSet (resourceMaps w2) a [],
                     sessionData := (sessionData w2)\<lparr>additionalResources := None\<rparr>\<rparr>));
          w4 = w3\<lparr>sessionData := (sessionData w3)\<lparr>monitorStopFlag := Some True\<rparr>\<rparr>
      in catchPhase (str ''phase6'') CLEANUP_THREADS
           (None, putReport (str ''phase6'')
              (succeeded CLEANUP_THREADS (Some n2)
                 [25152, 26377, 32447, 31243, 21644, 20219, 21153, 24050, 28165, 29702])
              w4))"

text \<open>
  The fallback sweep. A rejection of \<open>close()\<close> is swallowed by \<^verbatim>\<open>.catch(() => {})\<close>, a throw
  of the \<open>context\<close> getter by the \<^verbatim>\<open>try\<close> around the sweep.
\<close>

definition fallbackCleanup :: "World \<Rightarrow> failure option \<times> World" where
  "fallbackCleanup w0 =
     (let w1 = (case monitorInterval (sessionData w0) of
                  None \<Rightarrow> w0
                | Some h \<Rightarrow> clearInterval h w0)
      in (case stagehand (sessionData w1) of
            None \<Rightarrow> (None, w1)
          | Some sh \<Rightarrow>
              (case contextResult sh of
                 Inl e \<Rightarrow> (None, w1)
               | Inr None \<Rightarrow> (None, w1)
               | Inr (Some ctx) \<Rightarrow> (None, w1\<lparr>effects := effects w1 @ [ContextClose]\<rparr>))))"

text \<open>
  The six phases in order, inside the outer \<^verbatim>\<open>try\<close>. The two clock readings are
  \<^verbatim>\<open>Date.now()\<close> at the start and at the return; the reason is only printed.
\<close>

definition runPhases :: "World \<Rightarrow> failure option \<times> World" where
  "runPhases w =
     andThen (andThen (andThen (andThen (andThen (phase1StopMonitoring w)
       phase2CleanupStagehand) phase3CleanupMemory) phase4CleanupAdsPower)
       phase5CleanupProxy) phase6CleanupThreads"

definition executeComprehensiveCleanup ::
  "World \<Rightarrow> jsstring \<Rightarrow> nat \<Rightarrow> nat \<Rightarrow> CleanupResult \<times> World" where
  "executeComprehensiveCleanup w reason startNow endNow =
     (let r = runPhases (w\<lparr>cleanupStartTime := startNow\<rparr>)
      in (case fst r of
            None \<Rightarrow>
              (let w1 = (snd r)\<lparr>currentPhase := COMPLETED\<rparr>
               in (\<lparr> success = True,
                     cleanupTime = int endNow - int (cleanupStartTime w1),
                     phasesCompleted = length (objKeys (cleanupResults w1)),
                     resultDetails = cleanupResults w1,
                     errors = [] \<rparr>, w1))
          | Some (Failure msg) \<Rightarrow>
              (let f = fallbackCleanup (snd r);
                   w1 = snd f
               in (\<lparr> success = False,
                     cleanupTime = int endNow - int (cleanupStartTime w1),
                     phasesCompleted = length (objKeys (cleanupResults w1)),
                     resultDetails = cleanupResults w1,
                     errors = msg # (case fst f of
                                       None \<Rightarrow> []
                                     | Some (Failure m) \<Rightarrow>
                                         [[38477, 32423, 28165, 29702, 22833, 36133, 58, 32] @ m]) \<rparr>,
                   w1))))"

text \<open>
  A session is released when every handle of it is gone: the handle fields are empty, the
  stop flag is set, and the managers that the session still refers to hold nothing under
  its keys. The conditions are grouped by the phase that establishes them.
\<close>

definition stagehandReleased :: "World \<Rightarrow> bool" where
  "stagehandReleased w = (stagehand (sessionData w) = None \<and> \<not> superEngine (sessionData w))"

definition memoryReleased :: "World \<Rightarrow> bool" where
  "memoryReleased w =
     (\<not> memoryManager (sessionData w) \<and> \<not> digitalPersonMemoryManager (sessionData w))"

definition browserReleased :: "World \<Rightarrow> bool" where
  "browserReleased w =
     (browserInfo (sessionData w) = None
      \<and> (if adsPowerManager (sessionData w) \<and> truthy (profileId (sessionData w))
         then objGet (activeBrowsers w) (the (profileId (sessionData w))) = None else True))"

definition proxyReleased :: "World \<Rightarrow> bool" where
  "proxyReleased w =
     (proxyInfo (sessionData w) = None
      \<and> (if proxyManager (sessionData w) \<and> sessionId (sessionData w) \<noteq> []
         then \<not> objHas (allocatedProxies w) (sessionId (sessionData w)) else True))"

definition threadsReleased :: "World \<Rightarrow> bool" where
  "threadsReleased w =
     (monitorInterval (sessionData w) = None \<and> additionalResources (sessionData w) = None
      \<and> monitorStopFlag (sessionData w) = Some True)"

definition released :: "World \<Rightarrow> bool" where
  "released w =
     (stagehandReleased w \<and> memoryReleased w \<and> browserReleased w \<and> proxyReleased w
      \<and> threadsReleased w)"

text \<open>The part of the world outside the cleanup manager's own fields.\<close>

definition outside ::
  "World \<Rightarrow> SessionResourceData \<times> bool \<times> (jsstring \<times> BrowserInfo) list
     \<times> (jsstring \<times> jsstring) list \<times> (jsstring \<times> nat) list \<times> QuestionnaireMemory option
     \<times> (nat \<times> (jsstring \<times> jsstring) list) list \<times> Effect list" where
  "outside w =
     (sessionData w, enginePaused w, activeBrowsers w, allocatedProxies w, proxyUsageStats w,
      personMemory w, resourceMaps w, effects w)"


section \<open>Window monitor (WindowMonitoringSystem)\<close>

text \<open>
  One monitored session. The timer's callback holds the session object itself; the map
  \<open>activeSessions\<close> holds it under its session id, so the map is modelled by its keys. The
  session's \<open>sessionData\<close> is the object the cleanup works on, the one in the world \<open>env\<close>.
  \<open>statusLog\<close> and \<open>cleanupCalls\<close> are not in the source: they record every value assigned
  to \<open>session.status\<close> (the field \<open>sessionStatus\<close>) and count the calls of \<open>executeComprehensiveCleanup\<close>.
\<close>

datatype MonitoringStatus =
  IDLE | MONITORING | WINDOW_CLOSED | CLEANUP_IN_PROGRESS | CLEANUP_COMPLETED | ERROR

record MonitoringConfig =
  checkInterval :: nat
  maxRetries :: nat
  timeoutDuration :: nat
  enableAutoCleanup :: bool

definition defaultMonitoringConfig :: MonitoringConfig where
  "defaultMonitoringConfig =
     \<lparr> checkInterval = 2000, maxRetries = 3, timeoutDuration = 10000, enableAutoCleanup = True \<rparr>"

record MonitoringSession =
  monitorSessionId :: jsstring
  monitorProfileId :: jsstring
  sessionStatus :: MonitoringStatus
  monitorStartTime :: nat
  lastCheckTime :: nat
  checkCount :: nat
  errorCount :: nat
  sessionTimer :: "nat option"
  stopFlag :: bool

record Monitor =
  session :: MonitoringSession
  activeSessions :: "jsstring list"
  env :: World
  statusLog :: "MonitoringStatus list"
  cleanupCalls :: nat

text \<open>
  What the status request does: \<open>fetch\<close> rejects (with a message), or there is a response
  with a status code, whose body cannot be read as the expected object (reading it throws,
  with a message) or has \<open>code\<close> and \<open>data.status\<close>.
\<close>

datatype StatusBody = BodyUnreadable jsstring | Body "int option" "jsstring option"

datatype FetchOutcome = FetchRejects jsstring | Response nat StatusBody

record Poll =
  pollOutcome :: FetchOutcome
  pollNow :: nat
  cleanupStart :: nat
  cleanupEnd :: nat

text \<open>The \<^verbatim>\<open>try\<close> block of \<open>checkAdsPowerWindowStatus\<close>; \<open>True\<close> means closed.\<close>

definition requestStatus :: "FetchOutcome \<Rightarrow> failure + bool" where
  "requestStatus outcome =
     (case outcome of
        FetchRejects msg \<Rightarrow> Inl (Failure msg)
      | Response code body \<Rightarrow>
          if 200 \<le> code \<and> code \<le> 299
          then (case body of
                  BodyUnreadable msg \<Rightarrow> Inl (Failure msg)
                | Body c st \<Rightarrow>
                    if c = Some 0 \<and> st = Some (str ''Active'') then Inr False else Inr True)
          else if code = 404 then Inr True
          else Inl (Failure (str ''AdsPower API '' @ [36820, 22238, 32] @ showNat code)))"

definition checkAdsPowerWindowStatus :: "jsstring \<Rightarrow> FetchOutcome \<Rightarrow> failure + bool" where
  "checkAdsPowerWindowStatus pid outcome =
     (case requestStatus outcome of
        Inr isClosed \<Rightarrow> Inr isClosed
      | Inl (Failure msg) \<Rightarrow>
          if includesStr msg (str ''timeout'') \<or> includesStr msg (str ''ECONNREFUSED'')
          then Inl (Failure msg)
          else Inr True)"

definition setStatus :: "MonitoringStatus \<Rightarrow> Monitor \<Rightarrow> Monitor" where
  "setStatus s m = m\<lparr>session := (session m)\<lparr>sessionStatus := s\<rparr>, statusLog := statusLog m @ [s]\<rparr>"

definition stopMonitoringTimer :: "Monitor \<Rightarrow> Monitor" where
  "stopMonitoringTimer m0 =
     (let m1 = (case sessionTimer (session m0) of
                  None \<Rightarrow> m0
                | Some h \<Rightarrow>
                    m0\<lparr>env := clearInterval h (env m0),
                       session := (session m0)\<lparr>sessionTimer := None\<rparr>\<rparr>)
      in (case monitorInterval (sessionData (env m1)) of
            None \<Rightarrow> m1
          | Some h \<Rightarrow>
              m1\<lparr>env := (clearInterval h (env m1))
                     \<lparr>sessionData := (sessionData (env m1))\<lparr>monitorInterval := None\<rparr>\<rparr>\<rparr>))"

text \<open>
  \<open>handleWindowClosed\<close>. The cleanup returns a report on every input, so the \<^verbatim>\<open>catch\<close>
  block of the function has nothing to catch.
\<close>

definition handleWindowClosed :: "nat \<Rightarrow> nat \<Rightarrow> Monitor \<Rightarrow> Monitor" where
  "handleWindowClosed startNow endNow m0 =
     (let m1 = stopMonitoringTimer (setStatus CLEANUP_IN_PROGRESS m0);
          (cleanupResult, w) =
            executeComprehensiveCleanup (env m1)
              [29992, 25143, 25163, 21160, 20851, 38381, 27983, 35272, 22120, 31383, 21475]
              startNow endNow;
          m2 = m1\<lparr>env := w, cleanupCalls := cleanupCalls m1 + 1\<rparr>;
          m3 = setStatus (if success cleanupResult then CLEANUP_COMPLETED else ERROR) m2
      in m3\<lparr>activeSessions := removeAll (monitorSessionId (session m3)) (activeSessions m3)\<rparr>)"

text \<open>\<open>stopMonitoring(session.sessionId)\<close>, as \<open>performWindowCheck\<close> calls it.\<close>

definition stopMonitoring :: "Monitor \<Rightarrow> Monitor" where
  "stopMonitoring m0 =
     (if monitorSessionId (session m0) \<in> set (activeSessions m0)
      then (let m1 = m0\<lparr>session := (session m0)\<lparr>stopFlag := True\<rparr>,
                        env := (env m0)
                          \<lparr>sessionData := (sessionData (env m0))\<lparr>monitorStopFlag := Some True\<rparr>\<rparr>\<rparr>;
                m2 = setStatus IDLE (stopMonitoringTimer m1)
            in m2\<lparr>activeSessions := removeAll (monitorSessionId (session m2)) (activeSessions m2)\<rparr>)
      else m0)"

text \<open>
  The statements that \<open>performWindowCheck\<close> runs both when the window is found closed and
  when the retries are used up.
\<close>

definition windowClosed :: "MonitoringConfig \<Rightarrow> Poll \<Rightarrow> Monitor \<Rightarrow> Monitor" where
  "windowClosed config p m0 =
     (let m1 = setStatus WINDOW_CLOSED m0
      in if enableAutoCleanup config then handleWindowClosed (cleanupStart p) (cleanupEnd p) m1
         else m1)"

text \<open>
  \<open>performWindowCheck\<close> is an \<^verbatim>\<open>async\<close> function with one \<^verbatim>\<open>await\<close> on its way: the status
  request. JavaScript runs the statements before the \<^verbatim>\<open>await\<close> when the timer fires and the
  statements after it when the request has settled, and other callbacks run in between. The
  two halves are \<open>checkBefore\<close> and \<open>checkAfter\<close>. The test of the stop flags is the first
  statement of the function and the only one; the second half has none.
\<close>

definition stopRequested :: "Monitor \<Rightarrow> bool" where
  "stopRequested m0 =
     (stopFlag (session m0) \<or> monitorStopFlag (sessionData (env m0)) = Some True)"

definition checkBefore :: "Monitor \<Rightarrow> Poll \<Rightarrow> Monitor" where
  "checkBefore m0 p =
     m0\<lparr>session := (session m0)\<lparr>checkCount := checkCount (session m0) + 1,
                                  lastCheckTime := pollNow p\<rparr>\<rparr>"

definition checkAfter :: "MonitoringConfig \<Rightarrow> Monitor \<Rightarrow> Poll \<Rightarrow> Monitor" where
  "checkAfter config m1 p =
     (case checkAdsPowerWindowStatus (monitorProfileId (session m1)) (pollOutcome p) of
        Inr isWindowClosed \<Rightarrow>
          if isWindowClosed then windowClosed config p m1
          else m1\<lparr>session := (session m1)\<lparr>errorCount := 0\<rparr>\<rparr>
      | Inl e \<Rightarrow>
          (let m2 = m1\<lparr>session := (session m1)\<lparr>errorCount := errorCount (session m1) + 1\<rparr>\<rparr>
           in if errorCount (session m2) \<ge> maxRetries config
              then windowClosed config p m2 else m2))"

text \<open>One call of \<open>performWindowCheck\<close> whose request settles before anything else runs.\<close>

definition performWindowCheck :: "MonitoringConfig \<Rightarrow> Monitor \<Rightarrow> Poll \<Rightarrow> Monitor" where
  "performWindowCheck config m0 p =
     (if stopRequested m0 then stopMonitoring m0
      else checkAfter config (checkBefore m0 p) p)"

text \<open>Polls that do not overlap: each one is over before the timer fires again.\<close>

definition polls :: "MonitoringConfig \<Rightarrow> Monitor \<Rightarrow> Poll list \<Rightarrow> Monitor" where
  "polls config m ps = foldl (performWindowCheck config) m ps"

text \<open>
  The timer of \<open>startMonitoring\<close> (\<^verbatim>\<open>setInterval\<close>) calls \<open>performWindowCheck\<close> every
  \<open>checkInterval\<close> milliseconds, 2000 by default, whether or not the call before has
  returned; the status request may take up to the 5000 milliseconds after which
  \<open>checkAdsPowerWindowStatus\<close> aborts it. So the monitor is driven by two kinds of event:
  the timer fires, which starts a poll, and the request of a poll that was started settles,
  which runs the rest of that poll. The timer fires as long as its handle has not been
  passed to \<^verbatim>\<open>clearInterval\<close>; the polls under way are kept beside the monitor. The
  statements of \<open>handleWindowClosed\<close> are taken as one step.
\<close>

datatype MonitorEvent = TimerFires Poll | RequestSettles Poll

definition timerRunning :: "Monitor \<Rightarrow> bool" where
  "timerRunning m =
     (case sessionTimer (session m) of
        None \<Rightarrow> False
      | Some h \<Rightarrow> ClearInterval h \<notin> set (effects (env m)))"

definition monitorStep ::
  "MonitoringConfig \<Rightarrow> Monitor \<times> Poll list \<Rightarrow> MonitorEvent \<Rightarrow> Monitor \<times> Poll list" where
  "monitorStep config state ev =
     (case ev of
        TimerFires p \<Rightarrow>
          if timerRunning (fst state)
          then (if stopRequested (fst state) then (stopMonitoring (fst state), snd state)
                else (checkBefore (fst state) p, snd state @ [p]))
          else state
      | RequestSettles p \<Rightarrow>
          if p \<in> set (snd state)
          then (checkAfter config (fst state) p, remove1 p (snd state))
          else state)"

definition monitorRun ::
  "MonitoringConfig \<Rightarrow> Monitor \<times> Poll list \<Rightarrow> MonitorEvent list \<Rightarrow> Monitor \<times> Poll list" where
  "monitorRun config state evs = foldl (monitorStep config) state evs"


section \<open>Example inputs\<close>

text \<open>A page at a completion URL whose text shows a technical error and whose element
  queries all throw.\<close>

definition examplePage :: Page where
  "examplePage =
     \<lparr> readUrl = Inr (str ''https://s.example/thank-you''), readTitle = Inr (str ''Survey''),
       readBodyText = Inr (Some (str ''Server Error'')),
       locatorCount = (\<lambda>selector. Inl (str ''closed'')) \<rparr>"

text \<open>A questionnaire page with no completion signal, and two kinds of round on it: one
  whose navigation succeeds and one whose navigation fails.\<close>

definition quietPage :: Page where
  "quietPage =
     \<lparr> readUrl = Inr (str ''https://s.example/q''), readTitle = Inr (str ''Survey''),
       readBodyText = Inr (Some (str ''Question'')), locatorCount = (\<lambda>selector. Inr 0) \<rparr>"








text \<open>The question \<open>Do you like coffee?\<close>, stored once with the options \<open>Yes\<close> and \<open>No\<close>
  and once as an open question without options.\<close>

definition coffeeRecord :: QuestionRecord where
  "coffeeRecord =
     \<lparr> questionId = str ''0123456789abcdef'', questionText = str ''Do you like coffee?'',
       questionType = str ''single_choice'', options = [str ''Yes'', str ''No''],
       answer = str ''Yes'', answerText = str ''Yes'', pageUrl = str ''https://s.example/q'',
       timestamp = 0, attempts = 1, confidence = 1 \<rparr>"

definition coffeeMemory :: QuestionnaireMemory where
  "coffeeMemory =
     (newMemory [] [] 0)
       \<lparr> questions := [(questionId coffeeRecord, coffeeRecord)],
         questionOrder := [questionId coffeeRecord], totalQuestions := 1, completedQuestions := 1 \<rparr>"



text \<open>The same page when the browser cannot deliver the title, and when it cannot deliver
  the URL.\<close>

definition untitledPage :: Page where
  "untitledPage = examplePage\<lparr> readTitle := Inl (str ''Target closed'') \<rparr>"

definition unreachablePage :: Page where
  "unreachablePage = examplePage\<lparr> readUrl := Inl (str ''Target closed'') \<rparr>"

text \<open>A session with every kind of resource, and the monitor that watches it.\<close>

definition exampleWorld :: World where
  "exampleWorld =
     \<lparr> sessionData =
         \<lparr> sessionId = str ''s1'', profileId = Some (str ''p1''),
           proxyInfo = Some (str ''10.0.0.1:8080''),
           stagehand = Some \<lparr> contextResult = Inr (Some
             \<lparr> pagesResult = Inr [\<lparr> urlResult = Inr (str ''about:blank'') \<rparr>],
               closeResult = None \<rparr>) \<rparr>,
           superEngine = True,
           browserInfo = Some \<lparr> browserProfileId = str ''p1'', debugPort = 9222 \<rparr>,
           adsPowerManager = True, proxyManager = True, memoryManager = True,
           digitalPersonMemoryManager = True, monitorInterval = Some 7,
           monitorStopFlag = Some False, additionalResources = Some 0 \<rparr>,
       enginePaused = False,
       activeBrowsers = [(str ''p1'', \<lparr> browserProfileId = str ''p1'', debugPort = 9222 \<rparr>)],
       allocatedProxies = [(str ''s1'', str ''10.0.0.1:8080'')],
       proxyUsageStats = [(str ''s1'', 2)],
       personMemory = None,
       resourceMaps = [(0, [(str ''k'', str ''v'')])],
       effects = [],
       currentPhase = INIT,
       cleanupStartTime = 0,
       cleanupResults = [] \<rparr>"

definition exampleMonitor :: Monitor where
  "exampleMonitor =
     \<lparr> session =
         \<lparr> monitorSessionId = str ''s1'', monitorProfileId = str ''p1'', sessionStatus = MONITORING,
           monitorStartTime = 0, lastCheckTime = 0, checkCount = 5, errorCount = 2,
           sessionTimer = Some 7, stopFlag = False \<rparr>,
       activeSessions = [str ''s1''],
       env = exampleWorld,
       statusLog = [MONITORING],
       cleanupCalls = 0 \<rparr>"

definition activePoll :: Poll where
  "activePoll =
     \<lparr> pollOutcome = Response 200 (Body (Some 0) (Some (str ''Active''))),
       pollNow = 2000, cleanupStart = 2000, cleanupEnd = 2000 \<rparr>"

definition timeoutPoll :: Poll where
  "timeoutPoll =
     \<lparr> pollOutcome = FetchRejects (str ''request timeout''),
       pollNow = 4000, cleanupStart = 4001, cleanupEnd = 4050 \<rparr>"

text \<open>
  The session as \<open>startMonitoring\<close> leaves it, with both counters at zero. A poll started at
  time \<open>t\<close> whose request fails with a timeout 3000 milliseconds later, and a poll whose
  request is aborted by the 5000 milliseconds limit of \<open>checkAdsPowerWindowStatus\<close> itself.
\<close>

definition startedMonitor :: Monitor where
  "startedMonitor =
     exampleMonitor\<lparr>session := (session exampleMonitor)\<lparr>checkCount := 0, errorCount := 0\<rparr>\<rparr>"

definition slowPoll :: "nat \<Rightarrow> Poll" where
  "slowPoll t =
     \<lparr> pollOutcome = FetchRejects (str ''request timeout''),
       pollNow = t, cleanupStart = t + 3000, cleanupEnd = t + 3050 \<rparr>"

definition abortedPoll :: Poll where
  "abortedPoll =
     \<lparr> pollOutcome = FetchRejects (str ''This operation was aborted''),
       pollNow = 2000, cleanupStart = 7000, cleanupEnd = 7050 \<rparr>"

text \<open>
  The timer fires at 2000, 4000, 6000 and 8000 milliseconds, and every request fails
  3000 milliseconds after its start: the first six events, up to the start of the fourth
  poll. After them the requests of the third and of the fourth poll are still under way.
\<close>

definition twoFailures :: "MonitorEvent list" where
  "twoFailures =
     [TimerFires (slowPoll 2000), TimerFires (slowPoll 4000), RequestSettles (slowPoll 2000),
      TimerFires (slowPoll 6000), RequestSettles (slowPoll 4000), TimerFires (slowPoll 8000)]"


text \<open>A stored question that differs from the query \<open>Item 1 a\<close> with the options
  \<open>Red\<close>, \<open>Green\<close>, \<open>Blue\<close> in two characters of the text and in one more option.\<close>

definition itemRecord :: QuestionRecord where
  "itemRecord =
     \<lparr> questionId = str ''fedcba9876543210'', questionText = str ''Item 2 b'',
       questionType = str ''single_choice'',
       options = [str ''Red'', str ''Green'', str ''Blue'', str ''Pink''],
       answer = str ''Red'', answerText = str ''Red'', pageUrl = str ''https://s.example/q'',
       timestamp = 0, attempts = 1, confidence = 1 \<rparr>"

definition itemMemory :: QuestionnaireMemory where
  "itemMemory =
     (newMemory [] [] 0)
       \<lparr> questions := [(questionId itemRecord, itemRecord)],
         questionOrder := [questionId itemRecord], totalQuestions := 1, completedQuestions := 1 \<rparr>"


section \<open>Properties of the rounding\<close>

lemma floor_rat_numeral:
  "\<lfloor>(numeral a :: rat) / numeral b\<rfloor> = numeral a div numeral b"
  using floor_divide_of_int_eq [of "numeral a" "numeral b", where ?'a = rat] by simp

text \<open>The rules that evaluate \<open>double\<close> on a given number.\<close>

lemmas double_eval = double_def scaleDown.simps scaleUp.simps roundHalfEven_def Let_def
  power_int_minus floor_rat_numeral

lemma double_zero: "double 0 = 0"
  by (simp add: double_def)

lemma double_one: "double 1 = 1"
  by (simp add: double_eval)

lemma double_hundred: "double 100 = 100"
  by (simp add: double_eval)

lemma roundHalfEven_floor: "\<lfloor>y\<rfloor> \<le> roundHalfEven y"
  by (simp add: roundHalfEven_def Let_def)

lemma scaleDown_result:
  assumes "0 < y" "- 1074 \<le> e"
  shows "0 < fst (scaleDown y e)"
    and "2 ^ 52 \<le> fst (scaleDown y e) \<or> fst (scaleDown y e) = y * 2 ^ nat (e + 1074)"
  using assms
proof (induction y e rule: scaleDown.induct)
  case (1 y e)
  {
    case 1
    then show ?case
      using "1.IH"(1) by (subst scaleDown.simps) simp
  next
    case 2
    show ?case
    proof (cases "y < 2 ^ 52 \<and> - 1074 < e")
      case True
      then have s: "scaleDown y e = scaleDown (2 * y) (e - 1)"
        by (subst scaleDown.simps) simp
      from True 2 have "2 ^ 52 \<le> fst (scaleDown (2 * y) (e - 1))
          \<or> fst (scaleDown (2 * y) (e - 1)) = 2 * y * 2 ^ nat (e - 1 + 1074)"
        using "1.IH"(2) by simp
      moreover from True have "nat (e + 1074) = Suc (nat (e - 1 + 1074))"
        by arith
      ultimately show ?thesis
        unfolding s by auto
    next
      case False
      then have s: "scaleDown y e = (y, e)"
        by (subst scaleDown.simps) auto
      from False 2 have "2 ^ 52 \<le> y \<or> e = - 1074" by auto
      then show ?thesis unfolding s by auto
    qed
  }
qed

lemma scaleUp_result:
  assumes "2 ^ 52 \<le> y"
  shows "2 ^ 52 \<le> fst (scaleUp y e)"
  using assms
proof (induction y e rule: scaleUp.induct)
  case (1 y e)
  show ?case
  proof (cases "2 ^ 53 \<le> y \<and> e < 971")
    case True
    then have "scaleUp y e = scaleUp (y / 2) (e + 1)"
      by (subst scaleUp.simps) simp
    moreover from True have "2 ^ 52 \<le> fst (scaleUp (y / 2) (e + 1))"
      using "1.IH" by simp
    ultimately show ?thesis by simp
  next
    case False
    then have "scaleUp y e = (y, e)"
      by (subst scaleUp.simps) auto
    with 1 show ?thesis by simp
  qed
qed

lemma double_nonneg:
  assumes "0 \<le> x"
  shows "0 \<le> double x"
proof (cases "x = 0")
  case True
  then show ?thesis by (simp add: double_def)
next
  case False
  with assms have pos: "0 < x" by simp
  let ?p = "if \<bar>x\<bar> < 2 ^ 52 then scaleDown \<bar>x\<bar> 0 else scaleUp \<bar>x\<bar> 0"
  have "0 < fst ?p"
  proof (cases "\<bar>x\<bar> < 2 ^ 52")
    case True
    then show ?thesis using scaleDown_result(1) [of "\<bar>x\<bar>" 0] pos by simp
  next
    case False
    then have "(2::rat) ^ 52 \<le> fst (scaleUp \<bar>x\<bar> 0)"
      by (intro scaleUp_result) simp
    with False show ?thesis by simp
  qed
  then have "0 \<le> \<lfloor>fst ?p\<rfloor>" by simp
  then have "0 \<le> roundHalfEven (fst ?p)"
    using roundHalfEven_floor [of "fst ?p"] by linarith
  then have "0 \<le> sgn x * of_int (roundHalfEven (fst ?p)) * 2 powi (snd ?p)"
    using pos by simp
  then show ?thesis
    using False by (simp add: double_def Let_def split_beta)
qed

lemma double_positive:
  assumes "1 / 2 ^ 1074 \<le> x"
  shows "0 < double x"
proof -
  have pos: "0 < x"
    using assms by (rule less_le_trans [rotated]) simp
  let ?p = "if \<bar>x\<bar> < 2 ^ 52 then scaleDown \<bar>x\<bar> 0 else scaleUp \<bar>x\<bar> 0"
  have "1 \<le> fst ?p"
  proof (cases "\<bar>x\<bar> < 2 ^ 52")
    case True
    from scaleDown_result(2) [of "\<bar>x\<bar>" 0] pos
    have "2 ^ 52 \<le> fst (scaleDown \<bar>x\<bar> 0) \<or> fst (scaleDown \<bar>x\<bar> 0) = x * 2 ^ 1074"
      by simp
    moreover have "1 \<le> x * 2 ^ 1074"
      using assms by (simp add: pos_divide_le_eq)
    ultimately have "1 \<le> fst (scaleDown \<bar>x\<bar> 0)" by auto
    with True show ?thesis by simp
  next
    case False
    then have "(2::rat) ^ 52 \<le> fst (scaleUp \<bar>x\<bar> 0)"
      by (intro scaleUp_result) simp
    with False show ?thesis by simp
  qed
  then have "1 \<le> \<lfloor>fst ?p\<rfloor>" by (simp add: le_floor_iff)
  then have "1 \<le> roundHalfEven (fst ?p)"
    using roundHalfEven_floor [of "fst ?p"] by linarith
  then have "(0::rat) < of_int (roundHalfEven (fst ?p))" by simp
  moreover have "(0::rat) < 2 powi (snd ?p)" by simp
  ultimately have "0 < sgn x * of_int (roundHalfEven (fst ?p)) * 2 powi (snd ?p)"
    using pos by simp
  then show ?thesis
    using pos by (simp add: double_def Let_def split_beta)
qed


section \<open>Properties of the memory\<close>

lemma objSet_keys_present:
  "k \<in> set (map fst obj) \<Longrightarrow> map fst (objSet obj k v) = map fst obj"
  by (induction obj) auto

lemma objSet_keys_absent:
  "k \<notin> set (map fst obj) \<Longrightarrow> map fst (objSet obj k v) = map fst obj @ [k]"
  by (induction obj) auto

lemma objSet_length_absent:
  "k \<notin> fst ` set obj \<Longrightarrow> length (objSet obj k v) = Suc (length obj)"
  by (induction obj) auto

lemma objSet_get_same: "map_of (objSet obj k v) k = Some v"
  by (induction obj) auto

lemma objSet_get_other: "k' \<noteq> k \<Longrightarrow> map_of (objSet obj k v) k' = map_of obj k'"
  by (induction obj) auto

lemma recordQuestionAnswer_keys_order:
  assumes "map fst (questions m) = questionOrder m"
  shows "map fst (questions (fst (recordQuestionAnswer md5hex m c)))
           = questionOrder (fst (recordQuestionAnswer md5hex m c))"
  using assms
  by (auto simp: recordQuestionAnswer_def Let_def objHas_def objKeys_def
        objSet_keys_present objSet_keys_absent)


lemma objSet_length_absent_keys:
  "k \<notin> set (objKeys obj) \<Longrightarrow> length (objSet obj k v) = Suc (length (objKeys obj))"
  by (simp add: objKeys_def objSet_length_absent)

lemma recordQuestionAnswer_consistent:
  assumes "memoryConsistent m"
  shows "memoryConsistent (fst (recordQuestionAnswer md5hex m c))"
    and "set (questionOrder (fst (recordQuestionAnswer md5hex m c)))
           = insert (callQuestionId md5hex c) (set (questionOrder m))"
proof -
  let ?k = "callQuestionId md5hex c"
  from assms have keys: "objKeys (questions m) = questionOrder m"
    and dist: "distinct (questionOrder m)"
    and tot: "totalQuestions m = length (questionOrder m)"
    and com: "completedQuestions m = length (questionOrder m)"
    by (simp_all add: memoryConsistent_def)
  show "memoryConsistent (fst (recordQuestionAnswer md5hex m c))"
  proof (cases "objHas (questions m) ?k")
    case True
    then have "objKeys (objSet (questions m) ?k (callRecord md5hex c)) = objKeys (questions m)"
      by (simp add: objHas_def objKeys_def objSet_keys_present)
    with True keys dist tot com show ?thesis
      by (simp add: memoryConsistent_def recordQuestionAnswer_def Let_def)
  next
    case False
    then have notin: "?k \<notin> set (objKeys (questions m))"
      by (simp add: objHas_def objKeys_def)
    then have k1: "objKeys (objSet (questions m) ?k (callRecord md5hex c))
                     = objKeys (questions m) @ [?k]"
      by (simp add: objKeys_def objSet_keys_absent)
    from notin keys have "?k \<notin> set (questionOrder m)" by simp
    with False keys dist tot com k1 show ?thesis
      by (simp add: memoryConsistent_def recordQuestionAnswer_def Let_def)
  qed
  show "set (questionOrder (fst (recordQuestionAnswer md5hex m c)))
           = insert ?k (set (questionOrder m))"
  proof (cases "objHas (questions m) ?k")
    case True
    with keys have "?k \<in> set (questionOrder m)"
      by (simp add: objHas_def objKeys_def)
    with True show ?thesis
      by (auto simp: recordQuestionAnswer_def Let_def)
  next
    case False
    then show ?thesis
      by (simp add: recordQuestionAnswer_def Let_def)
  qed
qed

lemma recordAll_consistent:
  "memoryConsistent m \<Longrightarrow>
     memoryConsistent (recordAll md5hex m cs)
     \<and> set (questionOrder (recordAll md5hex m cs))
           = set (questionOrder m) \<union> callQuestionId md5hex ` set cs"
proof (induction cs arbitrary: m)
  case Nil
  then show ?case by (simp add: recordAll_def)
next
  case (Cons c cs)
  let ?m = "fst (recordQuestionAnswer md5hex m c)"
  have step: "memoryConsistent ?m"
    and ids: "set (questionOrder ?m) = insert (callQuestionId md5hex c) (set (questionOrder m))"
    using recordQuestionAnswer_consistent [OF Cons.prems] by blast+
  have unfold: "recordAll md5hex m (c # cs) = recordAll md5hex ?m cs"
    by (simp add: recordAll_def)
  from Cons.IH [OF step] ids unfold show ?case by auto
qed

lemma newMemory_consistent: "memoryConsistent (newMemory qid pid now)"
  by (simp add: memoryConsistent_def newMemory_def objKeys_def)

text \<open>
  Claim C10. After any sequence of \<open>recordQuestionAnswer\<close> calls on a freshly constructed
  memory, \<open>completedQuestions\<close>, \<open>totalQuestions\<close> and the length of \<open>questionOrder\<close>
  are all equal to the number of distinct fingerprints recorded, and the completion rate
  reported by \<open>getProgressInfo\<close> is 0 before the first call and 100 after it, never a
  value in between.
\<close>

theorem completion_counters_C10:
  "completedQuestions (recordAll md5hex (newMemory qid pid t0) cs)
     = totalQuestions (recordAll md5hex (newMemory qid pid t0) cs)
   \<and> totalQuestions (recordAll md5hex (newMemory qid pid t0) cs)
     = length (questionOrder (recordAll md5hex (newMemory qid pid t0) cs))
   \<and> length (questionOrder (recordAll md5hex (newMemory qid pid t0) cs))
     = card (callQuestionId md5hex ` set cs)
   \<and> completionRate (getProgressInfo (recordAll md5hex (newMemory qid pid t0) cs) now)
     = (if cs = [] then 0 else 100)"
proof -
  let ?m = "recordAll md5hex (newMemory qid pid t0) cs"
  have cons: "memoryConsistent ?m"
    and ids: "set (questionOrder ?m) = callQuestionId md5hex ` set cs"
    using recordAll_consistent [OF newMemory_consistent, of md5hex qid pid t0 cs]
    by (simp_all add: newMemory_def)
  from cons have c1: "completedQuestions ?m = totalQuestions ?m"
    and c2: "totalQuestions ?m = length (questionOrder ?m)"
    and dist: "distinct (questionOrder ?m)"
    by (simp_all add: memoryConsistent_def)
  from dist ids have c3: "length (questionOrder ?m) = card (callQuestionId md5hex ` set cs)"
    using distinct_card [of "questionOrder ?m"] by simp
  have empty: "cs = [] \<Longrightarrow> totalQuestions ?m = 0"
    by (simp add: recordAll_def newMemory_def)
  have nonempty: "cs \<noteq> [] \<Longrightarrow> totalQuestions ?m > 0"
  proof -
    assume "cs \<noteq> []"
    then have "callQuestionId md5hex ` set cs \<noteq> {}" by simp
    then have "card (callQuestionId md5hex ` set cs) > 0"
      by (simp add: card_gt_0_iff)
    with c2 c3 show ?thesis by simp
  qed
  have c4: "completionRate (getProgressInfo ?m now) = (if cs = [] then 0 else 100)"
  proof (cases "cs = []")
    case True
    with empty show ?thesis by (simp add: getProgressInfo_def)
  next
    case False
    with nonempty c1 show ?thesis
      by (simp add: getProgressInfo_def fdiv_def fmul_def double_one double_hundred)
  qed
  from c1 c2 c3 c4 show ?thesis by blast
qed

text \<open>
  Claim C7, as amended. Recording a question whose fingerprint is already stored overwrites
  the stored record in place (the keys keep their order, the other records are untouched)
  and leaves \<open>totalQuestions\<close>, \<open>completedQuestions\<close> and \<open>questionOrder\<close> unchanged.
  Recording a first-seen fingerprint stores the record, appends the fingerprint to
  \<open>questionOrder\<close>, increments \<open>completedQuestions\<close> and sets \<open>totalQuestions\<close> to the
  number of stored records; that is an increment by one whenever \<open>totalQuestions\<close> was the
  number of stored records before the call.
\<close>

theorem recordQuestionAnswer_overwrite_or_append_C7:
  "(objHas (questions m) (callQuestionId md5hex c) \<longrightarrow>
      objKeys (questions (fst (recordQuestionAnswer md5hex m c))) = objKeys (questions m)
      \<and> objGet (questions (fst (recordQuestionAnswer md5hex m c))) (callQuestionId md5hex c)
            = Some (callRecord md5hex c)
      \<and> (\<forall>k. k \<noteq> callQuestionId md5hex c \<longrightarrow>
             objGet (questions (fst (recordQuestionAnswer md5hex m c))) k = objGet (questions m) k)
      \<and> totalQuestions (fst (recordQuestionAnswer md5hex m c)) = totalQuestions m
      \<and> completedQuestions (fst (recordQuestionAnswer md5hex m c)) = completedQuestions m
      \<and> questionOrder (fst (recordQuestionAnswer md5hex m c)) = questionOrder m)
   \<and> (\<not> objHas (questions m) (callQuestionId md5hex c) \<longrightarrow>
      objGet (questions (fst (recordQuestionAnswer md5hex m c))) (callQuestionId md5hex c)
            = Some (callRecord md5hex c)
      \<and> questionOrder (fst (recordQuestionAnswer md5hex m c))
            = questionOrder m @ [callQuestionId md5hex c]
      \<and> completedQuestions (fst (recordQuestionAnswer md5hex m c)) = completedQuestions m + 1
      \<and> totalQuestions (fst (recordQuestionAnswer md5hex m c)) = length (objKeys (questions m)) + 1
      \<and> (totalQuestions m = length (objKeys (questions m)) \<longrightarrow>
             totalQuestions (fst (recordQuestionAnswer md5hex m c)) = totalQuestions m + 1))
   \<and> snd (recordQuestionAnswer md5hex m c) = callQuestionId md5hex c"
  by (auto simp: recordQuestionAnswer_def Let_def objHas_def objKeys_def objGet_def
        objSet_keys_present objSet_keys_absent objSet_get_same objSet_get_other
        objSet_length_absent)

theorem recordQuestionAnswer_overwrite_or_append_C7_witness:
  "\<forall>md5hex c.
     \<not> objHas (questions (newMemory [] [] 0)) (callQuestionId md5hex c)
     \<and> totalQuestions (newMemory [] [] 0) = length (objKeys (questions (newMemory [] [] 0)))
     \<and> totalQuestions (fst (recordQuestionAnswer md5hex (newMemory [] [] 0) c)) = 1
     \<and> objHas (questions (fst (recordQuestionAnswer md5hex (newMemory [] [] 0) c)))
           (callQuestionId md5hex c)
     \<and> totalQuestions (fst (recordQuestionAnswer md5hex
           (fst (recordQuestionAnswer md5hex (newMemory [] [] 0) c)) c)) = 1
     \<and> questionOrder (fst (recordQuestionAnswer md5hex
           (fst (recordQuestionAnswer md5hex (newMemory [] [] 0) c)) c))
           = [callQuestionId md5hex c]"
proof (intro allI)
  fix md5hex :: "jsstring \<Rightarrow> jsstring" and c :: RecordCall
  let ?m0 = "newMemory [] [] 0"
  let ?m1 = "fst (recordQuestionAnswer md5hex ?m0 c)"
  have absent: "\<not> objHas (questions ?m0) (callQuestionId md5hex c)"
    by (simp add: newMemory_def objHas_def)
  have tot0: "totalQuestions ?m0 = length (objKeys (questions ?m0))"
    by (simp add: newMemory_def objKeys_def)
  from recordQuestionAnswer_overwrite_or_append_C7 [of ?m0 md5hex c] absent tot0
  have first: "totalQuestions ?m1 = totalQuestions ?m0 + 1"
    and order1: "questionOrder ?m1 = questionOrder ?m0 @ [callQuestionId md5hex c]"
    by blast+
  have present: "objHas (questions ?m1) (callQuestionId md5hex c)"
    by (simp add: recordQuestionAnswer_def Let_def newMemory_def objHas_def)
  from recordQuestionAnswer_overwrite_or_append_C7 [of ?m1 md5hex c] present
  have second: "totalQuestions (fst (recordQuestionAnswer md5hex ?m1 c)) = totalQuestions ?m1"
    and order2: "questionOrder (fst (recordQuestionAnswer md5hex ?m1 c)) = questionOrder ?m1"
    by blast+
  have z: "totalQuestions ?m0 = 0" "questionOrder ?m0 = []"
    by (simp_all add: newMemory_def)
  from absent tot0 first order1 present second order2 z
  show "\<not> objHas (questions ?m0) (callQuestionId md5hex c)
     \<and> totalQuestions ?m0 = length (objKeys (questions ?m0))
     \<and> totalQuestions ?m1 = 1
     \<and> objHas (questions ?m1) (callQuestionId md5hex c)
     \<and> totalQuestions (fst (recordQuestionAnswer md5hex ?m1 c)) = 1
     \<and> questionOrder (fst (recordQuestionAnswer md5hex ?m1 c)) = [callQuestionId md5hex c]"
    by simp
qed

text \<open>
  The claim as first stated says that a first-seen fingerprint increments
  \<open>totalQuestions\<close> in every memory state. \<open>importMemory\<close> installs any state; in one
  with no stored record and \<open>totalQuestions = 5\<close>, the first recording sets the counter
  to 1.
\<close>

theorem recordQuestionAnswer_total_counterexample_C7:
  "\<forall>md5hex c.
     \<not> objHas (questions ((newMemory [] [] 0)\<lparr>totalQuestions := 5\<rparr>)) (callQuestionId md5hex c)
     \<and> totalQuestions (fst (recordQuestionAnswer md5hex
           ((newMemory [] [] 0)\<lparr>totalQuestions := 5\<rparr>) c)) = 1
     \<and> totalQuestions (fst (recordQuestionAnswer md5hex
           ((newMemory [] [] 0)\<lparr>totalQuestions := 5\<rparr>) c))
         \<noteq> totalQuestions ((newMemory [] [] 0)\<lparr>totalQuestions := 5\<rparr>) + 1"
  by (simp add: recordQuestionAnswer_def Let_def newMemory_def objHas_def objKeys_def)

section \<open>Properties of the completion detector\<close>

lemma startsWith_prefix: "startsWith s p \<longleftrightarrow> prefix p s"
  by (induction s p rule: startsWith.induct) auto

lemma includesStr_sublist: "includesStr s p \<longleftrightarrow> sublist p s"
  by (induction s) (auto simp: startsWith_prefix sublist_Cons_right)

lemma toLowerCase_append: "toLowerCase (a @ b) = toLowerCase a @ toLowerCase b"
  by (simp add: toLowerCase_def)

lemma sublist_toLowerCase:
  assumes "sublist p u" and "toLowerCase p = p"
  shows "sublist p (toLowerCase u)"
proof -
  from assms(1) obtain ps ss where "u = ps @ p @ ss" by (auto simp: sublist_def)
  then have "toLowerCase u = toLowerCase ps @ p @ toLowerCase ss"
    using assms(2) by (simp add: toLowerCase_append)
  then show ?thesis by (auto simp: sublist_def)
qed

lemma thank_you_lower: "toLowerCase (str ''thank-you'') = str ''thank-you''"
  by (simp add: toLowerCase_def str_def lowerUnit_def)

lemma selectorPresent_iff:
  "selectorPresent page selector \<longleftrightarrow> (\<exists>n>0. locatorCount page selector = Inr n)"
  by (auto simp: selectorPresent_def split: sum.splits)

lemma detectStrict_iff:
  "detectStrictCompletionSignals page url body \<longleftrightarrow>
     (\<exists>pattern \<in> set completionUrlPatterns. sublist pattern (toLowerCase url))
     \<or> (\<exists>signal \<in> set completionSignals. sublist (toLowerCase signal) body)
     \<or> (\<exists>selector \<in> set completionSelectors. \<exists>n>0. locatorCount page selector = Inr n)"
  unfolding detectStrictCompletionSignals_def Let_def list_ex_iff includesStr_sublist selectorPresent_iff
  by auto

text \<open>
  Claim C1, as first stated, holds for every page and gives a complete verdict to every
  URL that contains \<open>thank-you\<close>. The detector reads the title before it looks at the
  URL: when the read of the title throws, the verdict is \<open>detection_error\<close>, which is
  neither complete nor the continue verdict, also at a URL that contains \<open>thank-you\<close>.
\<close>

theorem unreadable_title_counterexample_C1:
  "readUrl untitledPage = Inr (str ''https://s.example/thank-you'')
   \<and> includesStr (str ''https://s.example/thank-you'') (str ''thank-you'')
   \<and> readTitle untitledPage = Inl (str ''Target closed'')
   \<and> \<not> isSuccess (intelligentCompletionDetection untitledPage 0 0)
   \<and> successType (intelligentCompletionDetection untitledPage 0 0) = str ''detection_error''
   \<and> successType (intelligentCompletionDetection untitledPage 0 0) \<noteq> str ''complete''
   \<and> successType (intelligentCompletionDetection untitledPage 0 0) \<noteq> str ''continue_answering''"
  by (simp add: intelligentCompletionDetection_def untitledPage_def examplePage_def
      errorResult_def str_def)

text \<open>
  Claim C1, as amended. When the URL and the title of the page can be read, the detector
  classifies the page as complete if and only if the URL contains one of the
  completion-path patterns, or the page text contains one of the completion phrases, or
  one of the completion elements is found; URL, text and phrases are compared in lower
  case. A complete verdict has type \<open>complete\<close> and asks for the cleanup; every other
  verdict on a readable page, also on one with technical-error keywords, has type
  \<open>continue_answering\<close> and does not. A URL that contains \<open>thank-you\<close> gives a complete
  verdict whatever the page text is, provided the title can be read. When the read of the
  URL or of the title throws, the verdict is the error verdict: not a success, type
  \<open>detection_error\<close>, no cleanup, with the message of the error in the details.
\<close>

theorem completion_verdict_C1:
  "(readUrl page = Inr url \<and> readTitle page = Inr title \<longrightarrow>
      (isSuccess (intelligentCompletionDetection page e now) \<longleftrightarrow>
         (\<exists>pattern \<in> set completionUrlPatterns. sublist pattern (toLowerCase url))
         \<or> (\<exists>signal \<in> set completionSignals.
               sublist (toLowerCase signal) (toLowerCase (bodyTextOf page)))
         \<or> (\<exists>selector \<in> set completionSelectors. \<exists>n>0. locatorCount page selector = Inr n))
      \<and> (isSuccess (intelligentCompletionDetection page e now) \<longrightarrow>
            successType (intelligentCompletionDetection page e now) = str ''complete''
            \<and> shouldCleanup (intelligentCompletionDetection page e now))
      \<and> (\<not> isSuccess (intelligentCompletionDetection page e now) \<longrightarrow>
            successType (intelligentCompletionDetection page e now) = str ''continue_answering''
            \<and> \<not> shouldCleanup (intelligentCompletionDetection page e now)))
   \<and> (readUrl page = Inr url \<and> readTitle page = Inr title \<and> sublist (str ''thank-you'') url \<longrightarrow>
         isSuccess (intelligentCompletionDetection page e now)
         \<and> successType (intelligentCompletionDetection page e now) = str ''complete'')
   \<and> (readUrl page = Inl message \<or> (readUrl page = Inr url \<and> readTitle page = Inl message) \<longrightarrow>
         intelligentCompletionDetection page e now = errorResult message e now
         \<and> \<not> isSuccess (intelligentCompletionDetection page e now)
         \<and> \<not> shouldCleanup (intelligentCompletionDetection page e now)
         \<and> successType (intelligentCompletionDetection page e now) = str ''detection_error'')"
proof -
  let ?r = "intelligentCompletionDetection page e now"
  let ?signals = "(\<exists>pattern \<in> set completionUrlPatterns. sublist pattern (toLowerCase url))
         \<or> (\<exists>signal \<in> set completionSignals.
               sublist (toLowerCase signal) (toLowerCase (bodyTextOf page)))
         \<or> (\<exists>selector \<in> set completionSelectors. \<exists>n>0. locatorCount page selector = Inr n)"
  have a: "isSuccess ?r \<longleftrightarrow> ?signals"
    and b: "isSuccess ?r \<longrightarrow> successType ?r = str ''complete'' \<and> shouldCleanup ?r"
    and c: "\<not> isSuccess ?r \<longrightarrow> successType ?r = str ''continue_answering'' \<and> \<not> shouldCleanup ?r"
    if "readUrl page = Inr url \<and> readTitle page = Inr title"
    using that
    by (simp_all add: intelligentCompletionDetection_def Let_def detectStrict_iff [symmetric])
  have ty: "str ''thank-you'' \<in> set completionUrlPatterns"
    by (simp add: completionUrlPatterns_def)
  have d: "isSuccess ?r \<and> successType ?r = str ''complete''"
    if h: "readUrl page = Inr url \<and> readTitle page = Inr title \<and> sublist (str ''thank-you'') url"
  proof -
    from h have "sublist (str ''thank-you'') (toLowerCase url)"
      using sublist_toLowerCase thank_you_lower by blast
    with ty have "?signals" by blast
    with a b h show ?thesis by blast
  qed
  have f: "?r = errorResult message e now \<and> \<not> isSuccess ?r \<and> \<not> shouldCleanup ?r
      \<and> successType ?r = str ''detection_error''"
    if "readUrl page = Inl message \<or> (readUrl page = Inr url \<and> readTitle page = Inl message)"
    using that by (auto simp: intelligentCompletionDetection_def errorResult_def)
  from a b c d f show ?thesis by blast
qed

theorem completion_verdict_C1_witness:
  "readUrl examplePage = Inr (str ''https://s.example/thank-you'')
   \<and> readTitle examplePage = Inr (str ''Survey'')
   \<and> sublist (str ''thank-you'') (str ''https://s.example/thank-you'')
   \<and> detectErrorIndicators (toLowerCase (bodyTextOf examplePage))
   \<and> isSuccess (intelligentCompletionDetection examplePage 0 0)
   \<and> successType (intelligentCompletionDetection examplePage 0 0) = str ''complete''
   \<and> shouldCleanup (intelligentCompletionDetection examplePage 0 0)
   \<and> readUrl quietPage = Inr (str ''https://s.example/q'')
   \<and> \<not> isSuccess (intelligentCompletionDetection quietPage 0 0)
   \<and> successType (intelligentCompletionDetection quietPage 0 0) = str ''continue_answering''
   \<and> \<not> shouldCleanup (intelligentCompletionDetection quietPage 0 0)
   \<and> readTitle untitledPage = Inl (str ''Target closed'')
   \<and> intelligentCompletionDetection untitledPage 0 0 = errorResult (str ''Target closed'') 0 0
   \<and> successType (intelligentCompletionDetection untitledPage 0 0) = str ''detection_error''
   \<and> readUrl unreachablePage = Inl (str ''Target closed'')
   \<and> \<not> isSuccess (intelligentCompletionDetection unreachablePage 0 0)
   \<and> successType (intelligentCompletionDetection unreachablePage 0 0) = str ''detection_error''"
proof -
  have u: "readUrl examplePage = Inr (str ''https://s.example/thank-you'')"
    and t: "readTitle examplePage = Inr (str ''Survey'')"
    by (simp_all add: examplePage_def)
  have s: "sublist (str ''thank-you'') (str ''https://s.example/thank-you'')"
    unfolding includesStr_sublist [symmetric] by (simp add: str_def)
  have k: "detectErrorIndicators (toLowerCase (bodyTextOf examplePage))"
    by (simp add: detectErrorIndicators_def errorKeywords_def bodyTextOf_def examplePage_def
        toLowerCase_def lowerUnit_def str_def)
  from completion_verdict_C1 [of examplePage "str ''https://s.example/thank-you''" "str ''Survey''"
      0 0 "[]"] u t s
  have complete: "isSuccess (intelligentCompletionDetection examplePage 0 0)
      \<and> successType (intelligentCompletionDetection examplePage 0 0) = str ''complete''
      \<and> shouldCleanup (intelligentCompletionDetection examplePage 0 0)"
    by blast
  have qu: "readUrl quietPage = Inr (str ''https://s.example/q'')"
    and qt: "readTitle quietPage = Inr (str ''Survey'')"
    by (simp_all add: quietPage_def)
  have quiet: "\<not> isSuccess (intelligentCompletionDetection quietPage 0 0)"
    by (simp add: intelligentCompletionDetection_def Let_def quietPage_def bodyTextOf_def
        detectStrictCompletionSignals_def completionUrlPatterns_def completionSignals_def
        completionSelectors_def selectorPresent_def toLowerCase_def lowerUnit_def str_def)
  from completion_verdict_C1 [of quietPage "str ''https://s.example/q''" "str ''Survey''"
      0 0 "[]"] qu qt quiet
  have continue: "successType (intelligentCompletionDetection quietPage 0 0) = str ''continue_answering''
      \<and> \<not> shouldCleanup (intelligentCompletionDetection quietPage 0 0)"
    by blast
  have uu: "readUrl untitledPage = Inr (str ''https://s.example/thank-you'')"
    and ut: "readTitle untitledPage = Inl (str ''Target closed'')"
    by (simp_all add: untitledPage_def examplePage_def)
  from completion_verdict_C1 [of untitledPage "str ''https://s.example/thank-you''" "[]"
      0 0 "str ''Target closed''"] uu ut
  have untitled: "intelligentCompletionDetection untitledPage 0 0 = errorResult (str ''Target closed'') 0 0
      \<and> successType (intelligentCompletionDetection untitledPage 0 0) = str ''detection_error''"
    by blast
  have ru: "readUrl unreachablePage = Inl (str ''Target closed'')"
    by (simp add: unreachablePage_def)
  from completion_verdict_C1 [of unreachablePage "[]" "[]" 0 0 "str ''Target closed''"] ru
  have unreachable: "\<not> isSuccess (intelligentCompletionDetection unreachablePage 0 0)
      \<and> successType (intelligentCompletionDetection unreachablePage 0 0) = str ''detection_error''"
    by blast
  from u t s k complete qu quiet continue ut untitled ru unreachable show ?thesis
    by blast
qed


section \<open>Properties of the answering loop\<close>


lemma countFailure_not_return: "countFailure cfg st \<noteq> RoundReturn r"
  by (simp add: countFailure_def Let_def)


















section \<open>Properties of the similarity search\<close>

lemma prefixDistance_le: "prefixDistance s t i j \<le> max i j"
  by (induction s t i j rule: prefixDistance.induct) auto

lemma prefixDistance_zero_right: "prefixDistance s t i 0 = i"
  by (cases i) auto

lemma prefixDistance_same: "prefixDistance s s i i = 0"
  by (induction i) auto

lemma setCell_row_length: "length (setCell m i j v ! r) = length (m ! r)"
  by (cases "i < length m") (auto simp: setCell_def nth_list_update list_update_beyond)

lemma setCell_shaped: "shaped l1 l2 m \<Longrightarrow> shaped l1 l2 (setCell m i j v)"
  by (simp add: shaped_def setCell_row_length) (simp add: setCell_def)

lemma setCell_nth:
  "shaped l1 l2 m \<Longrightarrow> i \<le> l1 \<Longrightarrow> j \<le> l2 \<Longrightarrow> r \<le> l1 \<Longrightarrow> c \<le> l2 \<Longrightarrow>
     setCell m i j v ! r ! c = (if r = i \<and> c = j then v else m ! r ! c)"
  by (auto simp: shaped_def setCell_def nth_list_update)

lemma column_loop:
  "shaped l1 l2 m0 \<Longrightarrow> n \<le> l1 + 1 \<Longrightarrow>
     shaped l1 l2 (foldl (\<lambda>matrix i. setCell matrix i 0 i) m0 [0..<n])
     \<and> (\<forall>r c. r \<le> l1 \<and> c \<le> l2 \<longrightarrow>
           foldl (\<lambda>matrix i. setCell matrix i 0 i) m0 [0..<n] ! r ! c
             = (if c = 0 \<and> r < n then r else m0 ! r ! c))"
proof (induction n)
  case 0
  then show ?case by simp
next
  case (Suc n)
  let ?m = "foldl (\<lambda>matrix i. setCell matrix i 0 i) m0 [0..<n]"
  from Suc have sh: "shaped l1 l2 ?m"
    and cells: "\<forall>r c. r \<le> l1 \<and> c \<le> l2 \<longrightarrow> ?m ! r ! c = (if c = 0 \<and> r < n then r else m0 ! r ! c)"
    by simp_all
  from Suc.prems have n: "n \<le> l1" by simp
  have step: "foldl (\<lambda>matrix i. setCell matrix i 0 i) m0 [0..<Suc n] = setCell ?m n 0 n"
    by simp
  show ?case
    unfolding step using sh cells n
    by (auto simp: setCell_shaped setCell_nth)
qed

lemma row_loop:
  "shaped l1 l2 m0 \<Longrightarrow> n \<le> l2 + 1 \<Longrightarrow>
     shaped l1 l2 (foldl (\<lambda>matrix j. setCell matrix 0 j j) m0 [0..<n])
     \<and> (\<forall>r c. r \<le> l1 \<and> c \<le> l2 \<longrightarrow>
           foldl (\<lambda>matrix j. setCell matrix 0 j j) m0 [0..<n] ! r ! c
             = (if r = 0 \<and> c < n then c else m0 ! r ! c))"
proof (induction n)
  case 0
  then show ?case by simp
next
  case (Suc n)
  let ?m = "foldl (\<lambda>matrix j. setCell matrix 0 j j) m0 [0..<n]"
  from Suc have sh: "shaped l1 l2 ?m"
    and cells: "\<forall>r c. r \<le> l1 \<and> c \<le> l2 \<longrightarrow> ?m ! r ! c = (if r = 0 \<and> c < n then c else m0 ! r ! c)"
    by simp_all
  from Suc.prems have n: "n \<le> l2" by simp
  have step: "foldl (\<lambda>matrix j. setCell matrix 0 j j) m0 [0..<Suc n] = setCell ?m 0 n n"
    by simp
  show ?case
    unfolding step using sh cells n
    by (auto simp: setCell_shaped setCell_nth)
qed

lemma replicate_shaped: "shaped l1 l2 (replicate (l1 + 1) (replicate (l2 + 1) 0))"
  by (auto simp: shaped_def nth_Cons')

lemma initMatrix_cells:
  "shaped l1 l2 (initMatrix l1 l2)
   \<and> (\<forall>r c. r \<le> l1 \<and> c \<le> l2 \<and> (r = 0 \<or> c = 0) \<longrightarrow> initMatrix l1 l2 ! r ! c = prefixDistance s t r c)"
proof -
  let ?m0 = "replicate (l1 + 1) (replicate (l2 + 1) (0::nat))"
  let ?m1 = "foldl (\<lambda>matrix i. setCell matrix i 0 i) ?m0 [0..<l1 + 1]"
  from column_loop [OF replicate_shaped, of "l1 + 1" l1 l2]
  have sh1: "shaped l1 l2 ?m1"
    and c1: "\<forall>r c. r \<le> l1 \<and> c \<le> l2 \<longrightarrow> ?m1 ! r ! c = (if c = 0 \<and> r < l1 + 1 then r else ?m0 ! r ! c)"
    by simp_all
  from row_loop [OF sh1, of "l2 + 1"]
  have sh2: "shaped l1 l2 (initMatrix l1 l2)"
    and c2: "\<forall>r c. r \<le> l1 \<and> c \<le> l2 \<longrightarrow>
       initMatrix l1 l2 ! r ! c = (if r = 0 \<and> c < l2 + 1 then c else ?m1 ! r ! c)"
    by (simp_all add: initMatrix_def)
  have "initMatrix l1 l2 ! r ! c = prefixDistance s t r c"
    if "r \<le> l1" "c \<le> l2" "r = 0 \<or> c = 0" for r c
  proof (cases "r = 0")
    case True
    with that c2 show ?thesis by simp
  next
    case False
    with that have c0: "c = 0" by simp
    from False obtain r' where "r = Suc r'" by (cases r) auto
    with that c0 c1 c2 False show ?thesis by simp
  qed
  with sh2 show ?thesis by blast
qed

text \<open>One pass of the inner loop completes row \<open>i\<close>.\<close>

lemma inner_loop:
  assumes "1 \<le> i" "i \<le> length s" "shaped (length s) (length t) m0"
    and "\<forall>r c. r \<le> length s \<and> c \<le> length t \<and> (r < i \<or> c = 0) \<longrightarrow> m0 ! r ! c = prefixDistance s t r c"
    and "n \<le> length t + 1" "1 \<le> n"
  shows "shaped (length s) (length t) (foldl (fillCell s t i) m0 [1..<n])
     \<and> (\<forall>r c. r \<le> length s \<and> c \<le> length t \<and> (r < i \<or> c = 0 \<or> (r = i \<and> c < n)) \<longrightarrow>
           foldl (fillCell s t i) m0 [1..<n] ! r ! c = prefixDistance s t r c)"
  using assms(5,6)
proof (induction n)
  case 0
  then show ?case by simp
next
  case (Suc n)
  show ?case
  proof (cases "n = 0")
    case True
    with assms(3,4) show ?thesis by auto
  next
    case False
    then have n1: "1 \<le> n" by simp
    from Suc.prems have nt: "n \<le> length t" by simp
    let ?m = "foldl (fillCell s t i) m0 [1..<n]"
    from Suc.IH n1 nt have sh: "shaped (length s) (length t) ?m"
      and cells: "\<forall>r c. r \<le> length s \<and> c \<le> length t \<and> (r < i \<or> c = 0 \<or> (r = i \<and> c < n)) \<longrightarrow>
           ?m ! r ! c = prefixDistance s t r c"
      by simp_all
    from n1 have step: "foldl (fillCell s t i) m0 [1..<Suc n] = fillCell s t i ?m n"
      by simp
    obtain i' where i': "i = Suc i'" using assms(1) by (cases i) auto
    obtain n' where n': "n = Suc n'" using n1 by (cases n) auto
    from cells assms(2) nt i' n' have up: "?m ! i' ! n = prefixDistance s t i' n"
      and left: "?m ! i ! n' = prefixDistance s t i n'"
      and diag: "?m ! i' ! n' = prefixDistance s t i' n'"
      by simp_all
    have new: "fillCell s t i ?m n ! r ! c
        = (if r = i \<and> c = n then prefixDistance s t i n else ?m ! r ! c)"
      if "r \<le> length s" "c \<le> length t" for r c
      using that sh assms(2) nt up left diag
      by (simp add: fillCell_def Let_def setCell_nth i' n')
    have "shaped (length s) (length t) (fillCell s t i ?m n)"
      using sh by (simp add: fillCell_def Let_def setCell_shaped)
    moreover have "fillCell s t i ?m n ! r ! c = prefixDistance s t r c"
      if "r \<le> length s" "c \<le> length t" "r < i \<or> c = 0 \<or> (r = i \<and> c < Suc n)" for r c
    proof (cases "r = i \<and> c = n")
      case True
      with new [OF that(1,2)] show ?thesis by simp
    next
      case False
      with that have "r < i \<or> c = 0 \<or> (r = i \<and> c < n)" by auto
      with cells that(1,2) have "?m ! r ! c = prefixDistance s t r c" by blast
      with new [OF that(1,2)] False show ?thesis by simp
    qed
    ultimately show ?thesis unfolding step by blast
  qed
qed

lemma outer_loop:
  assumes "k \<le> length s + 1" "1 \<le> k"
  shows "shaped (length s) (length t)
       (foldl (\<lambda>matrix i. foldl (fillCell s t i) matrix [1..<length t + 1])
          (initMatrix (length s) (length t)) [1..<k])
     \<and> (\<forall>r c. r \<le> length s \<and> c \<le> length t \<and> (r < k \<or> c = 0) \<longrightarrow>
           foldl (\<lambda>matrix i. foldl (fillCell s t i) matrix [1..<length t + 1])
             (initMatrix (length s) (length t)) [1..<k] ! r ! c = prefixDistance s t r c)"
  using assms
proof (induction k)
  case 0
  then show ?case by simp
next
  case (Suc k)
  show ?case
  proof (cases "k = 0")
    case True
    with initMatrix_cells [of "length s" "length t" s t] show ?thesis by auto
  next
    case False
    then have k1: "1 \<le> k" by simp
    from Suc.prems have ks: "k \<le> length s" by simp
    let ?m = "foldl (\<lambda>matrix i. foldl (fillCell s t i) matrix [1..<length t + 1])
          (initMatrix (length s) (length t)) [1..<k]"
    from Suc.IH k1 ks have sh: "shaped (length s) (length t) ?m"
      and cells: "\<forall>r c. r \<le> length s \<and> c \<le> length t \<and> (r < k \<or> c = 0) \<longrightarrow>
           ?m ! r ! c = prefixDistance s t r c"
      by simp_all
    from k1 have step: "foldl (\<lambda>matrix i. foldl (fillCell s t i) matrix [1..<length t + 1])
          (initMatrix (length s) (length t)) [1..<Suc k]
        = foldl (fillCell s t k) ?m [1..<length t + 1]"
      by simp
    let ?m' = "foldl (fillCell s t k) ?m [1..<length t + 1]"
    have p1: "length t + 1 \<le> length t + 1" and p2: "1 \<le> length t + 1"
      by simp_all
    from inner_loop [OF k1 ks sh cells p1 p2]
    have sh': "shaped (length s) (length t) ?m'"
      and cells': "\<forall>r c. r \<le> length s \<and> c \<le> length t \<and> (r < k \<or> c = 0 \<or> (r = k \<and> c < length t + 1)) \<longrightarrow>
           ?m' ! r ! c = prefixDistance s t r c"
      by blast+
    have "?m' ! r ! c = prefixDistance s t r c"
      if "r \<le> length s" "c \<le> length t" "r < Suc k \<or> c = 0" for r c
    proof -
      from that have "r < k \<or> c = 0 \<or> (r = k \<and> c < length t + 1)" by auto
      with cells' that(1,2) show ?thesis by blast
    qed
    with sh' show ?thesis unfolding step by blast
  qed
qed

lemma fillMatrix_distance:
  "fillMatrix s t ! length s ! length t = editDistance s t"
  using outer_loop [of "length s + 1" s t]
  by (simp add: fillMatrix_def editDistance_def)

lemma calculateStringSimilarity_formula:
  "calculateStringSimilarity s t
     = double (1 - of_nat (editDistance s t) / of_nat (max (length s) (length t)))"
proof (cases "length s = 0 \<or> length t = 0")
  case True
  then show ?thesis
    by (auto simp: calculateStringSimilarity_def editDistance_def Let_def
          prefixDistance_zero_right double_zero double_one)
next
  case False
  then have "calculateStringSimilarity s t
      = double ((of_nat (max (length s) (length t)) - of_nat (editDistance s t))
          / of_nat (max (length s) (length t)))"
    by (simp add: calculateStringSimilarity_def Let_def fillMatrix_distance fdiv_def)
  also have "(of_nat (max (length s) (length t)) - of_nat (editDistance s t) :: rat)
          / of_nat (max (length s) (length t))
      = 1 - of_nat (editDistance s t) / of_nat (max (length s) (length t))"
    using False by (simp add: diff_divide_distrib)
  finally show ?thesis .
qed

lemma calculateStringSimilarity_same: "calculateStringSimilarity s s = 1"
  by (simp add: calculateStringSimilarity_formula editDistance_def prefixDistance_same double_one)

lemma ratio_le_one: "a \<le> b \<Longrightarrow> (of_nat a :: rat) / of_nat b \<le> 1"
  by (cases "b = 0") (simp_all add: divide_le_eq_1_pos)

lemma calculateStringSimilarity_nonneg: "0 \<le> calculateStringSimilarity s t"
proof -
  have "editDistance s t \<le> max (length s) (length t)"
    by (simp add: editDistance_def prefixDistance_le)
  then have "(of_nat (editDistance s t) :: rat) / of_nat (max (length s) (length t)) \<le> 1"
    by (rule ratio_le_one)
  then show ?thesis
    by (simp add: calculateStringSimilarity_formula double_nonneg)
qed

lemma keywordSimilarity_formula:
  "keywordSimilarity f1 f2
     = double (of_nat (card (keywordSet f1 \<inter> keywordSet f2))
                / of_nat (card (keywordSet f1 \<union> keywordSet f2)))"
proof -
  have "Set.filter (\<lambda>k. k \<in> keywordSet f2) (keywordSet f1) = keywordSet f1 \<inter> keywordSet f2"
    by auto
  then show ?thesis by (simp add: keywordSimilarity_def Let_def fdiv_def double_zero)
qed

lemma optionSimilarity_formula:
  "optionSimilarity f1 f2
     = double (of_nat (card (set (normalizedOptions f1) \<inter> set (normalizedOptions f2)))
                / of_nat (card (set (normalizedOptions f1) \<union> set (normalizedOptions f2))))"
proof -
  have "Set.filter (\<lambda>opt. opt \<in> set (normalizedOptions f2)) (set (normalizedOptions f1))
      = set (normalizedOptions f1) \<inter> set (normalizedOptions f2)"
    by auto
  then show ?thesis by (simp add: optionSimilarity_def Let_def fdiv_def double_zero)
qed

lemma extract_fields:
  "normalizedText (extractQuestionFeatures text opts) = normalizeQuestionText text"
  "normalizedOptions (extractQuestionFeatures text opts) = map normalizeQuestionText opts"
  "keywordSet (extractQuestionFeatures text opts) = keywordsOf text"
  "optionCount (extractQuestionFeatures text opts) = length opts"
  by (auto simp: extractQuestionFeatures_def Let_def keywordsOf_def)

lemma recordSimilarity_formula:
  "recordSimilarity text opts r =
     fadd (fadd (fadd
       (fmul (double (1 - of_nat (editDistance (normalizeQuestionText text)
                                    (normalizeQuestionText (questionText r)))
                        / of_nat (max (length (normalizeQuestionText text))
                                      (length (normalizeQuestionText (questionText r))))))
          (double (4 / 10)))
       (fmul (double (of_nat (card (keywordsOf text \<inter> keywordsOf (questionText r)))
                        / of_nat (card (keywordsOf text \<union> keywordsOf (questionText r)))))
          (double (3 / 10))))
       (fmul (double (of_nat (card (set (map normalizeQuestionText opts)
                                      \<inter> set (map normalizeQuestionText (options r))))
                        / of_nat (card (set (map normalizeQuestionText opts)
                                      \<union> set (map normalizeQuestionText (options r))))))
          (double (2 / 10))))
       (fmul (if length opts = length (options r) then 1 else 1 / 2) (double (1 / 10)))"
  by (simp add: recordSimilarity_def calculateQuestionSimilarity_def
      calculateStringSimilarity_formula keywordSimilarity_formula optionSimilarity_formula
      optionCountSimilarity_def extract_fields)

lemma count_term:
  "fmul 1 (double (1 / 10)) = 3602879701896397 / 36028797018963968"
  "fmul (1 / 2) (double (1 / 10)) = 3602879701896397 / 72057594037927936"
  by (simp_all add: fmul_def double_eval)

lemma recordSimilarity_positive: "recordSimilarity text opts r > 0"
proof -
  let ?f1 = "extractQuestionFeatures text opts"
  let ?f2 = "extractQuestionFeatures (questionText r) (options r)"
  let ?a = "fmul (calculateStringSimilarity (normalizedText ?f1) (normalizedText ?f2)) (double (4 / 10))"
  let ?b = "fmul (keywordSimilarity ?f1 ?f2) (double (3 / 10))"
  let ?c = "fmul (optionSimilarity ?f1 ?f2) (double (2 / 10))"
  let ?d = "fmul (optionCountSimilarity ?f1 ?f2) (double (1 / 10))"
  have w: "0 \<le> double (4 / 10)" "0 \<le> double (3 / 10)" "0 \<le> double (2 / 10)"
    by (simp_all add: double_nonneg)
  have a: "0 \<le> ?a"
    unfolding fmul_def using calculateStringSimilarity_nonneg w(1) by (intro double_nonneg) simp
  have b: "0 \<le> ?b"
    unfolding fmul_def keywordSimilarity_formula using w(2)
    by (intro double_nonneg mult_nonneg_nonneg) simp_all
  have c: "0 \<le> ?c"
    unfolding fmul_def optionSimilarity_formula using w(3)
    by (intro double_nonneg mult_nonneg_nonneg) simp_all
  have d: "1 / 2 ^ 1074 \<le> ?d"
    by (simp add: optionCountSimilarity_def count_term)
  have "0 \<le> fadd (fadd ?a ?b) ?c"
    unfolding fadd_def using a b c by (intro double_nonneg add_nonneg_nonneg) (simp_all add: fadd_def)
  with d have "1 / 2 ^ 1074 \<le> fadd (fadd ?a ?b) ?c + ?d"
    by linarith
  then have "0 < fadd (fadd (fadd ?a ?b) ?c) ?d"
    unfolding fadd_def [of "fadd (fadd ?a ?b) ?c"] by (rule double_positive)
  then show ?thesis
    by (simp add: recordSimilarity_def calculateQuestionSimilarity_def)
qed

text \<open>The state of the search loop after any number of records.\<close>

lemma find_loop:
  "(fst (foldl (findStep text opts th) (None, 0) rs) = None \<longrightarrow>
      snd (foldl (findStep text opts th) (None, 0) rs) = 0
      \<and> (\<forall>r \<in> set rs. recordSimilarity text opts r \<le> th))
   \<and> (\<forall>q. fst (foldl (findStep text opts th) (None, 0) rs) = Some q \<longrightarrow>
         snd (foldl (findStep text opts th) (None, 0) rs) = recordSimilarity text opts q
         \<and> recordSimilarity text opts q > th
         \<and> (\<exists>pre post. rs = pre @ q # post
               \<and> (\<forall>r \<in> set pre. recordSimilarity text opts r < recordSimilarity text opts q)
               \<and> (\<forall>r \<in> set post. recordSimilarity text opts r \<le> recordSimilarity text opts q)))"
proof (induction rs rule: rev_induct)
  case Nil
  then show ?case by simp
next
  case (snoc x xs)
  let ?b = "foldl (findStep text opts th) (None, 0) xs"
  have step: "foldl (findStep text opts th) (None, 0) (xs @ [x]) = findStep text opts th ?b x"
    by simp
  have pos: "recordSimilarity text opts x > 0"
    by (rule recordSimilarity_positive)
  show ?case
  proof (cases "fst ?b")
    case None
    with snoc have z: "snd ?b = 0" and low: "\<forall>r \<in> set xs. recordSimilarity text opts r \<le> th"
      by simp_all
    show ?thesis
    proof (cases "recordSimilarity text opts x > th")
      case True
      with z pos have new: "findStep text opts th ?b x = (Some x, recordSimilarity text opts x)"
        by (simp add: findStep_def Let_def)
      from low True have "\<forall>r \<in> set xs. recordSimilarity text opts r < recordSimilarity text opts x"
        by fastforce
      then have "xs @ [x] = xs @ x # []
          \<and> (\<forall>r \<in> set xs. recordSimilarity text opts r < recordSimilarity text opts x)
          \<and> (\<forall>r \<in> set []. recordSimilarity text opts r \<le> recordSimilarity text opts x)"
        by simp
      then have "\<exists>pre post. xs @ [x] = pre @ x # post
          \<and> (\<forall>r \<in> set pre. recordSimilarity text opts r < recordSimilarity text opts x)
          \<and> (\<forall>r \<in> set post. recordSimilarity text opts r \<le> recordSimilarity text opts x)"
        by blast
      with new True show ?thesis unfolding step by simp
    next
      case False
      then have "findStep text opts th ?b x = ?b"
        by (simp add: findStep_def Let_def)
      with False None z low show ?thesis unfolding step by auto
    qed
  next
    case (Some q)
    with snoc obtain pre post where q: "snd ?b = recordSimilarity text opts q"
      "recordSimilarity text opts q > th" "xs = pre @ q # post"
      "\<forall>r \<in> set pre. recordSimilarity text opts r < recordSimilarity text opts q"
      "\<forall>r \<in> set post. recordSimilarity text opts r \<le> recordSimilarity text opts q"
      by auto
    show ?thesis
    proof (cases "recordSimilarity text opts x > recordSimilarity text opts q")
      case True
      with q have new: "findStep text opts th ?b x = (Some x, recordSimilarity text opts x)"
        by (simp add: findStep_def Let_def)
      from q True have "\<forall>r \<in> set xs. recordSimilarity text opts r < recordSimilarity text opts x"
        by fastforce
      then have "xs @ [x] = xs @ x # []
          \<and> (\<forall>r \<in> set xs. recordSimilarity text opts r < recordSimilarity text opts x)
          \<and> (\<forall>r \<in> set []. recordSimilarity text opts r \<le> recordSimilarity text opts x)"
        by simp
      then have "\<exists>pre post. xs @ [x] = pre @ x # post
          \<and> (\<forall>r \<in> set pre. recordSimilarity text opts r < recordSimilarity text opts x)
          \<and> (\<forall>r \<in> set post. recordSimilarity text opts r \<le> recordSimilarity text opts x)"
        by blast
      moreover from True q have "recordSimilarity text opts x > th" by simp
      ultimately show ?thesis unfolding step new by simp
    next
      case False
      with q Some have same: "findStep text opts th ?b x = ?b"
        by (simp add: findStep_def Let_def)
      from q False have "xs @ [x] = pre @ q # (post @ [x])
          \<and> (\<forall>r \<in> set pre. recordSimilarity text opts r < recordSimilarity text opts q)
          \<and> (\<forall>r \<in> set (post @ [x]). recordSimilarity text opts r \<le> recordSimilarity text opts q)"
        by auto
      then have "\<exists>pre post. xs @ [x] = pre @ q # post
          \<and> (\<forall>r \<in> set pre. recordSimilarity text opts r < recordSimilarity text opts q)
          \<and> (\<forall>r \<in> set post. recordSimilarity text opts r \<le> recordSimilarity text opts q)"
        by blast
      with Some q show ?thesis unfolding step same by simp
    qed
  qed
qed

lemma findSimilarQuestion_some:
  assumes "findSimilarQuestion m text opts th = Some q"
  shows "recordSimilarity text opts q > th"
    and "\<exists>pre post. objValues (questions m) = pre @ q # post
           \<and> (\<forall>r \<in> set pre. recordSimilarity text opts r < recordSimilarity text opts q)
           \<and> (\<forall>r \<in> set post. recordSimilarity text opts r \<le> recordSimilarity text opts q)"
    and "q \<in> set (objValues (questions m))"
    and "\<forall>r \<in> set (objValues (questions m)). recordSimilarity text opts r \<le> recordSimilarity text opts q"
proof -
  from assms find_loop [of "text" "opts" th "objValues (questions m)"]
  show gt: "recordSimilarity text opts q > th"
    and ex: "\<exists>pre post. objValues (questions m) = pre @ q # post
           \<and> (\<forall>r \<in> set pre. recordSimilarity text opts r < recordSimilarity text opts q)
           \<and> (\<forall>r \<in> set post. recordSimilarity text opts r \<le> recordSimilarity text opts q)"
    by (simp_all add: findSimilarQuestion_def)
  from ex obtain pre post where d: "objValues (questions m) = pre @ q # post"
    "\<forall>r \<in> set pre. recordSimilarity text opts r < recordSimilarity text opts q"
    "\<forall>r \<in> set post. recordSimilarity text opts r \<le> recordSimilarity text opts q"
    by blast
  from d(1) show "q \<in> set (objValues (questions m))" by simp
  from d show "\<forall>r \<in> set (objValues (questions m)).
      recordSimilarity text opts r \<le> recordSimilarity text opts q"
    by fastforce
qed

lemma findSimilarQuestion_none:
  "findSimilarQuestion m text opts th = None \<longleftrightarrow>
     (\<forall>r \<in> set (objValues (questions m)). recordSimilarity text opts r \<le> th)"
proof
  assume "findSimilarQuestion m text opts th = None"
  then show "\<forall>r \<in> set (objValues (questions m)). recordSimilarity text opts r \<le> th"
    using find_loop [of "text" "opts" th "objValues (questions m)"]
    by (simp add: findSimilarQuestion_def)
next
  assume low: "\<forall>r \<in> set (objValues (questions m)). recordSimilarity text opts r \<le> th"
  show "findSimilarQuestion m text opts th = None"
  proof (cases "findSimilarQuestion m text opts th")
    case None
    then show ?thesis .
  next
    case (Some q)
    from findSimilarQuestion_some(1,3) [OF Some] low show ?thesis by fastforce
  qed
qed

lemma finite_keywordsOf: "finite (keywordsOf t)"
  by (simp add: keywordsOf_def)

lemma keywordSimilarity_same:
  "keywordsOf t \<noteq> {} \<Longrightarrow>
     keywordSimilarity (extractQuestionFeatures t opts) (extractQuestionFeatures t opts') = 1"
  using finite_keywordsOf [of t]
  by (simp add: keywordSimilarity_formula extract_fields card_gt_0_iff double_one)

lemma optionSimilarity_same:
  "opts \<noteq> [] \<Longrightarrow>
     optionSimilarity (extractQuestionFeatures t opts) (extractQuestionFeatures t' opts) = 1"
  by (simp add: optionSimilarity_formula extract_fields card_gt_0_iff double_one)


lemma coffee_normalized:
  "normalizeQuestionText (str ''Do you like coffee?'') = str ''do you like coffee''"
  by (simp add: normalizeQuestionText_def str_def isWhiteSpace_def trim_def stripPunctuation_def
      isWordChar_def toLowerCase_def lowerUnit_def)

lemma coffee_keywords: "keywordsOf (str ''Do you like coffee?'') \<noteq> {}"
proof -
  have "str ''you'' \<in> keywordsOf (str ''Do you like coffee?'')"
    unfolding keywordsOf_def coffee_normalized by (simp add: str_def)
  then show ?thesis by blast
qed

lemma suggestion_of_find:
  "(getConsistentAnswerSuggestion m text opts = None
      \<longleftrightarrow> findSimilarQuestion m text opts (double (8 / 10)) = None)
   \<and> (\<forall>q. findSimilarQuestion m text opts (double (8 / 10)) = Some q \<longrightarrow>
         (\<exists>s. getConsistentAnswerSuggestion m text opts = Some s
              \<and> suggestedAnswer s = answer q \<and> suggestedAnswerText s = answerText q
              \<and> referenceQuestionId s = questionId q
              \<and> referenceQuestionText s = questionText q))"
  by (auto simp: getConsistentAnswerSuggestion_def split: option.splits)

text \<open>The numbers that occur in the examples: the threshold, and the sums of the weights
  as the code adds them.\<close>

lemma threshold_value:
  "double (8 / 10) = 3602879701896397 / 4503599627370496"
  "double (4 / 5) = 3602879701896397 / 4503599627370496"
  by (simp_all add: double_eval)

lemma weights_sum:
  "fadd (fadd (fadd (fmul 1 (double (4 / 10))) (fmul 1 (double (3 / 10))))
     (fmul 1 (double (2 / 10)))) (fmul 1 (double (1 / 10)))
   = 9007199254740991 / 9007199254740992"
  by (simp add: fadd_def fmul_def double_eval)


lemma identical_components:
  assumes "questionText r = text" "options r = opts" "keywordsOf text \<noteq> {}" "opts \<noteq> []"
  shows "calculateStringSimilarity (normalizedText (extractQuestionFeatures text opts))
           (normalizedText (extractQuestionFeatures (questionText r) (options r))) = 1"
    and "keywordSimilarity (extractQuestionFeatures text opts)
           (extractQuestionFeatures (questionText r) (options r)) = 1"
    and "optionSimilarity (extractQuestionFeatures text opts)
           (extractQuestionFeatures (questionText r) (options r)) = 1"
    and "optionCountSimilarity (extractQuestionFeatures text opts)
           (extractQuestionFeatures (questionText r) (options r)) = 1"
    and "recordSimilarity text opts r = 9007199254740991 / 9007199254740992"
proof -
  show a: "calculateStringSimilarity (normalizedText (extractQuestionFeatures text opts))
           (normalizedText (extractQuestionFeatures (questionText r) (options r))) = 1"
    using assms(1) by (simp add: extract_fields calculateStringSimilarity_same)
  show b: "keywordSimilarity (extractQuestionFeatures text opts)
           (extractQuestionFeatures (questionText r) (options r)) = 1"
    using assms(1,3) by (simp add: keywordSimilarity_same)
  show c: "optionSimilarity (extractQuestionFeatures text opts)
           (extractQuestionFeatures (questionText r) (options r)) = 1"
    using assms(2,4) by (simp add: optionSimilarity_same)
  show d: "optionCountSimilarity (extractQuestionFeatures text opts)
           (extractQuestionFeatures (questionText r) (options r)) = 1"
    using assms(2) by (simp add: optionCountSimilarity_def extract_fields)
  show "recordSimilarity text opts r = 9007199254740991 / 9007199254740992"
    unfolding recordSimilarity_def calculateQuestionSimilarity_def a b c d
    by (rule weights_sum)
qed

text \<open>Two bounds on the edit distance: the number of positions at which the texts differ,
  from above, and the number of characters of the first text that do not occur in the
  second, from below.\<close>

lemma prefixDistance_diagonal:
  "prefixDistance s t n n \<le> length (filter (\<lambda>k. s ! k \<noteq> t ! k) [0..<n])"
proof (induction n)
  case 0
  then show ?case by simp
next
  case (Suc n)
  have "prefixDistance s t (Suc n) (Suc n)
      \<le> prefixDistance s t n n + (if s ! n = t ! n then 0 else 1)"
    by simp
  with Suc show ?case by auto
qed

lemma prefixDistance_foreign:
  "i \<le> length s \<Longrightarrow> j \<le> length t \<Longrightarrow>
     length (filter (\<lambda>c. c \<notin> set t) (take i s)) \<le> prefixDistance s t i j"
proof (induction s t i j rule: prefixDistance.induct)
  case (1 s t j)
  then show ?case by simp
next
  case (2 s t i)
  have "length (filter (\<lambda>c. c \<notin> set t) (take (Suc i) s)) \<le> length (take (Suc i) s)"
    by (rule length_filter_le)
  then show ?case by simp
next
  case (3 s t i j)
  let ?g = "length (filter (\<lambda>c. c \<notin> set t) (take i s))"
  let ?g' = "length (filter (\<lambda>c. c \<notin> set t) (take (Suc i) s))"
  from 3(4) have ti: "take (Suc i) s = take i s @ [s ! i]"
    by (simp add: take_Suc_conv_app_nth)
  have g': "?g' = ?g + (if s ! i \<notin> set t then 1 else 0)"
    unfolding ti by simp
  from 3 have a: "?g \<le> prefixDistance s t i (Suc j)"
    and b: "?g' \<le> prefixDistance s t (Suc i) j"
    and c: "?g \<le> prefixDistance s t i j"
    by simp_all
  from 3(5) have mem: "t ! j \<in> set t" by simp
  have "?g' \<le> prefixDistance s t i j + (if s ! i = t ! j then 0 else 1)"
    using c g' mem by auto
  moreover have "?g' \<le> prefixDistance s t i (Suc j) + 1"
    using a g' by simp
  moreover have "?g' \<le> prefixDistance s t (Suc i) j + 1"
    using b by simp
  ultimately show ?case by simp
qed

lemmas normalize_unfold = normalizeQuestionText_def str_def isWhiteSpace_def trim_def
  stripPunctuation_def isWordChar_def toLowerCase_def lowerUnit_def

lemma item_normalized:
  "normalizeQuestionText (str ''Item 1 a'') = str ''item 1 a''"
  "normalizeQuestionText (str ''Item 2 b'') = str ''item 2 b''"
  "normalizeQuestionText (str ''Red'') = str ''red''"
  "normalizeQuestionText (str ''Green'') = str ''green''"
  "normalizeQuestionText (str ''Blue'') = str ''blue''"
  "normalizeQuestionText (str ''Pink'') = str ''pink''"
  by (simp_all add: normalize_unfold)

lemma item_distance: "editDistance (str ''item 1 a'') (str ''item 2 b'') = 2"
proof -
  have "prefixDistance (str ''item 1 a'') (str ''item 2 b'') 8 8
      \<le> length (filter (\<lambda>k. str ''item 1 a'' ! k \<noteq> str ''item 2 b'' ! k) [0..<8])"
    by (rule prefixDistance_diagonal)
  also have "\<dots> = 2"
    by (simp add: str_def eval_nat_numeral)
  finally have upper: "prefixDistance (str ''item 1 a'') (str ''item 2 b'') 8 8 \<le> 2" .
  have "length (filter (\<lambda>c. c \<notin> set (str ''item 2 b'')) (take 8 (str ''item 1 a'')))
      \<le> prefixDistance (str ''item 1 a'') (str ''item 2 b'') 8 8"
    by (rule prefixDistance_foreign) (simp_all add: str_def)
  moreover have "length (filter (\<lambda>c. c \<notin> set (str ''item 2 b'')) (take 8 (str ''item 1 a''))) = 2"
    by (simp add: str_def)
  ultimately have lower: "2 \<le> prefixDistance (str ''item 1 a'') (str ''item 2 b'') 8 8"
    by simp
  have "length (str ''item 1 a'') = 8" "length (str ''item 2 b'') = 8"
    by (simp_all add: str_def)
  with upper lower show ?thesis
    by (simp add: editDistance_def)
qed

lemma item_keywords:
  "keywordsOf (str ''Item 1 a'') = {str ''item''}"
  "keywordsOf (str ''Item 2 b'') = {str ''item''}"
  unfolding keywordsOf_def item_normalized by (auto simp: str_def)

lemma item_parts:
  "(1 - of_nat (editDistance (normalizeQuestionText (str ''Item 1 a''))
                  (normalizeQuestionText (questionText itemRecord)))
        / of_nat (max (length (normalizeQuestionText (str ''Item 1 a'')))
                      (length (normalizeQuestionText (questionText itemRecord)))) :: rat) = 3 / 4"
  "(of_nat (card (keywordsOf (str ''Item 1 a'') \<inter> keywordsOf (questionText itemRecord)))
      / of_nat (card (keywordsOf (str ''Item 1 a'') \<union> keywordsOf (questionText itemRecord))) :: rat) = 1"
  "(of_nat (card (set (map normalizeQuestionText [str ''Red'', str ''Green'', str ''Blue''])
                    \<inter> set (map normalizeQuestionText (options itemRecord))))
      / of_nat (card (set (map normalizeQuestionText [str ''Red'', str ''Green'', str ''Blue''])
                    \<union> set (map normalizeQuestionText (options itemRecord)))) :: rat) = 3 / 4"
  "length [str ''Red'', str ''Green'', str ''Blue''] \<noteq> length (options itemRecord)"
proof -
  have t: "questionText itemRecord = str ''Item 2 b''"
    and o: "options itemRecord = [str ''Red'', str ''Green'', str ''Blue'', str ''Pink'']"
    by (simp_all add: itemRecord_def)
  have len: "length (str ''item 1 a'') = 8" "length (str ''item 2 b'') = 8"
    by (simp_all add: str_def)
  show "(1 - of_nat (editDistance (normalizeQuestionText (str ''Item 1 a''))
                  (normalizeQuestionText (questionText itemRecord)))
        / of_nat (max (length (normalizeQuestionText (str ''Item 1 a'')))
                      (length (normalizeQuestionText (questionText itemRecord)))) :: rat) = 3 / 4"
    unfolding t item_normalized item_distance len by simp
  show "(of_nat (card (keywordsOf (str ''Item 1 a'') \<inter> keywordsOf (questionText itemRecord)))
      / of_nat (card (keywordsOf (str ''Item 1 a'') \<union> keywordsOf (questionText itemRecord))) :: rat) = 1"
    unfolding t item_keywords by simp
  have i: "set (map normalizeQuestionText [str ''Red'', str ''Green'', str ''Blue''])
        \<inter> set (map normalizeQuestionText (options itemRecord))
      = {str ''red'', str ''green'', str ''blue''}"
    and u: "set (map normalizeQuestionText [str ''Red'', str ''Green'', str ''Blue''])
        \<union> set (map normalizeQuestionText (options itemRecord))
      = {str ''red'', str ''green'', str ''blue'', str ''pink''}"
    unfolding o by (auto simp: item_normalized)
  show "(of_nat (card (set (map normalizeQuestionText [str ''Red'', str ''Green'', str ''Blue''])
                    \<inter> set (map normalizeQuestionText (options itemRecord))))
      / of_nat (card (set (map normalizeQuestionText [str ''Red'', str ''Green'', str ''Blue''])
                    \<union> set (map normalizeQuestionText (options itemRecord)))) :: rat) = 3 / 4"
    unfolding i u by (simp add: str_def)
  show "length [str ''Red'', str ''Green'', str ''Blue''] \<noteq> length (options itemRecord)"
    unfolding o by simp
qed

lemma item_exact:
  "exactSimilarity (str ''Item 1 a'') [str ''Red'', str ''Green'', str ''Blue''] itemRecord = 8 / 10"
  unfolding exactSimilarity_def item_parts(1,2,3) using item_parts(4) by simp

lemma item_sum:
  "fadd (fadd (fadd (fmul (double (3 / 4)) (double (4 / 10))) (fmul (double 1) (double (3 / 10))))
     (fmul (double (3 / 4)) (double (2 / 10)))) (fmul (1 / 2) (double (1 / 10)))
   = 7205759403792795 / 9007199254740992"
  by (simp add: fadd_def fmul_def double_eval)

lemma item_similarity:
  "recordSimilarity (str ''Item 1 a'') [str ''Red'', str ''Green'', str ''Blue''] itemRecord
     = 7205759403792795 / 9007199254740992"
  unfolding recordSimilarity_formula item_parts(1,2,3) using item_parts(4)
  by (simp only: if_False item_sum)

lemma item_found:
  "findSimilarQuestion itemMemory (str ''Item 1 a'') [str ''Red'', str ''Green'', str ''Blue'']
     (double (8 / 10)) = Some itemRecord"
  by (simp add: findSimilarQuestion_def itemMemory_def newMemory_def objValues_def findStep_def
      Let_def item_similarity threshold_value)

text \<open>
  Claim C3, as first stated, takes the score to be the exact value of the weighted sum.
  The code computes it in binary floating point. For the query \<open>Item 1 a\<close> with the
  options \<open>Red\<close>, \<open>Green\<close>, \<open>Blue\<close> and the stored question \<open>Item 2 b\<close> with the options
  \<open>Red\<close>, \<open>Green\<close>, \<open>Blue\<close>, \<open>Pink\<close> the four similarities are 0.75, 1, 0.75 and 0.5; the
  exact value of the sum is 0.8, which does not exceed the threshold 0.8, but the sum as
  the code rounds it is 0.8000000000000002, and the stored record is returned.
\<close>

theorem rounded_score_counterexample_C3:
  "exactSimilarity (str ''Item 1 a'') [str ''Red'', str ''Green'', str ''Blue''] itemRecord = 8 / 10
   \<and> recordSimilarity (str ''Item 1 a'') [str ''Red'', str ''Green'', str ''Blue''] itemRecord
       = 7205759403792795 / 9007199254740992
   \<and> recordSimilarity (str ''Item 1 a'') [str ''Red'', str ''Green'', str ''Blue''] itemRecord
       \<noteq> exactSimilarity (str ''Item 1 a'') [str ''Red'', str ''Green'', str ''Blue''] itemRecord
   \<and> \<not> exactSimilarity (str ''Item 1 a'') [str ''Red'', str ''Green'', str ''Blue''] itemRecord
         > 8 / 10
   \<and> findSimilarQuestion itemMemory (str ''Item 1 a'') [str ''Red'', str ''Green'', str ''Blue'']
       (double (8 / 10)) = Some itemRecord
   \<and> getConsistentAnswerSuggestion itemMemory (str ''Item 1 a'')
       [str ''Red'', str ''Green'', str ''Blue''] \<noteq> None"
proof -
  have differ: "recordSimilarity (str ''Item 1 a'') [str ''Red'', str ''Green'', str ''Blue''] itemRecord
       \<noteq> exactSimilarity (str ''Item 1 a'') [str ''Red'', str ''Green'', str ''Blue''] itemRecord"
    unfolding item_exact item_similarity by simp
  have below: "\<not> exactSimilarity (str ''Item 1 a'') [str ''Red'', str ''Green'', str ''Blue''] itemRecord
         > 8 / 10"
    unfolding item_exact by simp
  have suggested: "getConsistentAnswerSuggestion itemMemory (str ''Item 1 a'')
       [str ''Red'', str ''Green'', str ''Blue''] \<noteq> None"
    unfolding getConsistentAnswerSuggestion_def item_found by simp
  from item_exact item_similarity differ below item_found suggested show ?thesis
    by (intro conjI)
qed

text \<open>
  Claim C3, as amended. The similarity of a query to a stored record is the weighted sum
  computed in binary64 arithmetic: the text similarity (one minus the edit distance of the
  normalized texts over the greater of their lengths), the Jaccard similarity of the
  keyword sets and that of the sets of normalized options (the size of the intersection
  over the size of the union) are each rounded to a double; each is multiplied by the
  double nearest to its weight 0.4, 0.3, 0.2 and the product rounded; 1 or 0.5, for equal
  or different option counts, is multiplied by the double nearest to 0.1; and the four
  products are added from left to right, every sum rounded. A quotient with denominator 0
  is 0 here, which is what the code's guards return for two empty sets, and gives the text
  similarity 1 for two empty texts. The search returns a stored record exactly when some
  computed score exceeds the threshold, and then the first record, in the order of the
  store, whose computed score is the highest; the suggestion operation is the search with
  the double nearest to 0.8 as threshold.
\<close>

theorem similarity_search_C3:
  "recordSimilarity text opts r =
     fadd (fadd (fadd
       (fmul (double (1 - of_nat (editDistance (normalizeQuestionText text)
                                    (normalizeQuestionText (questionText r)))
                        / of_nat (max (length (normalizeQuestionText text))
                                      (length (normalizeQuestionText (questionText r))))))
          (double (4 / 10)))
       (fmul (double (of_nat (card (keywordsOf text \<inter> keywordsOf (questionText r)))
                        / of_nat (card (keywordsOf text \<union> keywordsOf (questionText r)))))
          (double (3 / 10))))
       (fmul (double (of_nat (card (set (map normalizeQuestionText opts)
                                      \<inter> set (map normalizeQuestionText (options r))))
                        / of_nat (card (set (map normalizeQuestionText opts)
                                      \<union> set (map normalizeQuestionText (options r))))))
          (double (2 / 10))))
       (fmul (if length opts = length (options r) then 1 else 1 / 2) (double (1 / 10)))
   \<and> (\<forall>q. findSimilarQuestion m text opts th = Some q \<longrightarrow>
         recordSimilarity text opts q > th
         \<and> (\<exists>pre post. objValues (questions m) = pre @ q # post
               \<and> (\<forall>r' \<in> set pre. recordSimilarity text opts r' < recordSimilarity text opts q)
               \<and> (\<forall>r' \<in> set post. recordSimilarity text opts r' \<le> recordSimilarity text opts q)))
   \<and> (findSimilarQuestion m text opts th = None \<longleftrightarrow>
         (\<forall>r' \<in> set (objValues (questions m)). recordSimilarity text opts r' \<le> th))
   \<and> (getConsistentAnswerSuggestion m text opts = None \<longleftrightarrow>
         findSimilarQuestion m text opts (double (8 / 10)) = None)
   \<and> (\<forall>q. findSimilarQuestion m text opts (double (8 / 10)) = Some q \<longrightarrow>
         (\<exists>s. getConsistentAnswerSuggestion m text opts = Some s
              \<and> suggestedAnswer s = answer q \<and> suggestedAnswerText s = answerText q
              \<and> referenceQuestionId s = questionId q
              \<and> referenceQuestionText s = questionText q))"
  using recordSimilarity_formula [of "text" "opts" r]
    findSimilarQuestion_some(1,2) [of m "text" "opts" th]
    findSimilarQuestion_none [of m "text" "opts" th] suggestion_of_find [of m "text" "opts"]
  by blast

lemma coffee_similarity:
  "recordSimilarity (str ''Do you like coffee?'') [str ''Yes'', str ''No''] coffeeRecord
     = 9007199254740991 / 9007199254740992"
  by (rule identical_components(5)) (simp_all add: coffeeRecord_def coffee_keywords)

lemma coffee_found:
  "findSimilarQuestion coffeeMemory (str ''Do you like coffee?'') [str ''Yes'', str ''No''] th
     = (if th < 9007199254740991 / 9007199254740992 then Some coffeeRecord else None)"
  by (simp add: findSimilarQuestion_def coffeeMemory_def newMemory_def objValues_def findStep_def
      Let_def coffee_similarity)

theorem similarity_search_C3_witness:
  "findSimilarQuestion coffeeMemory (str ''Do you like coffee?'') [str ''Yes'', str ''No'']
     (double (8 / 10)) = Some coffeeRecord
   \<and> objValues (questions coffeeMemory) = [] @ coffeeRecord # []
   \<and> recordSimilarity (str ''Do you like coffee?'') [str ''Yes'', str ''No''] coffeeRecord
       = 9007199254740991 / 9007199254740992
   \<and> recordSimilarity (str ''Do you like coffee?'') [str ''Yes'', str ''No''] coffeeRecord
       > double (8 / 10)
   \<and> (\<exists>s. getConsistentAnswerSuggestion coffeeMemory (str ''Do you like coffee?'')
              [str ''Yes'', str ''No''] = Some s
          \<and> suggestedAnswer s = answer coffeeRecord
          \<and> referenceQuestionId s = questionId coffeeRecord)
   \<and> findSimilarQuestion coffeeMemory (str ''Do you like coffee?'') [str ''Yes'', str ''No''] 1 = None
   \<and> recordSimilarity (str ''Do you like coffee?'') [str ''Yes'', str ''No''] coffeeRecord \<le> 1"
proof -
  have found: "findSimilarQuestion coffeeMemory (str ''Do you like coffee?'')
      [str ''Yes'', str ''No''] (double (8 / 10)) = Some coffeeRecord"
    and none: "findSimilarQuestion coffeeMemory (str ''Do you like coffee?'')
      [str ''Yes'', str ''No''] 1 = None"
    by (simp_all add: coffee_found threshold_value)
  have store: "objValues (questions coffeeMemory) = [] @ coffeeRecord # []"
    by (simp add: coffeeMemory_def newMemory_def objValues_def)
  note c = similarity_search_C3 [of "str ''Do you like coffee?''" "[str ''Yes'', str ''No'']"
      coffeeRecord coffeeMemory]
  from c [of "double (8 / 10)"] found
  have gt: "recordSimilarity (str ''Do you like coffee?'') [str ''Yes'', str ''No''] coffeeRecord
       > double (8 / 10)"
    and sug: "\<exists>s. getConsistentAnswerSuggestion coffeeMemory (str ''Do you like coffee?'')
              [str ''Yes'', str ''No''] = Some s
          \<and> suggestedAnswer s = answer coffeeRecord
          \<and> referenceQuestionId s = questionId coffeeRecord"
    by blast+
  from c [of 1] none
  have "\<forall>r' \<in> set (objValues (questions coffeeMemory)).
         recordSimilarity (str ''Do you like coffee?'') [str ''Yes'', str ''No''] r' \<le> 1"
    by blast
  then have low: "recordSimilarity (str ''Do you like coffee?'') [str ''Yes'', str ''No'']
      coffeeRecord \<le> 1"
    by (simp add: store)
  from found store coffee_similarity gt sug none low show ?thesis
    by (simp only: simp_thms)
qed






section \<open>Errors in the search\<close>

lemma findLoopRaw_corrupt:
  "\<exists>r \<in> set stored. rawQuestionText r = None \<or> rawOptions r = None \<Longrightarrow>
     findLoopRaw cf th best stored = Inl TypeError"
proof (induction stored arbitrary: best)
  case Nil
  then show ?case by simp
next
  case (Cons r rs)
  show ?case
  proof (cases "rawQuestionText r = None \<or> rawOptions r = None")
    case True
    then show ?thesis
      by (auto simp: extractQuestionFeaturesRaw_def split: option.splits)
  next
    case False
    with Cons.prems have "\<exists>r \<in> set rs. rawQuestionText r = None \<or> rawOptions r = None"
      by auto
    with Cons.IH False show ?thesis
      by (auto simp: extractQuestionFeaturesRaw_def Let_def split: option.splits)
  qed
qed

lemma findLoopRaw_well_formed:
  "\<forall>r \<in> set stored. rawQuestionText r \<noteq> None \<and> rawOptions r \<noteq> None \<Longrightarrow>
     \<exists>found. findLoopRaw cf th best stored = Inr found"
proof (induction stored arbitrary: best)
  case Nil
  then show ?case by simp
next
  case (Cons r rs)
  then show ?case
    by (auto simp: extractQuestionFeaturesRaw_def Let_def split: option.splits)
qed

text \<open>
  Claim C9, at the failing input. After an import that left one stored record without its
  array of options, the suggestion lookup of the answer consistency memory throws for
  every query: the \<open>TypeError\<close> raised while the stored record is processed reaches the
  caller. The cache of \<open>MemoryManager\<close> does what the claim says: on a record without its
  question text its lookup returns \<open>null\<close>.
\<close>

theorem suggestion_error_reaches_caller_C9:
  "findSimilarQuestionRaw (stored @ [importedRecord]) text opts th = Inl TypeError
   \<and> getConsistentAnswerSuggestionRaw (stored @ [importedRecord]) text opts = Inl TypeError
   \<and> findSimilarMemory
        (\<lparr> memDigitalPersonId = personId, memQuestionText = None, memAnswer = a \<rparr> # cache)
        personId text = None"
proof -
  have "\<exists>r \<in> set (stored @ [importedRecord]). rawQuestionText r = None \<or> rawOptions r = None"
    by (simp add: importedRecord_def)
  then have "findSimilarQuestionRaw (stored @ [importedRecord]) text opts th = Inl TypeError" for th
    unfolding findSimilarQuestionRaw_def by (rule findLoopRaw_corrupt)
  then show ?thesis
    by (simp add: getConsistentAnswerSuggestionRaw_def findSimilarMemory_def)
qed


section \<open>Properties of the fingerprint\<close>

lemma asciiLower_white: "isWhiteSpace (asciiLower c) = isWhiteSpace c"
  by (auto simp: asciiLower_def isWhiteSpace_def)

lemma asciiLower_word: "isWordChar (asciiLower c) = isWordChar c"
  by (auto simp: asciiLower_def isWordChar_def)

lemma asciiLower_lowerUnit: "lowerUnit (asciiLower c) = lowerUnit c"
  by (auto simp: asciiLower_def lowerUnit_def)

lemma dropWhile_white_lower:
  "dropWhile isWhiteSpace (map asciiLower cs) = map asciiLower (dropWhile isWhiteSpace cs)"
  by (induction cs) (auto simp: asciiLower_white)

lemma collapse_lower:
  "collapseWhitespace (map asciiLower t) = map asciiLower (collapseWhitespace t)"
proof (induction t rule: collapseWhitespace.induct)
  case 1
  then show ?case by simp
next
  case (2 c cs)
  have sp: "asciiLower 32 = 32" by (simp add: asciiLower_def)
  from 2 show ?case
    by (auto simp: asciiLower_white dropWhile_white_lower sp)
qed

lemma trim_lower: "trim (map asciiLower t) = map asciiLower (trim t)"
  by (simp add: trim_def dropWhile_white_lower rev_map)

lemma strip_lower: "stripPunctuation (map asciiLower t) = map asciiLower (stripPunctuation t)"
  by (simp add: stripPunctuation_def filter_map o_def asciiLower_white asciiLower_word)

lemma toLowerCase_lower: "toLowerCase (map asciiLower t) = toLowerCase t"
  by (simp add: toLowerCase_def o_def asciiLower_lowerUnit)

lemma normalize_lower: "normalizeQuestionText (map asciiLower t) = normalizeQuestionText t"
  by (simp add: normalizeQuestionText_def collapse_lower trim_lower strip_lower toLowerCase_lower)

lemma normalize_case_insensitive:
  "map asciiLower t1 = map asciiLower t2 \<Longrightarrow> normalizeQuestionText t1 = normalizeQuestionText t2"
  using normalize_lower [of t1] normalize_lower [of t2] by simp

lemma dropWhile_keep:
  "\<not> P y \<Longrightarrow> dropWhile P (xs @ y # ys) = dropWhile P xs @ y # ys"
  by (induction xs) auto

lemma dropWhile_keep_last:
  "\<not> P y \<Longrightarrow> dropWhile P (xs @ [y]) = dropWhile P xs @ [y]"
  by (induction xs) auto

lemma dropWhile_all: "\<forall>x \<in> set s. P x \<Longrightarrow> dropWhile P s = []"
  by (induction s) auto

lemma dropWhile_all_append: "\<forall>x \<in> set s. P x \<Longrightarrow> dropWhile P (s @ r) = dropWhile P r"
  by (induction s) auto

lemma collapse_split:
  "\<not> isWhiteSpace x \<Longrightarrow>
     collapseWhitespace (a @ x # b) = collapseWhitespace a @ x # collapseWhitespace b"
proof (induction a rule: collapseWhitespace.induct)
  case 1
  then show ?case by simp
next
  case (2 c cs)
  then show ?case by (simp add: dropWhile_keep)
qed

lemma collapse_run:
  assumes "u \<noteq> []" "v \<noteq> []" "\<forall>c \<in> set u. isWhiteSpace c" "\<forall>c \<in> set v. isWhiteSpace c"
  shows "collapseWhitespace (a @ u @ b) = collapseWhitespace (a @ v @ b)"
proof (induction a rule: collapseWhitespace.induct)
  case 1
  from assms obtain c u' d v' where u: "u = c # u'" and v: "v = d # v'"
    by (cases u; cases v) auto
  from assms u v show ?case by simp
next
  case (2 c cs)
  show ?case
  proof (cases "isWhiteSpace c")
    case False
    with 2 show ?thesis by simp
  next
    case True
    show ?thesis
    proof (cases "\<forall>x \<in> set cs. isWhiteSpace x")
      case all: True
      with assms have "dropWhile isWhiteSpace (cs @ u @ b) = dropWhile isWhiteSpace b"
        and "dropWhile isWhiteSpace (cs @ v @ b) = dropWhile isWhiteSpace b"
        by simp_all
      with True show ?thesis by simp
    next
      case some: False
      then obtain x where "x \<in> set cs" "\<not> isWhiteSpace x" by blast
      then have "dropWhile isWhiteSpace (cs @ u @ b) = dropWhile isWhiteSpace cs @ u @ b"
        and "dropWhile isWhiteSpace (cs @ v @ b) = dropWhile isWhiteSpace cs @ v @ b"
        by (simp_all add: dropWhile_append1)
      with True "2.IH"(1) show ?thesis by simp
    qed
  qed
qed

lemma trim_leading: "isWhiteSpace c \<Longrightarrow> trim (c # s) = trim s"
  by (simp add: trim_def)

lemma trim_collapse_dropWhile:
  "trim (collapseWhitespace (dropWhile isWhiteSpace t)) = trim (collapseWhitespace t)"
proof (cases t)
  case Nil
  then show ?thesis by simp
next
  case (Cons d ds)
  have sp: "isWhiteSpace 32" by (simp add: isWhiteSpace_def)
  show ?thesis
    unfolding Cons using sp by (simp add: trim_leading)
qed

lemma trim_collapse_leading:
  assumes "\<forall>c \<in> set u. isWhiteSpace c"
  shows "trim (collapseWhitespace (u @ t)) = trim (collapseWhitespace t)"
proof (cases u)
  case Nil
  then show ?thesis by simp
next
  case (Cons c u')
  have sp: "isWhiteSpace 32" by (simp add: isWhiteSpace_def)
  from assms Cons have "collapseWhitespace (u @ t) = 32 # collapseWhitespace (dropWhile isWhiteSpace t)"
    by simp
  with sp show ?thesis
    by (simp add: trim_leading trim_collapse_dropWhile)
qed

lemma trim_trailing_space: "trim (s @ [32]) = trim s"
proof (cases "\<forall>x \<in> set s. isWhiteSpace x")
  case True
  have sp: "isWhiteSpace 32" by (simp add: isWhiteSpace_def)
  from True have d1: "dropWhile isWhiteSpace s = []"
    by (rule dropWhile_all)
  from True have "dropWhile isWhiteSpace (s @ [32]) = dropWhile isWhiteSpace [32]"
    by (rule dropWhile_all_append)
  with sp have d2: "dropWhile isWhiteSpace (s @ [32]) = []" by simp
  show ?thesis unfolding trim_def d1 d2 by simp
next
  case False
  have sp: "isWhiteSpace 32" by (simp add: isWhiteSpace_def)
  from False obtain x where "x \<in> set s" "\<not> isWhiteSpace x" by blast
  then have "dropWhile isWhiteSpace (s @ [32]) = dropWhile isWhiteSpace s @ [32]"
    by (simp add: dropWhile_append1)
  with sp show ?thesis by (simp add: trim_def)
qed

lemma collapse_trailing_space:
  "collapseWhitespace (t @ [32]) = collapseWhitespace t
   \<or> collapseWhitespace (t @ [32]) = collapseWhitespace t @ [32]"
proof (induction t rule: collapseWhitespace.induct)
  case 1
  have sp: "isWhiteSpace 32" by (simp add: isWhiteSpace_def)
  then show ?case by simp
next
  case (2 c cs)
  have sp: "isWhiteSpace 32" by (simp add: isWhiteSpace_def)
  show ?case
  proof (cases "isWhiteSpace c")
    case False
    with 2 show ?thesis by auto
  next
    case True
    show ?thesis
    proof (cases "\<forall>x \<in> set cs. isWhiteSpace x")
      case all: True
      from all have d1: "dropWhile isWhiteSpace cs = []"
        by (rule dropWhile_all)
      from all have "dropWhile isWhiteSpace (cs @ [32]) = dropWhile isWhiteSpace [32]"
        by (rule dropWhile_all_append)
      with sp have d2: "dropWhile isWhiteSpace (cs @ [32]) = []" by simp
      have "collapseWhitespace ((c # cs) @ [32]) = collapseWhitespace (c # cs)"
        using True by (simp add: d1 d2 del: dropWhile_append)
      then show ?thesis by blast
    next
      case some: False
      then obtain x where "x \<in> set cs" "\<not> isWhiteSpace x" by blast
      then have "dropWhile isWhiteSpace (cs @ [32]) = dropWhile isWhiteSpace cs @ [32]"
        by (simp add: dropWhile_append1)
      with True "2.IH"(1) show ?thesis by auto
    qed
  qed
qed

lemma trim_collapse_trailing:
  assumes "\<forall>c \<in> set v. isWhiteSpace c"
  shows "trim (collapseWhitespace (t @ v)) = trim (collapseWhitespace t)"
proof (cases "v = []")
  case True
  then show ?thesis by simp
next
  case False
  have sp: "\<forall>c \<in> set [32]. isWhiteSpace c" by (simp add: isWhiteSpace_def)
  from collapse_run [OF False _ assms sp, of t "[]"]
  have "collapseWhitespace (t @ v) = collapseWhitespace (t @ [32])" by simp
  with collapse_trailing_space [of t] show ?thesis
    by (auto simp: trim_trailing_space)
qed

lemma normalize_run:
  "u \<noteq> [] \<Longrightarrow> v \<noteq> [] \<Longrightarrow> \<forall>c \<in> set u. isWhiteSpace c \<Longrightarrow> \<forall>c \<in> set v. isWhiteSpace c \<Longrightarrow>
     normalizeQuestionText (a @ u @ b) = normalizeQuestionText (a @ v @ b)"
  by (simp add: normalizeQuestionText_def collapse_run [of u v a b])

lemma normalize_ends:
  "\<forall>c \<in> set u. isWhiteSpace c \<Longrightarrow> \<forall>c \<in> set v. isWhiteSpace c \<Longrightarrow>
     normalizeQuestionText (u @ t @ v) = normalizeQuestionText t"
  using trim_collapse_leading [of u "t @ v"] trim_collapse_trailing [of v t]
  by (simp add: normalizeQuestionText_def)

text \<open>Trimming around a character that is not white space.\<close>

lemma trim_around:
  "\<not> isWhiteSpace x \<Longrightarrow>
     trim (a @ x # r) = dropWhile isWhiteSpace a @ x # rev (dropWhile isWhiteSpace (rev r))"
  by (simp add: trim_def dropWhile_keep)

lemma trim_end_keep:
  "\<not> isWhiteSpace y \<Longrightarrow>
     rev (dropWhile isWhiteSpace (rev (y # r))) = y # rev (dropWhile isWhiteSpace (rev r))"
  using dropWhile_keep [of isWhiteSpace y "rev r" "[]"] by simp

lemma strip_punctuation_char:
  "isPunctuation p \<Longrightarrow> stripPunctuation (a @ p # b) = stripPunctuation (a @ b)"
  by (simp add: stripPunctuation_def isPunctuation_def)

lemma normalize_punctuation_after:
  assumes "\<not> isWhiteSpace x" "isPunctuation p"
  shows "normalizeQuestionText (a @ x # p # b) = normalizeQuestionText (a @ x # b)"
proof -
  from assms(2) have np: "\<not> isWhiteSpace p" by (simp add: isPunctuation_def)
  let ?A = "collapseWhitespace a" and ?B = "collapseWhitespace b"
  have c1: "collapseWhitespace (a @ x # p # b) = ?A @ x # p # ?B"
    using assms(1) np collapse_split [of x a "p # b"] by simp
  have c2: "collapseWhitespace (a @ x # b) = ?A @ x # ?B"
    using assms(1) by (rule collapse_split)
  have t1: "trim (?A @ x # p # ?B)
      = (dropWhile isWhiteSpace ?A @ [x]) @ p # rev (dropWhile isWhiteSpace (rev ?B))"
    using assms(1) np by (simp add: trim_around dropWhile_keep_last)
  have t2: "trim (?A @ x # ?B)
      = (dropWhile isWhiteSpace ?A @ [x]) @ rev (dropWhile isWhiteSpace (rev ?B))"
    using assms(1) by (simp add: trim_around)
  show ?thesis
    unfolding normalizeQuestionText_def c1 c2 t1 t2
    using assms(2) by (simp only: strip_punctuation_char)
qed

lemma normalize_punctuation_before:
  assumes "\<not> isWhiteSpace x" "isPunctuation p"
  shows "normalizeQuestionText (a @ p # x # b) = normalizeQuestionText (a @ x # b)"
proof -
  from assms(2) have np: "\<not> isWhiteSpace p" by (simp add: isPunctuation_def)
  let ?A = "collapseWhitespace a" and ?B = "collapseWhitespace b"
  have c1: "collapseWhitespace (a @ p # x # b) = ?A @ p # x # ?B"
    using assms(1) np collapse_split [of p a "x # b"] by simp
  have c2: "collapseWhitespace (a @ x # b) = ?A @ x # ?B"
    using assms(1) by (rule collapse_split)
  have t1: "trim (?A @ p # x # ?B)
      = dropWhile isWhiteSpace ?A @ p # (x # rev (dropWhile isWhiteSpace (rev ?B)))"
    using assms(1) np by (simp add: trim_around dropWhile_keep_last)
  have t2: "trim (?A @ x # ?B)
      = dropWhile isWhiteSpace ?A @ (x # rev (dropWhile isWhiteSpace (rev ?B)))"
    using assms(1) by (simp add: trim_around)
  show ?thesis
    unfolding normalizeQuestionText_def c1 c2 t1 t2
    using assms(2) by (simp only: strip_punctuation_char)
qed

lemmas normalize_eval = normalizeQuestionText_def str_def isWhiteSpace_def trim_def
  stripPunctuation_def isWordChar_def toLowerCase_def lowerUnit_def

lemma rate1: "normalizeQuestionText (str ''Rate us !'') = str ''rate us ''"
  by (simp add: normalize_eval)

lemma rate2: "normalizeQuestionText (str ''Rate us!'') = str ''rate us''"
  by (simp add: normalize_eval)

text \<open>
  Claim C6 does not hold of the code. \<open>normalizeQuestionText\<close> collapses and trims the
  white space first and deletes the punctuation afterwards, so white space that a
  punctuation character kept away from the end of the text, or from other white space,
  stays in the normalized text. The texts \<open>Rate us !\<close> and \<open>Rate us!\<close> differ in white
  space only, but the first is normalized to \<open>rate us \<close> with a trailing space and the
  second to \<open>rate us\<close>. The digest is then taken of two different strings, and a digest
  that tells them apart gives two fingerprints.
\<close>

theorem fingerprint_unstable_C6:
  "normalizeQuestionText (str ''Rate us !'') = str ''rate us ''
   \<and> normalizeQuestionText (str ''Rate us!'') = str ''rate us''
   \<and> \<not> (\<forall>md5hex. generateQuestionId md5hex (str ''Rate us !'') (str ''https://s.example/q'')
                   = generateQuestionId md5hex (str ''Rate us!'') (str ''https://s.example/q''))"
proof -
  have "generateQuestionId rev (str ''Rate us !'') (str ''https://s.example/q'')
      \<noteq> generateQuestionId rev (str ''Rate us!'') (str ''https://s.example/q'')"
    unfolding generateQuestionId_def rate1 rate2 by (simp add: str_def)
  then show ?thesis using rate1 rate2 by blast
qed


text \<open>
  Where the fingerprint is stable. It is a function of the page URL and of the normalized
  question text. For the same page URL, two texts get the same fingerprint when they
  differ only in the case of letters (shown here for the letters A to Z), in the
  white-space runs between their words (any run for any other) or at their ends, or in a
  punctuation character that stands directly after or before a character that is not
  white space.
\<close>

lemma fingerprint_stable:
  "(normalizeQuestionText t1 = normalizeQuestionText t2 \<longrightarrow>
      generateQuestionId md5hex t1 url = generateQuestionId md5hex t2 url)
   \<and> (map asciiLower t1 = map asciiLower t2 \<longrightarrow>
      generateQuestionId md5hex t1 url = generateQuestionId md5hex t2 url)
   \<and> (u \<noteq> [] \<and> v \<noteq> [] \<and> (\<forall>c \<in> set u. isWhiteSpace c) \<and> (\<forall>c \<in> set v. isWhiteSpace c) \<longrightarrow>
      generateQuestionId md5hex (a @ u @ b) url = generateQuestionId md5hex (a @ v @ b) url)
   \<and> ((\<forall>c \<in> set u. isWhiteSpace c) \<and> (\<forall>c \<in> set v. isWhiteSpace c) \<longrightarrow>
      generateQuestionId md5hex (u @ t1 @ v) url = generateQuestionId md5hex t1 url)
   \<and> (\<not> isWhiteSpace x \<and> isPunctuation p \<longrightarrow>
      generateQuestionId md5hex (a @ x # p # b) url = generateQuestionId md5hex (a @ x # b) url
      \<and> generateQuestionId md5hex (a @ p # x # b) url = generateQuestionId md5hex (a @ x # b) url)"
proof (intro conjI impI)
  assume "normalizeQuestionText t1 = normalizeQuestionText t2"
  then show "generateQuestionId md5hex t1 url = generateQuestionId md5hex t2 url"
    by (simp add: generateQuestionId_def)
next
  assume "map asciiLower t1 = map asciiLower t2"
  then have "normalizeQuestionText t1 = normalizeQuestionText t2"
    by (rule normalize_case_insensitive)
  then show "generateQuestionId md5hex t1 url = generateQuestionId md5hex t2 url"
    by (simp add: generateQuestionId_def)
next
  assume "u \<noteq> [] \<and> v \<noteq> [] \<and> (\<forall>c \<in> set u. isWhiteSpace c) \<and> (\<forall>c \<in> set v. isWhiteSpace c)"
  then have "normalizeQuestionText (a @ u @ b) = normalizeQuestionText (a @ v @ b)"
    using normalize_run by blast
  then show "generateQuestionId md5hex (a @ u @ b) url = generateQuestionId md5hex (a @ v @ b) url"
    by (simp only: generateQuestionId_def)
next
  assume "(\<forall>c \<in> set u. isWhiteSpace c) \<and> (\<forall>c \<in> set v. isWhiteSpace c)"
  then have "normalizeQuestionText (u @ t1 @ v) = normalizeQuestionText t1"
    using normalize_ends by blast
  then show "generateQuestionId md5hex (u @ t1 @ v) url = generateQuestionId md5hex t1 url"
    by (simp only: generateQuestionId_def)
next
  assume h: "\<not> isWhiteSpace x \<and> isPunctuation p"
  then have "normalizeQuestionText (a @ x # p # b) = normalizeQuestionText (a @ x # b)"
    using normalize_punctuation_after by blast
  then show "generateQuestionId md5hex (a @ x # p # b) url = generateQuestionId md5hex (a @ x # b) url"
    by (simp only: generateQuestionId_def)
  from h have "normalizeQuestionText (a @ p # x # b) = normalizeQuestionText (a @ x # b)"
    using normalize_punctuation_before by blast
  then show "generateQuestionId md5hex (a @ p # x # b) url = generateQuestionId md5hex (a @ x # b) url"
    by (simp only: generateQuestionId_def)
qed

lemma fingerprint_stable_example:
  "\<forall>md5hex url.
     generateQuestionId md5hex (str ''RATE us'') url = generateQuestionId md5hex (str ''rate Us'') url
     \<and> generateQuestionId md5hex (str '' Rate   us '') url = generateQuestionId md5hex (str ''Rate us'') url
     \<and> generateQuestionId md5hex (str ''Rate us!'') url = generateQuestionId md5hex (str ''Rate us'') url
     \<and> generateQuestionId md5hex (str ''Rate (us)'') url = generateQuestionId md5hex (str ''Rate us'') url"
proof (intro allI)
  fix md5hex :: "jsstring \<Rightarrow> jsstring" and url :: jsstring
  have lower: "map asciiLower (str ''RATE us'') = map asciiLower (str ''rate Us'')"
    by (simp add: str_def asciiLower_def)
  have c: "generateQuestionId md5hex (str ''RATE us'') url
      = generateQuestionId md5hex (str ''rate Us'') url"
    by (rule fingerprint_stable [of "str ''RATE us''" "str ''rate Us''" md5hex url "[]" "[]" "[]" "[]" 0 0,
          THEN conjunct2, THEN conjunct1, THEN mp]) (rule lower)
  have ends: "(\<forall>c \<in> set [32]. isWhiteSpace c) \<and> (\<forall>c \<in> set [32]. isWhiteSpace c)"
    by (simp add: isWhiteSpace_def)
  have w1: "generateQuestionId md5hex ([32] @ str ''Rate   us'' @ [32]) url
      = generateQuestionId md5hex (str ''Rate   us'') url"
    by (rule fingerprint_stable [of "str ''Rate   us''" "[]" md5hex url "[32]" "[32]" "[]" "[]" 0 0,
          THEN conjunct2, THEN conjunct2, THEN conjunct2, THEN conjunct1, THEN mp]) (rule ends)
  have runs: "[32, 32, 32] \<noteq> [] \<and> [32] \<noteq> [] \<and> (\<forall>c \<in> set [32, 32, 32]. isWhiteSpace c)
      \<and> (\<forall>c \<in> set [32]. isWhiteSpace c)"
    by (simp add: isWhiteSpace_def)
  have w2: "generateQuestionId md5hex (str ''Rate'' @ [32, 32, 32] @ str ''us'') url
      = generateQuestionId md5hex (str ''Rate'' @ [32] @ str ''us'') url"
    by (rule fingerprint_stable [of "[]" "[]" md5hex url "[32, 32, 32]" "[32]" "str ''Rate''" "str ''us''" 0 0,
          THEN conjunct2, THEN conjunct2, THEN conjunct1, THEN mp]) (rule runs)
  have e1: "str '' Rate   us '' = [32] @ str ''Rate   us'' @ [32]"
    and e2: "str ''Rate   us'' = str ''Rate'' @ [32, 32, 32] @ str ''us''"
    and e3: "str ''Rate'' @ [32] @ str ''us'' = str ''Rate us''"
    by (simp_all add: str_def)
  have w: "generateQuestionId md5hex (str '' Rate   us '') url
      = generateQuestionId md5hex (str ''Rate us'') url"
    using w1 w2 unfolding e1 e2 e3 by (rule trans)
  have s33: "\<not> isWhiteSpace 115 \<and> isPunctuation 33"
    and u40: "\<not> isWhiteSpace 117 \<and> isPunctuation 40"
    and s41: "\<not> isWhiteSpace 115 \<and> isPunctuation 41"
    by (simp_all add: isPunctuation_def isWordChar_def isWhiteSpace_def)
  have p1: "generateQuestionId md5hex (str ''Rate u'' @ 115 # 33 # []) url
      = generateQuestionId md5hex (str ''Rate u'' @ 115 # []) url"
    by (rule fingerprint_stable [of "[]" "[]" md5hex url "[]" "[]" "str ''Rate u''" "[]" 115 33,
          THEN conjunct2, THEN conjunct2, THEN conjunct2, THEN conjunct2, THEN mp, THEN conjunct1])
      (rule s33)
  have p2: "generateQuestionId md5hex (str ''Rate '' @ 40 # 117 # str ''s)'') url
      = generateQuestionId md5hex (str ''Rate '' @ 117 # str ''s)'') url"
    by (rule fingerprint_stable [of "[]" "[]" md5hex url "[]" "[]" "str ''Rate ''" "str ''s)''" 117 40,
          THEN conjunct2, THEN conjunct2, THEN conjunct2, THEN conjunct2, THEN mp, THEN conjunct2])
      (rule u40)
  have p3: "generateQuestionId md5hex (str ''Rate u'' @ 115 # 41 # []) url
      = generateQuestionId md5hex (str ''Rate u'' @ 115 # []) url"
    by (rule fingerprint_stable [of "[]" "[]" md5hex url "[]" "[]" "str ''Rate u''" "[]" 115 41,
          THEN conjunct2, THEN conjunct2, THEN conjunct2, THEN conjunct2, THEN mp, THEN conjunct1])
      (rule s41)
  have e4: "str ''Rate u'' @ 115 # 33 # [] = str ''Rate us!''"
    and e5: "str ''Rate u'' @ 115 # [] = str ''Rate us''"
    and e6: "str ''Rate '' @ 40 # 117 # str ''s)'' = str ''Rate (us)''"
    and e7: "str ''Rate '' @ 117 # str ''s)'' = str ''Rate u'' @ 115 # 41 # []"
    by (simp_all add: str_def)
  have e: "generateQuestionId md5hex (str ''Rate us!'') url
      = generateQuestionId md5hex (str ''Rate us'') url"
    using p1 unfolding e4 e5 .
  have b: "generateQuestionId md5hex (str ''Rate (us)'') url
      = generateQuestionId md5hex (str ''Rate us'') url"
    using p2 p3 unfolding e7 unfolding e6 e5 by (rule trans)
  from c w e b
  show "generateQuestionId md5hex (str ''RATE us'') url = generateQuestionId md5hex (str ''rate Us'') url
     \<and> generateQuestionId md5hex (str '' Rate   us '') url = generateQuestionId md5hex (str ''Rate us'') url
     \<and> generateQuestionId md5hex (str ''Rate us!'') url = generateQuestionId md5hex (str ''Rate us'') url
     \<and> generateQuestionId md5hex (str ''Rate (us)'') url = generateQuestionId md5hex (str ''Rate us'') url"
    by (intro conjI)
qed


section \<open>Properties of the cleanup\<close>

lemma catchPhase_normal: "catchPhase key ph (None, w) = (None, w)"
  by (simp add: catchPhase_def)

lemma phases_return:
  "fst (phase1StopMonitoring w) = None" "fst (phase2CleanupStagehand w) = None"
  "fst (phase3CleanupMemory w) = None" "fst (phase4CleanupAdsPower w) = None"
  "fst (phase5CleanupProxy w) = None" "fst (phase6CleanupThreads w) = None"
  by (simp_all add: phase1StopMonitoring_def phase2CleanupStagehand_def phase3CleanupMemory_def
      phase4CleanupAdsPower_def phase5CleanupProxy_def phase6CleanupThreads_def
      catchPhase_normal Let_def split: prod.splits)

lemma andThen_phase: "fst r = None \<Longrightarrow> andThen r f = f (snd r)"
  by (simp add: andThen_def)

lemma runPhases_steps:
  "runPhases w =
     phase6CleanupThreads (snd (phase5CleanupProxy (snd (phase4CleanupAdsPower
       (snd (phase3CleanupMemory (snd (phase2CleanupStagehand (snd (phase1StopMonitoring w))))))))))"
  by (simp add: runPhases_def andThen_phase phases_return)

lemma runPhases_return: "fst (runPhases w) = None"
  by (simp add: runPhases_steps phases_return)

lemma execute_report:
  "success (fst (executeComprehensiveCleanup w reason t0 t1))"
  "errors (fst (executeComprehensiveCleanup w reason t0 t1)) = []"
  by (simp_all add: executeComprehensiveCleanup_def runPhases_return Let_def)

lemma execute_world:
  "snd (executeComprehensiveCleanup w reason t0 t1)
     = (snd (runPhases (w\<lparr>cleanupStartTime := t0\<rparr>)))\<lparr>currentPhase := COMPLETED\<rparr>"
  by (simp add: executeComprehensiveCleanup_def runPhases_return Let_def)

lemma objGet_mapDelete: "objGet (mapDelete m k) k = None"
  by (induction m) (auto simp: objGet_def mapDelete_def)

lemma objHas_mapDelete: "\<not> objHas (mapDelete m k) k"
  by (auto simp: objHas_def mapDelete_def)

lemmas released_defs = stagehandReleased_def memoryReleased_def browserReleased_def
  proxyReleased_def threadsReleased_def

lemmas phase_unfold = catchPhase_normal putReport_def clearInterval_def pause_def Let_def

text \<open>What each phase establishes, given what the phases before it have established.\<close>

lemma phase2_releases: "stagehandReleased (snd (phase2CleanupStagehand w))"
  by (simp add: phase2CleanupStagehand_def stagehandReleased_def phase_unfold
      split: prod.splits option.splits)

lemma phase3_releases:
  assumes "stagehandReleased w"
  shows "stagehandReleased (snd (phase3CleanupMemory w)) \<and> memoryReleased (snd (phase3CleanupMemory w))"
  using assms
  by (simp add: phase3CleanupMemory_def released_defs phase_unfold cleanupMemory_def
      saveMemoryToDisk_def split: prod.splits option.splits)

lemma phase4_releases:
  assumes "stagehandReleased w" "memoryReleased w"
  shows "stagehandReleased (snd (phase4CleanupAdsPower w))
    \<and> memoryReleased (snd (phase4CleanupAdsPower w))
    \<and> browserReleased (snd (phase4CleanupAdsPower w))"
  using assms
  by (auto simp: phase4CleanupAdsPower_def released_defs phase_unfold cleanupBrowser_def
      objGet_mapDelete split: prod.splits option.splits)

lemma phase5_releases:
  assumes "stagehandReleased w" "memoryReleased w" "browserReleased w"
  shows "stagehandReleased (snd (phase5CleanupProxy w))
    \<and> memoryReleased (snd (phase5CleanupProxy w))
    \<and> browserReleased (snd (phase5CleanupProxy w))
    \<and> proxyReleased (snd (phase5CleanupProxy w))"
  using assms
  by (auto simp: phase5CleanupProxy_def released_defs phase_unfold releaseProxy_def
      objHas_mapDelete split: prod.splits option.splits)

lemma phase6_releases:
  assumes "stagehandReleased w" "memoryReleased w" "browserReleased w" "proxyReleased w"
  shows "released (snd (phase6CleanupThreads w))"
  using assms
  by (simp add: phase6CleanupThreads_def released_def released_defs phase_unfold
      split: prod.splits option.splits)

lemma runPhases_releases: "released (snd (runPhases w))"
  unfolding runPhases_steps
  using phase2_releases phase3_releases phase4_releases phase5_releases phase6_releases
  by blast

lemma released_outside: "outside w' = outside w \<Longrightarrow> released w' = released w"
  by (simp add: outside_def released_def released_defs)

lemma outside_phase_field: "outside (w\<lparr>currentPhase := ph\<rparr>) = outside w"
  "outside (w\<lparr>cleanupStartTime := t\<rparr>) = outside w"
  by (simp_all add: outside_def)

lemma execute_releases: "released (snd (executeComprehensiveCleanup w reason t0 t1))"
  using runPhases_releases released_outside outside_phase_field(1) execute_world by metis

text \<open>On a released session every phase only writes its report.\<close>

lemma stop_flag_set: "monitorStopFlag s = Some True \<Longrightarrow> s\<lparr>monitorStopFlag := Some True\<rparr> = s"
  by (cases s) simp

lemma phase1_released: "released w \<Longrightarrow> outside (snd (phase1StopMonitoring w)) = outside w"
  by (simp add: phase1StopMonitoring_def released_def released_defs phase_unfold outside_def)

lemma phase2_released: "released w \<Longrightarrow> outside (snd (phase2CleanupStagehand w)) = outside w"
  by (simp add: phase2CleanupStagehand_def released_def released_defs phase_unfold outside_def)

lemma phase3_released: "released w \<Longrightarrow> outside (snd (phase3CleanupMemory w)) = outside w"
  by (simp add: phase3CleanupMemory_def released_def released_defs phase_unfold outside_def)

lemma phase4_released: "released w \<Longrightarrow> outside (snd (phase4CleanupAdsPower w)) = outside w"
  by (simp add: phase4CleanupAdsPower_def released_def released_defs phase_unfold outside_def
      cleanupBrowser_def split: if_splits)

lemma phase5_released: "released w \<Longrightarrow> outside (snd (phase5CleanupProxy w)) = outside w"
  by (simp add: phase5CleanupProxy_def released_def released_defs phase_unfold outside_def
      releaseProxy_def split: if_splits)

lemma phase6_released: "released w \<Longrightarrow> outside (snd (phase6CleanupThreads w)) = outside w"
  by (simp add: phase6CleanupThreads_def released_def released_defs phase_unfold outside_def
      stop_flag_set)

lemma runPhases_released:
  assumes "released w"
  shows "outside (snd (runPhases w)) = outside w"
proof -
  let ?w1 = "snd (phase1StopMonitoring w)"
  let ?w2 = "snd (phase2CleanupStagehand ?w1)"
  let ?w3 = "snd (phase3CleanupMemory ?w2)"
  let ?w4 = "snd (phase4CleanupAdsPower ?w3)"
  let ?w5 = "snd (phase5CleanupProxy ?w4)"
  have o1: "outside ?w1 = outside w" using assms by (rule phase1_released)
  then have r1: "released ?w1" using assms released_outside by blast
  have o2: "outside ?w2 = outside ?w1" using r1 by (rule phase2_released)
  then have r2: "released ?w2" using r1 released_outside by blast
  have o3: "outside ?w3 = outside ?w2" using r2 by (rule phase3_released)
  then have r3: "released ?w3" using r2 released_outside by blast
  have o4: "outside ?w4 = outside ?w3" using r3 by (rule phase4_released)
  then have r4: "released ?w4" using r3 released_outside by blast
  have o5: "outside ?w5 = outside ?w4" using r4 by (rule phase5_released)
  then have r5: "released ?w5" using r4 released_outside by blast
  have o6: "outside (snd (phase6CleanupThreads ?w5)) = outside ?w5"
    using r5 by (rule phase6_released)
  show ?thesis
    unfolding runPhases_steps using o1 o2 o3 o4 o5 o6 by (simp only:)
qed

lemma execute_released:
  assumes "released w"
  shows "outside (snd (executeComprehensiveCleanup w reason t0 t1)) = outside w"
proof -
  have "released (w\<lparr>cleanupStartTime := t0\<rparr>)"
    using assms released_outside outside_phase_field(2) by blast
  then have "outside (snd (runPhases (w\<lparr>cleanupStartTime := t0\<rparr>))) = outside w"
    using runPhases_released outside_phase_field(2) by metis
  then show ?thesis
    by (simp only: execute_world outside_phase_field)
qed

text \<open>The first cleanup of the example session: what leaves the process, and what is left.\<close>

lemma cleanup_example:
  "effects (snd (executeComprehensiveCleanup exampleWorld [] 0 9))
     = [ClearInterval 7, ContextClose, BrowserStopRequest (str ''p1''),
        BrowserDeleteRequest (str ''p1''), ClearInterval 7]"
  "activeBrowsers (snd (executeComprehensiveCleanup exampleWorld [] 0 9)) = []"
  "allocatedProxies (snd (executeComprehensiveCleanup exampleWorld [] 0 9)) = []"
  "resourceMaps (snd (executeComprehensiveCleanup exampleWorld [] 0 9)) = [(0, [])]"
  "enginePaused (snd (executeComprehensiveCleanup exampleWorld [] 0 9))"
  "phasesCompleted (fst (executeComprehensiveCleanup exampleWorld [] 0 9)) = 6"
  by (simp_all add: executeComprehensiveCleanup_def runPhases_def andThen_def
      phase1StopMonitoring_def phase2CleanupStagehand_def phase3CleanupMemory_def
      phase4CleanupAdsPower_def phase5CleanupProxy_def phase6CleanupThreads_def
      catchPhase_def putReport_def clearInterval_def pause_def closeOwnContext_def
      cleanupBrowser_def releaseProxy_def cleanupMemory_def saveMemoryToDisk_def
      mapDelete_def objGet_def objHas_def objKeys_def truthy_def exampleWorld_def str_def
      Let_def)

text \<open>
  Claim C4. No phase lets an exception out, so the outer \<^verbatim>\<open>catch\<close> is never entered:
  every call of the cleanup returns a report with \<open>success: true\<close> and no errors. After a
  call the session is released, and a second call on it returns such a report again and
  changes nothing outside the cleanup manager's own fields (phase reports, current phase,
  start time): the session data, the engine, the browser and proxy tables, the persona
  memory, the resource maps and the log of external calls are as the first call left them.
\<close>

theorem cleanup_idempotent_C4:
  "fst (runPhases w) = None
   \<and> success (fst (executeComprehensiveCleanup w reason t0 t1))
   \<and> errors (fst (executeComprehensiveCleanup w reason t0 t1)) = []
   \<and> released (snd (executeComprehensiveCleanup w reason t0 t1))
   \<and> success (fst (executeComprehensiveCleanup
        (snd (executeComprehensiveCleanup w reason t0 t1)) reason' t2 t3))
   \<and> errors (fst (executeComprehensiveCleanup
        (snd (executeComprehensiveCleanup w reason t0 t1)) reason' t2 t3)) = []
   \<and> outside (snd (executeComprehensiveCleanup
        (snd (executeComprehensiveCleanup w reason t0 t1)) reason' t2 t3))
     = outside (snd (executeComprehensiveCleanup w reason t0 t1))"
  using runPhases_return execute_report execute_releases execute_released by blast


section \<open>Properties of the window monitor\<close>

lemma execute_stop_flag:
  "monitorStopFlag (sessionData (snd (executeComprehensiveCleanup w reason t0 t1))) = Some True"
  using execute_releases [of w reason t0 t1] by (simp add: released_def threadsReleased_def)

lemma stopMonitoringTimer_frame:
  "cleanupCalls (stopMonitoringTimer m) = cleanupCalls m"
  "activeSessions (stopMonitoringTimer m) = activeSessions m"
  "statusLog (stopMonitoringTimer m) = statusLog m"
  "monitorSessionId (session (stopMonitoringTimer m)) = monitorSessionId (session m)"
  by (simp_all add: stopMonitoringTimer_def Let_def split: option.splits)

lemma handleWindowClosed_effect:
  "cleanupCalls (handleWindowClosed t0 t1 m) = cleanupCalls m + 1"
  "statusLog (handleWindowClosed t0 t1 m) = statusLog m @ [CLEANUP_IN_PROGRESS, CLEANUP_COMPLETED]"
  "activeSessions (handleWindowClosed t0 t1 m)
     = removeAll (monitorSessionId (session m)) (activeSessions m)"
  "monitorSessionId (session (handleWindowClosed t0 t1 m)) = monitorSessionId (session m)"
  "monitorStopFlag (sessionData (env (handleWindowClosed t0 t1 m))) = Some True"
  by (simp_all add: handleWindowClosed_def Let_def split_beta setStatus_def
      stopMonitoringTimer_frame execute_report execute_stop_flag)

lemma windowClosed_effect:
  assumes "enableAutoCleanup config"
  shows "cleanupCalls (windowClosed config p m) = cleanupCalls m + 1"
    "statusLog (windowClosed config p m)
       = statusLog m @ [WINDOW_CLOSED, CLEANUP_IN_PROGRESS, CLEANUP_COMPLETED]"
    "activeSessions (windowClosed config p m)
       = removeAll (monitorSessionId (session m)) (activeSessions m)"
    "monitorSessionId (session (windowClosed config p m)) = monitorSessionId (session m)"
    "monitorStopFlag (sessionData (env (windowClosed config p m))) = Some True"
  using assms
  by (simp_all add: windowClosed_def Let_def handleWindowClosed_effect setStatus_def)

text \<open>The three kinds of poll of a session that has not been stopped.\<close>

lemma poll_active:
  assumes "\<not> stopFlag (session m)" "monitorStopFlag (sessionData (env m)) \<noteq> Some True"
    and "checkAdsPowerWindowStatus (monitorProfileId (session m)) (pollOutcome p) = Inr False"
  shows "performWindowCheck config m p
     = m\<lparr>session := (session m)\<lparr>checkCount := checkCount (session m) + 1,
                                  lastCheckTime := pollNow p, errorCount := 0\<rparr>\<rparr>"
  using assms by (simp add: performWindowCheck_def stopRequested_def checkBefore_def checkAfter_def Let_def)

lemma poll_closed:
  assumes "\<not> stopFlag (session m)" "monitorStopFlag (sessionData (env m)) \<noteq> Some True"
    and "checkAdsPowerWindowStatus (monitorProfileId (session m)) (pollOutcome p) = Inr True"
  shows "performWindowCheck config m p
     = windowClosed config p
         (m\<lparr>session := (session m)\<lparr>checkCount := checkCount (session m) + 1,
                                     lastCheckTime := pollNow p\<rparr>\<rparr>)"
  using assms by (simp add: performWindowCheck_def stopRequested_def checkBefore_def checkAfter_def Let_def)

lemma poll_error:
  assumes "\<not> stopFlag (session m)" "monitorStopFlag (sessionData (env m)) \<noteq> Some True"
    and "checkAdsPowerWindowStatus (monitorProfileId (session m)) (pollOutcome p) = Inl e"
    and "errorCount (session m) + 1 < maxRetries config"
  shows "performWindowCheck config m p
     = m\<lparr>session := (session m)\<lparr>checkCount := checkCount (session m) + 1,
                                  lastCheckTime := pollNow p,
                                  errorCount := errorCount (session m) + 1\<rparr>\<rparr>"
  using assms by (simp add: performWindowCheck_def stopRequested_def checkBefore_def checkAfter_def Let_def)

lemma poll_last_error:
  assumes "\<not> stopFlag (session m)" "monitorStopFlag (sessionData (env m)) \<noteq> Some True"
    and "checkAdsPowerWindowStatus (monitorProfileId (session m)) (pollOutcome p) = Inl e"
    and "maxRetries config \<le> errorCount (session m) + 1"
  shows "performWindowCheck config m p
     = windowClosed config p
         (m\<lparr>session := (session m)\<lparr>checkCount := checkCount (session m) + 1,
                                     lastCheckTime := pollNow p,
                                     errorCount := errorCount (session m) + 1\<rparr>\<rparr>)"
  using assms by (simp add: performWindowCheck_def stopRequested_def checkBefore_def checkAfter_def Let_def)

text \<open>Once the stop flag is set and the session is out of the map, a poll changes nothing.\<close>

lemma poll_stopped:
  assumes "monitorStopFlag (sessionData (env m)) = Some True"
    and "monitorSessionId (session m) \<notin> set (activeSessions m)"
  shows "performWindowCheck config m p = m"
  using assms by (simp add: performWindowCheck_def stopRequested_def stopMonitoring_def)

lemma polls_stopped:
  assumes "monitorStopFlag (sessionData (env m)) = Some True"
    and "monitorSessionId (session m) \<notin> set (activeSessions m)"
  shows "polls config m ps = m"
  using assms by (induction ps) (simp_all add: polls_def poll_stopped)

lemma polls_append: "polls config m (ps @ qs) = polls config (polls config m ps) qs"
  by (simp add: polls_def)

lemma polls_unfold:
  "polls config m [] = m"
  "polls config m (p # ps) = polls config (performWindowCheck config m p) ps"
  by (simp_all add: polls_def)

text \<open>Three failed checks in a row, counted from zero, with the default settings.\<close>

lemma three_failures:
  assumes cfg: "maxRetries config = 3" "enableAutoCleanup config"
    and run: "\<not> stopFlag (session m)" "monitorStopFlag (sessionData (env m)) \<noteq> Some True"
    and zero: "errorCount (session m) = 0"
    and f1: "checkAdsPowerWindowStatus (monitorProfileId (session m)) (pollOutcome p1) = Inl e1"
    and f2: "checkAdsPowerWindowStatus (monitorProfileId (session m)) (pollOutcome p2) = Inl e2"
    and f3: "checkAdsPowerWindowStatus (monitorProfileId (session m)) (pollOutcome p3) = Inl e3"
  shows "cleanupCalls (polls config m [p1, p2]) = cleanupCalls m"
    and "statusLog (polls config m [p1, p2]) = statusLog m"
    and "cleanupCalls (polls config m [p1, p2, p3]) = cleanupCalls m + 1"
    and "statusLog (polls config m [p1, p2, p3])
           = statusLog m @ [WINDOW_CLOSED, CLEANUP_IN_PROGRESS, CLEANUP_COMPLETED]"
    and "monitorSessionId (session (polls config m [p1, p2, p3])) = monitorSessionId (session m)"
    and "monitorSessionId (session m) \<notin> set (activeSessions (polls config m [p1, p2, p3]))"
    and "monitorStopFlag (sessionData (env (polls config m [p1, p2, p3]))) = Some True"
proof -
  define s1 where "s1 = m\<lparr>session := (session m)\<lparr>checkCount := checkCount (session m) + 1,
                      lastCheckTime := pollNow p1, errorCount := errorCount (session m) + 1\<rparr>\<rparr>"
  define s2 where "s2 = s1\<lparr>session := (session s1)\<lparr>checkCount := checkCount (session s1) + 1,
                      lastCheckTime := pollNow p2, errorCount := errorCount (session s1) + 1\<rparr>\<rparr>"
  define s3 where "s3 = s2\<lparr>session := (session s2)\<lparr>checkCount := checkCount (session s2) + 1,
                      lastCheckTime := pollNow p3, errorCount := errorCount (session s2) + 1\<rparr>\<rparr>"
  have m1: "performWindowCheck config m p1 = s1"
    unfolding s1_def using run f1 cfg zero by (intro poll_error) simp_all
  have m2: "performWindowCheck config s1 p2 = s2"
    unfolding s2_def using run f2 cfg zero by (intro poll_error) (simp_all add: s1_def)
  have m3: "performWindowCheck config s2 p3 = windowClosed config p3 s3"
    unfolding s3_def using run f3 cfg zero
    by (intro poll_last_error) (simp_all add: s1_def s2_def)
  have two: "polls config m [p1, p2] = s2"
    and three: "polls config m [p1, p2, p3] = windowClosed config p3 s3"
    by (simp_all only: polls_unfold m1 m2 m3)
  have same: "cleanupCalls s2 = cleanupCalls m" "statusLog s2 = statusLog m"
    "cleanupCalls s3 = cleanupCalls m" "statusLog s3 = statusLog m"
    "monitorSessionId (session s3) = monitorSessionId (session m)"
    "activeSessions s3 = activeSessions m"
    by (simp_all add: s1_def s2_def s3_def)
  show "cleanupCalls (polls config m [p1, p2]) = cleanupCalls m"
    and "statusLog (polls config m [p1, p2]) = statusLog m"
    unfolding two by (simp_all only: same)
  show "cleanupCalls (polls config m [p1, p2, p3]) = cleanupCalls m + 1"
    unfolding three by (simp only: windowClosed_effect [OF cfg(2)] same)
  show "statusLog (polls config m [p1, p2, p3])
           = statusLog m @ [WINDOW_CLOSED, CLEANUP_IN_PROGRESS, CLEANUP_COMPLETED]"
    unfolding three by (simp only: windowClosed_effect [OF cfg(2)] same)
  show "monitorSessionId (session (polls config m [p1, p2, p3])) = monitorSessionId (session m)"
    unfolding three by (simp only: windowClosed_effect [OF cfg(2)] same)
  show "monitorSessionId (session m) \<notin> set (activeSessions (polls config m [p1, p2, p3]))"
    unfolding three by (simp add: windowClosed_effect [OF cfg(2)] same)
  show "monitorStopFlag (sessionData (env (polls config m [p1, p2, p3]))) = Some True"
    unfolding three by (simp only: windowClosed_effect [OF cfg(2)])
qed

section \<open>Overlapping polls\<close>

lemma windowClosed_session:
  "errorCount (session (windowClosed config p m)) = errorCount (session m)"
  "checkCount (session (windowClosed config p m)) = checkCount (session m)"
  "monitorProfileId (session (windowClosed config p m)) = monitorProfileId (session m)"
  by (simp_all add: windowClosed_def handleWindowClosed_def Let_def split_beta setStatus_def
      stopMonitoringTimer_def split: option.splits)

text \<open>The second half of a poll, by the answer of the status check.\<close>

lemma checkAfter_active:
  assumes "checkAdsPowerWindowStatus (monitorProfileId (session m)) (pollOutcome p) = Inr False"
  shows "checkAfter config m p = m\<lparr>session := (session m)\<lparr>errorCount := 0\<rparr>\<rparr>"
  using assms by (simp add: checkAfter_def)

lemma checkAfter_closed:
  assumes "checkAdsPowerWindowStatus (monitorProfileId (session m)) (pollOutcome p) = Inr True"
  shows "checkAfter config m p = windowClosed config p m"
  using assms by (simp add: checkAfter_def)

lemma checkAfter_error:
  assumes "checkAdsPowerWindowStatus (monitorProfileId (session m)) (pollOutcome p) = Inl e"
    and "errorCount (session m) + 1 < maxRetries config"
  shows "checkAfter config m p
     = m\<lparr>session := (session m)\<lparr>errorCount := errorCount (session m) + 1\<rparr>\<rparr>"
  using assms by (simp add: checkAfter_def Let_def)

lemma checkAfter_last_error:
  assumes "checkAdsPowerWindowStatus (monitorProfileId (session m)) (pollOutcome p) = Inl e"
    and "maxRetries config \<le> errorCount (session m) + 1"
  shows "checkAfter config m p
     = windowClosed config p
         (m\<lparr>session := (session m)\<lparr>errorCount := errorCount (session m) + 1\<rparr>\<rparr>)"
  using assms by (simp add: checkAfter_def Let_def)

text \<open>
  The second half of a poll looks at neither the stop flags nor the status of the session
  nor the active set. When its status check says closed, or fails with the retries used up,
  it runs the cleanup, whatever has happened to the session since the poll was started.
\<close>

lemma checkAfter_runs_cleanup:
  assumes "enableAutoCleanup config"
    and "checkAdsPowerWindowStatus (monitorProfileId (session m)) (pollOutcome p) = Inr True
       \<or> (\<exists>e. checkAdsPowerWindowStatus (monitorProfileId (session m)) (pollOutcome p) = Inl e)
           \<and> maxRetries config \<le> errorCount (session m) + 1"
  shows "cleanupCalls (checkAfter config m p) = cleanupCalls m + 1"
    and "statusLog (checkAfter config m p)
       = statusLog m @ [WINDOW_CLOSED, CLEANUP_IN_PROGRESS, CLEANUP_COMPLETED]"
proof -
  from assms(2) have "\<exists>n. checkAfter config m p = windowClosed config p n
      \<and> cleanupCalls n = cleanupCalls m \<and> statusLog n = statusLog m"
  proof
    assume "checkAdsPowerWindowStatus (monitorProfileId (session m)) (pollOutcome p) = Inr True"
    then have "checkAfter config m p = windowClosed config p m" by (rule checkAfter_closed)
    then show ?thesis by blast
  next
    assume "(\<exists>e. checkAdsPowerWindowStatus (monitorProfileId (session m)) (pollOutcome p) = Inl e)
           \<and> maxRetries config \<le> errorCount (session m) + 1"
    then obtain e
      where e: "checkAdsPowerWindowStatus (monitorProfileId (session m)) (pollOutcome p) = Inl e"
        and last: "maxRetries config \<le> errorCount (session m) + 1"
      by blast
    let ?n = "m\<lparr>session := (session m)\<lparr>errorCount := errorCount (session m) + 1\<rparr>\<rparr>"
    have "checkAfter config m p = windowClosed config p ?n"
      using e last by (rule checkAfter_last_error)
    moreover have "cleanupCalls ?n = cleanupCalls m" "statusLog ?n = statusLog m" by simp_all
    ultimately show ?thesis by blast
  qed
  then obtain n where n: "checkAfter config m p = windowClosed config p n"
    and same: "cleanupCalls n = cleanupCalls m" "statusLog n = statusLog m"
    by blast
  show "cleanupCalls (checkAfter config m p) = cleanupCalls m + 1"
    unfolding n by (simp only: windowClosed_effect [OF assms(1)] same)
  show "statusLog (checkAfter config m p)
       = statusLog m @ [WINDOW_CLOSED, CLEANUP_IN_PROGRESS, CLEANUP_COMPLETED]"
    unfolding n by (simp only: windowClosed_effect [OF assms(1)] same)
qed

text \<open>The events of the monitor, one at a time.\<close>

lemma monitorRun_unfold:
  "monitorRun config state [] = state"
  "monitorRun config state (ev # evs) = monitorRun config (monitorStep config state ev) evs"
  by (simp_all add: monitorRun_def)

lemma timer_fires:
  assumes "timerRunning m" and "\<not> stopRequested m"
  shows "monitorStep config (m, pending) (TimerFires p) = (checkBefore m p, pending @ [p])"
  using assms by (simp add: monitorStep_def)

lemma timer_cleared:
  assumes "\<not> timerRunning m"
  shows "monitorStep config (m, pending) (TimerFires p) = (m, pending)"
  using assms by (simp add: monitorStep_def)

lemma request_settles:
  "monitorStep config (m, p # pending) (RequestSettles p) = (checkAfter config m p, pending)"
  by (simp add: monitorStep_def)

text \<open>A poll that nothing interrupts is one call of \<open>performWindowCheck\<close>.\<close>

lemma poll_alone:
  assumes "timerRunning m"
  shows "monitorRun config (m, []) [TimerFires p, RequestSettles p]
     = (performWindowCheck config m p, [])"
  using assms by (simp add: monitorRun_def monitorStep_def performWindowCheck_def)

text \<open>After \<open>handleWindowClosed\<close> the timer fires no more.\<close>

lemma stopMonitoringTimer_clears:
  "\<not> timerRunning (stopMonitoringTimer m)"
  by (simp add: timerRunning_def stopMonitoringTimer_def Let_def split: option.splits)

lemma windowClosed_clears:
  assumes "enableAutoCleanup config"
  shows "\<not> timerRunning (windowClosed config p m)"
  using assms
  by (simp add: timerRunning_def windowClosed_def handleWindowClosed_def Let_def split_beta
      setStatus_def stopMonitoringTimer_def split: option.splits)
lemma monitorRun_append:
  "monitorRun config state (evs @ evs') = monitorRun config (monitorRun config state evs) evs'"
  by (simp add: monitorRun_def)

lemma slowPoll_fails:
  "checkAdsPowerWindowStatus pid (pollOutcome (slowPoll t))
     = Inl (Failure (str ''request timeout''))"
  by (simp add: checkAdsPowerWindowStatus_def requestStatus_def slowPoll_def str_def)

lemma abortedPoll_closed:
  "checkAdsPowerWindowStatus pid (pollOutcome abortedPoll) = Inr True"
  by (simp add: checkAdsPowerWindowStatus_def requestStatus_def abortedPoll_def str_def)

lemmas started_unfold =
  startedMonitor_def exampleMonitor_def exampleWorld_def checkBefore_def timerRunning_def
  stopRequested_def

text \<open>
  Claim C5 does not hold of the code. The timer starts a poll every 2000 milliseconds
  without waiting for the poll before, and the second half of a poll tests nothing before it
  calls \<open>handleWindowClosed\<close>. With the default settings (\<open>maxRetries\<close> 3, automatic cleanup)
  let every status request fail with a timeout 3000 milliseconds after its start. The polls
  started at 2000 and 4000 only count their failures. The third failure, of the poll started
  at 6000, sets \<open>WINDOW_CLOSED\<close>, runs the cleanup, removes the session from the active set
  and stops the timer. The poll started at 8000 is under way by then: when its request
  fails, the error counter goes to 4, the status is set to \<open>WINDOW_CLOSED\<close> again and the
  cleanup is run a second time. Moreover, a request that the monitor's own limit of 5000
  milliseconds aborts is not counted as a failed check at all: its message has neither
  \<open>timeout\<close> nor \<open>ECONNREFUSED\<close> in it, so the check answers closed, and the first such poll
  runs the cleanup with the error counter still at zero.
\<close>

theorem window_monitor_cleanup_twice_C5:
  "maxRetries defaultMonitoringConfig = 3
   \<and> (\<forall>t. checkAdsPowerWindowStatus (str ''p1'') (pollOutcome (slowPoll t))
          = Inl (Failure (str ''request timeout'')))
   \<and> cleanupCalls (fst (monitorRun defaultMonitoringConfig (startedMonitor, []) twoFailures)) = 0
   \<and> errorCount (session (fst (monitorRun defaultMonitoringConfig (startedMonitor, [])
        twoFailures))) = 2
   \<and> snd (monitorRun defaultMonitoringConfig (startedMonitor, []) twoFailures)
       = [slowPoll 6000, slowPoll 8000]
   \<and> errorCount (session (fst (monitorRun defaultMonitoringConfig (startedMonitor, [])
        (twoFailures @ [RequestSettles (slowPoll 6000)])))) = 3
   \<and> statusLog (fst (monitorRun defaultMonitoringConfig (startedMonitor, [])
        (twoFailures @ [RequestSettles (slowPoll 6000)])))
       = [MONITORING, WINDOW_CLOSED, CLEANUP_IN_PROGRESS, CLEANUP_COMPLETED]
   \<and> cleanupCalls (fst (monitorRun defaultMonitoringConfig (startedMonitor, [])
        (twoFailures @ [RequestSettles (slowPoll 6000)]))) = 1
   \<and> str ''s1'' \<notin> set (activeSessions (fst (monitorRun defaultMonitoringConfig
        (startedMonitor, []) (twoFailures @ [RequestSettles (slowPoll 6000)]))))
   \<and> \<not> timerRunning (fst (monitorRun defaultMonitoringConfig (startedMonitor, [])
        (twoFailures @ [RequestSettles (slowPoll 6000)])))
   \<and> errorCount (session (fst (monitorRun defaultMonitoringConfig (startedMonitor, [])
        (twoFailures @ [RequestSettles (slowPoll 6000), RequestSettles (slowPoll 8000)])))) = 4
   \<and> statusLog (fst (monitorRun defaultMonitoringConfig (startedMonitor, [])
        (twoFailures @ [RequestSettles (slowPoll 6000), RequestSettles (slowPoll 8000)])))
       = [MONITORING, WINDOW_CLOSED, CLEANUP_IN_PROGRESS, CLEANUP_COMPLETED,
          WINDOW_CLOSED, CLEANUP_IN_PROGRESS, CLEANUP_COMPLETED]
   \<and> cleanupCalls (fst (monitorRun defaultMonitoringConfig (startedMonitor, [])
        (twoFailures @ [RequestSettles (slowPoll 6000), RequestSettles (slowPoll 8000)]))) = 2
   \<and> checkAdsPowerWindowStatus (str ''p1'') (pollOutcome abortedPoll) = Inr True
   \<and> errorCount (session (fst (monitorRun defaultMonitoringConfig (startedMonitor, [])
        [TimerFires abortedPoll, RequestSettles abortedPoll]))) = 0
   \<and> cleanupCalls (fst (monitorRun defaultMonitoringConfig (startedMonitor, [])
        [TimerFires abortedPoll, RequestSettles abortedPoll])) = 1"
proof -
  let ?c = defaultMonitoringConfig
  have cfg: "maxRetries ?c = 3" "enableAutoCleanup ?c"
    by (simp_all add: defaultMonitoringConfig_def)
  define b1 where "b1 = checkBefore startedMonitor (slowPoll 2000)"
  define b2 where "b2 = checkBefore b1 (slowPoll 4000)"
  define a1 where "a1 = b2\<lparr>session := (session b2)\<lparr>errorCount := errorCount (session b2) + 1\<rparr>\<rparr>"
  define b3 where "b3 = checkBefore a1 (slowPoll 6000)"
  define a2 where "a2 = b3\<lparr>session := (session b3)\<lparr>errorCount := errorCount (session b3) + 1\<rparr>\<rparr>"
  define b4 where "b4 = checkBefore a2 (slowPoll 8000)"
  define e3 where "e3 = b4\<lparr>session := (session b4)\<lparr>errorCount := errorCount (session b4) + 1\<rparr>\<rparr>"
  define a3 where "a3 = windowClosed ?c (slowPoll 6000) e3"
  define e4 where "e4 = a3\<lparr>session := (session a3)\<lparr>errorCount := errorCount (session a3) + 1\<rparr>\<rparr>"
  define a4 where "a4 = windowClosed ?c (slowPoll 8000) e4"
  note states = b1_def b2_def a1_def b3_def a2_def b4_def e3_def
  have running: "timerRunning startedMonitor" "\<not> stopRequested startedMonitor"
    "timerRunning b1" "\<not> stopRequested b1" "timerRunning a1" "\<not> stopRequested a1"
    "timerRunning a2" "\<not> stopRequested a2"
    by (simp_all add: states started_unfold)
  have counts: "errorCount (session b2) = 0" "errorCount (session b3) = 1"
    "errorCount (session b4) = 2" "errorCount (session e3) = 3"
    "cleanupCalls b4 = 0" "cleanupCalls e3 = 0" "statusLog e3 = [MONITORING]"
    "monitorSessionId (session e3) = str ''s1''"
    by (simp_all add: states started_unfold)
  have s1: "monitorStep ?c (startedMonitor, []) (TimerFires (slowPoll 2000))
      = (b1, [slowPoll 2000])"
    unfolding b1_def using running(1,2) by (simp add: timer_fires)
  have s2: "monitorStep ?c (b1, [slowPoll 2000]) (TimerFires (slowPoll 4000))
      = (b2, [slowPoll 2000, slowPoll 4000])"
    unfolding b2_def using running(3,4) by (simp add: timer_fires)
  have "checkAfter ?c b2 (slowPoll 2000) = a1"
    unfolding a1_def by (rule checkAfter_error [OF slowPoll_fails]) (simp add: counts cfg)
  then have s3: "monitorStep ?c (b2, [slowPoll 2000, slowPoll 4000]) (RequestSettles (slowPoll 2000))
      = (a1, [slowPoll 4000])"
    by (simp only: request_settles)
  have s4: "monitorStep ?c (a1, [slowPoll 4000]) (TimerFires (slowPoll 6000))
      = (b3, [slowPoll 4000, slowPoll 6000])"
    unfolding b3_def using running(5,6) by (simp add: timer_fires)
  have "checkAfter ?c b3 (slowPoll 4000) = a2"
    unfolding a2_def by (rule checkAfter_error [OF slowPoll_fails]) (simp add: counts cfg)
  then have s5: "monitorStep ?c (b3, [slowPoll 4000, slowPoll 6000]) (RequestSettles (slowPoll 4000))
      = (a2, [slowPoll 6000])"
    by (simp only: request_settles)
  have s6: "monitorStep ?c (a2, [slowPoll 6000]) (TimerFires (slowPoll 8000))
      = (b4, [slowPoll 6000, slowPoll 8000])"
    unfolding b4_def using running(7,8) by (simp add: timer_fires)
  have "checkAfter ?c b4 (slowPoll 6000) = a3"
    unfolding a3_def e3_def
    by (rule checkAfter_last_error [OF slowPoll_fails]) (simp add: counts cfg)
  then have s7: "monitorStep ?c (b4, [slowPoll 6000, slowPoll 8000]) (RequestSettles (slowPoll 6000))
      = (a3, [slowPoll 8000])"
    by (simp only: request_settles)
  have third: "errorCount (session a3) = 3" "cleanupCalls a3 = 1"
    "statusLog a3 = [MONITORING, WINDOW_CLOSED, CLEANUP_IN_PROGRESS, CLEANUP_COMPLETED]"
    "str ''s1'' \<notin> set (activeSessions a3)" "\<not> timerRunning a3"
    unfolding a3_def
    by (simp_all add: windowClosed_session windowClosed_effect [OF cfg(2)]
        windowClosed_clears [OF cfg(2)] counts)
  have "checkAfter ?c a3 (slowPoll 8000) = a4"
    unfolding a4_def e4_def
    by (rule checkAfter_last_error [OF slowPoll_fails]) (simp add: third cfg)
  then have s8: "monitorStep ?c (a3, [slowPoll 8000]) (RequestSettles (slowPoll 8000)) = (a4, [])"
    by (simp only: request_settles)
  have e4: "errorCount (session e4) = 4" "cleanupCalls e4 = 1"
    "statusLog e4 = [MONITORING, WINDOW_CLOSED, CLEANUP_IN_PROGRESS, CLEANUP_COMPLETED]"
    by (simp_all add: e4_def third)
  have fourth: "errorCount (session a4) = 4" "cleanupCalls a4 = 2"
    "statusLog a4 = [MONITORING, WINDOW_CLOSED, CLEANUP_IN_PROGRESS, CLEANUP_COMPLETED,
          WINDOW_CLOSED, CLEANUP_IN_PROGRESS, CLEANUP_COMPLETED]"
    unfolding a4_def
    by (simp_all add: windowClosed_session windowClosed_effect [OF cfg(2)] e4)
  have six: "monitorRun ?c (startedMonitor, []) twoFailures = (b4, [slowPoll 6000, slowPoll 8000])"
    by (simp only: twoFailures_def monitorRun_unfold s1 s2 s3 s4 s5 s6)
  have seven: "monitorRun ?c (startedMonitor, []) (twoFailures @ [RequestSettles (slowPoll 6000)])
      = (a3, [slowPoll 8000])"
    by (simp only: monitorRun_append six monitorRun_unfold s7)
  have eight: "monitorRun ?c (startedMonitor, [])
      (twoFailures @ [RequestSettles (slowPoll 6000), RequestSettles (slowPoll 8000)]) = (a4, [])"
    by (simp only: monitorRun_append six monitorRun_unfold s7 s8)
  define c1 where "c1 = checkBefore startedMonitor abortedPoll"
  have "monitorRun ?c (startedMonitor, []) [TimerFires abortedPoll, RequestSettles abortedPoll]
      = (performWindowCheck ?c startedMonitor abortedPoll, [])"
    using running(1) by (rule poll_alone)
  also have "performWindowCheck ?c startedMonitor abortedPoll = windowClosed ?c abortedPoll c1"
    unfolding c1_def using running(2)
    by (simp add: performWindowCheck_def checkAfter_closed [OF abortedPoll_closed])
  finally have aborted: "monitorRun ?c (startedMonitor, [])
      [TimerFires abortedPoll, RequestSettles abortedPoll] = (windowClosed ?c abortedPoll c1, [])" .
  have c1: "errorCount (session c1) = 0" "cleanupCalls c1 = 0"
    by (simp_all add: c1_def started_unfold)
  have abort: "errorCount (session (windowClosed ?c abortedPoll c1)) = 0"
    "cleanupCalls (windowClosed ?c abortedPoll c1) = 1"
    by (simp_all add: windowClosed_session windowClosed_effect [OF cfg(2)] c1)
  show ?thesis
    unfolding six seven eight aborted fst_conv snd_conv
    using cfg(1) slowPoll_fails abortedPoll_closed counts(3,5) third fourth abort
    by (intro conjI allI refl)
qed


section \<open>Polls in turn\<close>

text \<open>
  Polls that do not overlap behave as the per-poll rule says. A poll of a running session
  that finds the browser active sets the error counter to zero and leaves the status as it
  is. If the next three polls fail (the status check throws) and \<open>maxRetries\<close> is 3, with
  automatic cleanup switched on as it is by default, then the first two only count; the
  third sets the status to \<open>WINDOW_CLOSED\<close>, runs the cleanup once, which ends in
  \<open>CLEANUP_COMPLETED\<close>, and removes the session from the active set. Whatever polls are
  started after that, the cleanup is not run again and the session stays out of the
  active set.
\<close>

lemma polls_in_turn:
  assumes "maxRetries config = 3" and "enableAutoCleanup config"
    and "\<not> stopFlag (session m)" and "monitorStopFlag (sessionData (env m)) \<noteq> Some True"
    and "checkAdsPowerWindowStatus (monitorProfileId (session m)) (pollOutcome p0) = Inr False"
    and "checkAdsPowerWindowStatus (monitorProfileId (session m)) (pollOutcome p1) = Inl e1"
    and "checkAdsPowerWindowStatus (monitorProfileId (session m)) (pollOutcome p2) = Inl e2"
    and "checkAdsPowerWindowStatus (monitorProfileId (session m)) (pollOutcome p3) = Inl e3"
  shows "errorCount (session (performWindowCheck config m p0)) = 0
    \<and> sessionStatus (session (performWindowCheck config m p0)) = sessionStatus (session m)
    \<and> cleanupCalls (polls config m [p0, p1, p2]) = cleanupCalls m
    \<and> statusLog (polls config m [p0, p1, p2]) = statusLog m
    \<and> statusLog (polls config m [p0, p1, p2, p3])
        = statusLog m @ [WINDOW_CLOSED, CLEANUP_IN_PROGRESS, CLEANUP_COMPLETED]
    \<and> cleanupCalls (polls config m [p0, p1, p2, p3]) = cleanupCalls m + 1
    \<and> monitorSessionId (session m) \<notin> set (activeSessions (polls config m [p0, p1, p2, p3]))
    \<and> (\<forall>ps. cleanupCalls (polls config m ([p0, p1, p2, p3] @ ps)) = cleanupCalls m + 1
          \<and> monitorSessionId (session m)
              \<notin> set (activeSessions (polls config m ([p0, p1, p2, p3] @ ps))))"
proof -
  let ?n = "performWindowCheck config m p0"
  have n: "?n = m\<lparr>session := (session m)\<lparr>checkCount := checkCount (session m) + 1,
                     lastCheckTime := pollNow p0, errorCount := 0\<rparr>\<rparr>"
    using assms(3,4,5) by (rule poll_active)
  have run: "\<not> stopFlag (session ?n)" "monitorStopFlag (sessionData (env ?n)) \<noteq> Some True"
    "errorCount (session ?n) = 0"
    using assms(3,4) by (simp_all add: n)
  have f: "checkAdsPowerWindowStatus (monitorProfileId (session ?n)) (pollOutcome p1) = Inl e1"
    "checkAdsPowerWindowStatus (monitorProfileId (session ?n)) (pollOutcome p2) = Inl e2"
    "checkAdsPowerWindowStatus (monitorProfileId (session ?n)) (pollOutcome p3) = Inl e3"
    using assms(6,7,8) by (simp_all add: n)
  note t = three_failures [OF assms(1,2) run f]
  have same: "cleanupCalls ?n = cleanupCalls m" "statusLog ?n = statusLog m"
    "monitorSessionId (session ?n) = monitorSessionId (session m)"
    by (simp_all add: n)
  let ?c = "polls config m [p0, p1, p2, p3]"
  have c: "?c = polls config ?n [p1, p2, p3]" and b: "polls config m [p0, p1, p2] = polls config ?n [p1, p2]"
    by (simp_all only: polls_unfold)
  have gone: "monitorSessionId (session ?c) \<notin> set (activeSessions ?c)"
    and flag: "monitorStopFlag (sessionData (env ?c)) = Some True"
    unfolding c using t(5,6,7) by simp_all
  have after: "polls config m ([p0, p1, p2, p3] @ ps) = ?c" for ps
    unfolding polls_append using flag gone by (rule polls_stopped)
  have calls: "cleanupCalls ?c = cleanupCalls m + 1"
    and out: "monitorSessionId (session m) \<notin> set (activeSessions ?c)"
    and log: "statusLog ?c = statusLog m @ [WINDOW_CLOSED, CLEANUP_IN_PROGRESS, CLEANUP_COMPLETED]"
    unfolding c using t(3,4,6) same by simp_all
  have before: "cleanupCalls (polls config m [p0, p1, p2]) = cleanupCalls m"
    "statusLog (polls config m [p0, p1, p2]) = statusLog m"
    unfolding b using t(1,2) same by simp_all
  have first: "errorCount (session ?n) = 0" "sessionStatus (session ?n) = sessionStatus (session m)"
    by (simp_all add: n)
  from first before log calls out after show ?thesis
    by (simp only: simp_thms)
qed

lemma polls_in_turn_example:
  "errorCount (session exampleMonitor) = 2
   \<and> errorCount (session (performWindowCheck defaultMonitoringConfig exampleMonitor activePoll)) = 0
   \<and> sessionStatus (session (performWindowCheck defaultMonitoringConfig exampleMonitor activePoll))
       = MONITORING
   \<and> cleanupCalls (polls defaultMonitoringConfig exampleMonitor
        [activePoll, timeoutPoll, timeoutPoll]) = 0
   \<and> statusLog (polls defaultMonitoringConfig exampleMonitor
        [activePoll, timeoutPoll, timeoutPoll]) = [MONITORING]
   \<and> statusLog (polls defaultMonitoringConfig exampleMonitor
        [activePoll, timeoutPoll, timeoutPoll, timeoutPoll])
       = [MONITORING, WINDOW_CLOSED, CLEANUP_IN_PROGRESS, CLEANUP_COMPLETED]
   \<and> cleanupCalls (polls defaultMonitoringConfig exampleMonitor
        [activePoll, timeoutPoll, timeoutPoll, timeoutPoll]) = 1
   \<and> str ''s1'' \<notin> set (activeSessions (polls defaultMonitoringConfig exampleMonitor
        [activePoll, timeoutPoll, timeoutPoll, timeoutPoll]))
   \<and> (\<forall>ps. cleanupCalls (polls defaultMonitoringConfig exampleMonitor
               ([activePoll, timeoutPoll, timeoutPoll, timeoutPoll] @ ps)) = 1
          \<and> str ''s1'' \<notin> set (activeSessions (polls defaultMonitoringConfig exampleMonitor
               ([activePoll, timeoutPoll, timeoutPoll, timeoutPoll] @ ps))))"
proof -
  have cfg: "maxRetries defaultMonitoringConfig = 3" "enableAutoCleanup defaultMonitoringConfig"
    by (simp_all add: defaultMonitoringConfig_def)
  have run: "\<not> stopFlag (session exampleMonitor)"
    "monitorStopFlag (sessionData (env exampleMonitor)) \<noteq> Some True"
    by (simp_all add: exampleMonitor_def exampleWorld_def)
  have active: "checkAdsPowerWindowStatus (monitorProfileId (session exampleMonitor))
      (pollOutcome activePoll) = Inr False"
    by (simp add: checkAdsPowerWindowStatus_def requestStatus_def activePoll_def)
  have failing: "checkAdsPowerWindowStatus (monitorProfileId (session exampleMonitor))
      (pollOutcome timeoutPoll) = Inl (Failure (str ''request timeout''))"
    by (simp add: checkAdsPowerWindowStatus_def requestStatus_def timeoutPoll_def str_def)
  have vals: "cleanupCalls exampleMonitor = 0" "statusLog exampleMonitor = [MONITORING]"
    "monitorSessionId (session exampleMonitor) = str ''s1''"
    "sessionStatus (session exampleMonitor) = MONITORING"
    by (simp_all add: exampleMonitor_def)
  have two: "errorCount (session exampleMonitor) = 2"
    by (simp add: exampleMonitor_def)
  from two polls_in_turn [OF cfg run active failing failing failing]
  show ?thesis
    unfolding vals by simp
qed

end
